(* ===== verification/Veda_Prelude.thy ===== *)
theory Veda_Prelude
  imports Main "HOL-Library.Word"
begin

text \<open>Shared vocabulary of the development: the C integer types as words, ASCII literals,
  HAL status codes, the simplification collections, and the list, word and tick-arithmetic
  lemmas used by several components.\<close>

unbundle bit_operations_syntax

type_synonym u8 = "8 word"
type_synonym u16 = "16 word"
type_synonym u32 = "32 word"
type_synonym u64 = "64 word"

text \<open>Configuration constants of the headers (unfolded by the proofs that depend on them).\<close>
named_theorems config_defs

text \<open>Well-formedness preservation facts.\<close>
named_theorems wf_intros

text \<open>Frame facts: which fields an operation leaves alone.\<close>
named_theorems frame_simps

text \<open>A C character constant as the byte it denotes.\<close>

definition ascii :: "char \<Rightarrow> u8" where
  "ascii c = of_char c"

definition cstr :: "string \<Rightarrow> u8 list" where
  "cstr s = map ascii s"

lemma ascii_eval [simp]: "ascii (Char b0 b1 b2 b3 b4 b5 b6 b7) =
    word_of_nat (of_char (Char b0 b1 b2 b3 b4 b5 b6 b7))"
  by (simp add: ascii_def)

lemma cstr_Nil [simp]: "cstr [] = []"
  and cstr_Cons [simp]: "cstr (c # s) = ascii c # cstr s"
  and cstr_append [simp]: "cstr (s @ t) = cstr s @ cstr t"
  and length_cstr [simp]: "length (cstr s) = length s"
  by (simp_all add: cstr_def)

definition CR :: u8 where "CR = 13"
definition LF :: u8 where "LF = 10"
declare CR_def [simp] LF_def [simp]

text \<open>C truth values.\<close>

definition of_flag :: "bool \<Rightarrow> u8" where
  "of_flag b = (if b then 1 else 0)"

lemma of_flag_simps [simp]: "of_flag True = 1" "of_flag False = 0"
  "of_flag b = 0 \<longleftrightarrow> \<not> b" "of_flag b = 1 \<longleftrightarrow> b"
  by (simp_all add: of_flag_def)

datatype hal_status = HAL_OK | HAL_ERROR | HAL_BUSY | HAL_TIMEOUT

subsection \<open>Words\<close>

lemma word_upper_cases4:
  assumes "(x :: u8) < 4"
  obtains "x = 0" | "x = 1" | "x = 2" | "x = 3"
proof -
  have "unat x < 4" using assms by (simp add: word_less_nat_alt)
  then have "unat x = 0 \<or> unat x = 1 \<or> unat x = 2 \<or> unat x = 3" by linarith
  then have "x = 0 \<or> x = 1 \<or> x = 2 \<or> x = 3" by (simp add: word_unat_eq_iff)
  then show ?thesis using that by blast
qed

lemma word_le_2_cases:
  assumes "(x :: u8) \<le> 2"
  obtains "x = 0" | "x = 1" | "x = 2"
proof -
  have "unat x \<le> 2" using assms by (simp add: word_le_nat_alt)
  then have "unat x = 0 \<or> unat x = 1 \<or> unat x = 2" by linarith
  then have "x = 0 \<or> x = 1 \<or> x = 2" by (simp add: word_unat_eq_iff)
  then show ?thesis using that by blast
qed

lemma unat_u32_less: "unat (w :: u32) < 2 ^ 32"
  using unsigned_less [of w] by simp

lemma unat_u8_less: "unat (w :: u8) < 2 ^ 8"
  using unsigned_less [of w] by simp

lemma xor_cancel_left: "(x :: 'a::len word) XOR (x XOR y) = y"
  by (simp flip: xor.assoc)

lemma minus_one_u16: "(- 1 :: u16) = 0xFFFF"
  by code_simp

text \<open>Elapsed time by unsigned subtraction is exact across the wrap of the tick counter.\<close>

lemma tick_elapsed_exact:
  fixes start :: u32
  assumes "n < 2 ^ 32"
  shows "unat ((start + word_of_nat n) - start) = n"
  using assms by (simp add: unat_of_nat)

lemma word_add_of_nat_assoc: "(w :: u32) + word_of_nat a + word_of_nat b = w + word_of_nat (a + b)"
  by simp

subsection \<open>Lists\<close>

lemma list_update_nth_eq: "i < length xs \<Longrightarrow> (xs[i := x]) ! j = (if i = j then x else xs ! j)"
  by (cases "i = j") auto

lemma head_drop: "(case drop k ys of [] \<Rightarrow> None | y # _ \<Rightarrow> Some y)
    = (if k < length ys then Some (ys ! k) else None)"
  by (cases "k < length ys") (simp_all add: Cons_nth_drop_Suc [symmetric])

lemma in_set_tlD: "x \<in> set (tl xs) \<Longrightarrow> x \<in> set xs"
  by (cases xs) auto

lemma fold_index_take:
  assumes "n \<le> length xs"
  shows "fold (\<lambda>i. f (xs ! i)) [0..<n] s = fold f (take n xs) s"
  using assms by (induction n) (auto simp: take_Suc_conv_app_nth)

lemma upt_0_4: "[0..<4] = [0, 1, 2, 3 :: nat]"
  by (simp add: upt_rec)

lemma nat_less_4: "(i :: nat) < 4 \<longleftrightarrow> i = 0 \<or> i = 1 \<or> i = 2 \<or> i = 3"
  by auto

lemma length_4_conv: "length xs = 4 \<longleftrightarrow> (\<exists>a b c d. xs = [a, b, c, d])"
  by (auto simp: numeral_eq_Suc length_Suc_conv)

end
