(* ===== verification/Protocol.thy ===== *)
theory Protocol
  imports Veda_Prelude
begin

text \<open>The shared wire protocol between the Raspberry Pi and the STM32 master
  (driver/Rs485_send_demo/Core/Inc/driver_protocol.h): the packed structures, their byte images on a
  little-endian Cortex-M4, the frames around them and the XOR checksum. The lemmas show that every
  packed image has the size the static assertions fix, that encoding and decoding are inverse to
  each other in both directions, and which corruptions the checksum detects.\<close>

subsection \<open>Constants\<close>

definition VEDA_START_BYTE :: u8 where "VEDA_START_BYTE = 0x53"
definition VEDA_END_BYTE :: u8 where "VEDA_END_BYTE = 0x45"
definition VEDA_DIST_MM_NONE :: u16 where "VEDA_DIST_MM_NONE = 0xFFFF"
definition VEDA_RISK_NONE :: u8 where "VEDA_RISK_NONE = 0"
definition VEDA_RISK_WARNING :: u8 where "VEDA_RISK_WARNING = 1"
definition VEDA_RISK_DANGER :: u8 where "VEDA_RISK_DANGER = 2"
definition VEDA_UPLINK_REASON_ACK :: u8 where "VEDA_UPLINK_REASON_ACK = 0"
definition VEDA_UPLINK_REASON_HEARTBEAT :: u8 where "VEDA_UPLINK_REASON_HEARTBEAT = 1"

lemmas protocol_consts [simp] = VEDA_START_BYTE_def VEDA_END_BYTE_def VEDA_DIST_MM_NONE_def
  VEDA_RISK_NONE_def VEDA_RISK_WARNING_def VEDA_RISK_DANGER_def
  VEDA_UPLINK_REASON_ACK_def VEDA_UPLINK_REASON_HEARTBEAT_def

subsection \<open>Packed structures\<close>

text \<open>The 64-bit timestamp is kept as the bit pattern of the C int64; \<open>sint\<close> reads it.\<close>

record veda_risk_event_t =
  ev_channel_id :: u8
  ev_risk_level :: u8
  ev_reserved0 :: "u8 list"
  ev_timestamp_ms :: u64
  ev_dist_mm :: u16
  ev_reserved1 :: "u8 list"

record veda_uplink_packet_t =
  up_channel_id :: u8
  up_reason :: u8
  up_siren_on :: u8
  up_buzzer_on :: u8
  up_led_red :: u8
  up_led_yellow :: u8
  up_led_green :: u8
  up_reserved0 :: u8
  up_timestamp_ms :: u64

record veda_downlink_frame_t =
  dl_start_byte :: u8
  dl_payload :: veda_risk_event_t
  dl_checksum :: u8
  dl_end_byte :: u8

record veda_uplink_frame_t =
  uf_start_byte :: u8
  uf_payload :: veda_uplink_packet_t
  uf_checksum :: u8
  uf_end_byte :: u8

subsection \<open>Little-endian integers\<close>

primrec le_bytes :: "nat \<Rightarrow> 'a::len word \<Rightarrow> u8 list" where
  "le_bytes 0 w = []"
| "le_bytes (Suc n) w = ucast w # le_bytes n (drop_bit 8 w)"

primrec le_word :: "u8 list \<Rightarrow> 'a::len word" where
  "le_word [] = 0"
| "le_word (b # bs) = ucast b OR push_bit 8 (le_word bs)"

lemma length_le_bytes [simp]: "length (le_bytes n w) = n"
  by (induction n arbitrary: w) auto

lemma le_word_le_bytes: "le_word (le_bytes n w) = take_bit (8 * n) w"
proof (induction n arbitrary: w)
  case (Suc n)
  show ?case
    by (rule bit_word_eqI)
      (auto simp: Suc bit_or_iff bit_push_bit_iff bit_take_bit_iff bit_ucast_iff bit_drop_bit_eq)
qed simp

lemma le_word_le_bytes_full [simp]:
  "le_word (le_bytes 8 (w :: u64)) = w" "le_word (le_bytes 2 (v :: u16)) = v"
  by (simp_all add: le_word_le_bytes take_bit_word_eq_self)

lemma bit_le_word_bound: "bit (le_word bs :: 'a::len word) n \<Longrightarrow> n < 8 * length bs"
proof (induction bs arbitrary: n)
  case (Cons c cs)
  then consider "bit c n" | "8 \<le> n" "bit (le_word cs :: 'a word) (n - 8)"
    by (auto simp: bit_or_iff bit_push_bit_iff bit_ucast_iff)
  then show ?case
  proof cases
    case 1
    then show ?thesis using bit_imp_le_length [OF 1] by simp
  next
    case 2
    then show ?thesis using Cons.IH [OF 2(2)] by simp
  qed
qed simp

lemma ucast_le_word_Cons:
  "8 \<le> LENGTH('a) \<Longrightarrow> ucast (ucast b OR push_bit 8 (w :: 'a::len word)) = (b :: u8)"
  by (rule bit_word_eqI) (simp add: bit_or_iff bit_push_bit_iff bit_ucast_iff)

lemma drop_bit_le_word_Cons:
  assumes "8 + 8 * length bs \<le> LENGTH('a)"
  shows "drop_bit 8 (ucast (b :: u8) OR push_bit 8 (le_word bs :: 'a::len word)) = le_word bs"
proof (rule bit_word_eqI)
  fix n assume "n < LENGTH('a)"
  have "\<not> bit b (8 + n)" using bit_imp_le_length [of b "8 + n"] by auto
  moreover have "bit (le_word bs :: 'a word) n \<Longrightarrow> 8 + n < LENGTH('a)"
    using bit_le_word_bound [of bs n] assms by force
  ultimately show "bit (drop_bit 8 (ucast b OR push_bit 8 (le_word bs :: 'a word))) n
      = bit (le_word bs :: 'a word) n"
    by (auto simp: bit_or_iff bit_push_bit_iff bit_ucast_iff bit_drop_bit_eq)
qed

lemma le_bytes_le_word:
  "8 * length bs \<le> LENGTH('a) \<Longrightarrow> le_bytes (length bs) (le_word bs :: 'a::len word) = bs"
  by (induction bs) (simp_all add: ucast_le_word_Cons drop_bit_le_word_Cons del: drop_bit_or)

lemma le_bytes_le_word_len:
  "length bs = n \<Longrightarrow> 8 * n \<le> LENGTH('a) \<Longrightarrow> le_bytes n (le_word bs :: 'a::len word) = bs"
  using le_bytes_le_word by blast

subsection \<open>Byte images of the packed structures\<close>

definition event_bytes :: "veda_risk_event_t \<Rightarrow> u8 list" where
  "event_bytes e = [ev_channel_id e, ev_risk_level e] @ ev_reserved0 e
     @ le_bytes 8 (ev_timestamp_ms e) @ le_bytes 2 (ev_dist_mm e) @ ev_reserved1 e"

definition event_of_bytes :: "u8 list \<Rightarrow> veda_risk_event_t" where
  "event_of_bytes bs = \<lparr> ev_channel_id = bs ! 0, ev_risk_level = bs ! 1,
     ev_reserved0 = take 6 (drop 2 bs), ev_timestamp_ms = le_word (take 8 (drop 8 bs)),
     ev_dist_mm = le_word (take 2 (drop 16 bs)), ev_reserved1 = take 6 (drop 18 bs) \<rparr>"

definition packet_bytes :: "veda_uplink_packet_t \<Rightarrow> u8 list" where
  "packet_bytes p = [up_channel_id p, up_reason p, up_siren_on p, up_buzzer_on p,
     up_led_red p, up_led_yellow p, up_led_green p, up_reserved0 p] @ le_bytes 8 (up_timestamp_ms p)"

definition packet_of_bytes :: "u8 list \<Rightarrow> veda_uplink_packet_t" where
  "packet_of_bytes bs = \<lparr> up_channel_id = bs ! 0, up_reason = bs ! 1, up_siren_on = bs ! 2,
     up_buzzer_on = bs ! 3, up_led_red = bs ! 4, up_led_yellow = bs ! 5, up_led_green = bs ! 6,
     up_reserved0 = bs ! 7, up_timestamp_ms = le_word (take 8 (drop 8 bs)) \<rparr>"

definition downlink_frame_bytes :: "veda_downlink_frame_t \<Rightarrow> u8 list" where
  "downlink_frame_bytes f = [dl_start_byte f] @ event_bytes (dl_payload f)
     @ [dl_checksum f, dl_end_byte f]"

definition uplink_frame_bytes :: "veda_uplink_frame_t \<Rightarrow> u8 list" where
  "uplink_frame_bytes f = [uf_start_byte f] @ packet_bytes (uf_payload f)
     @ [uf_checksum f, uf_end_byte f]"

text \<open>An event occupies its C layout: both reserved arrays have six bytes.\<close>

definition wf_event :: "veda_risk_event_t \<Rightarrow> bool" where
  "wf_event e \<longleftrightarrow> length (ev_reserved0 e) = 6 \<and> length (ev_reserved1 e) = 6"

subsection \<open>Checksum\<close>

definition veda_checksum :: "u8 list \<Rightarrow> nat \<Rightarrow> u8" where
  "veda_checksum data len = fold (\<lambda>i sum. sum XOR data ! i) [0..<len] 0"

definition veda_downlink_checksum :: "veda_risk_event_t \<Rightarrow> u8" where
  "veda_downlink_checksum e = veda_checksum (event_bytes e) 24"

definition veda_uplink_checksum :: "veda_uplink_packet_t \<Rightarrow> u8" where
  "veda_uplink_checksum p = veda_checksum (packet_bytes p) 16"

subsection \<open>Sizes and round trips\<close>

lemma length_event_bytes [simp]: "wf_event e \<Longrightarrow> length (event_bytes e) = 24"
  by (simp add: event_bytes_def wf_event_def)

lemma length_packet_bytes [simp]: "length (packet_bytes p) = 16"
  by (simp add: packet_bytes_def)

lemma length_uplink_frame_bytes [simp]: "length (uplink_frame_bytes f) = 19"
  by (simp add: uplink_frame_bytes_def)

lemma length_downlink_frame_bytes [simp]:
  "wf_event (dl_payload f) \<Longrightarrow> length (downlink_frame_bytes f) = 27"
  by (simp add: downlink_frame_bytes_def)

lemma event_of_bytes_event_bytes [simp]: "wf_event e \<Longrightarrow> event_of_bytes (event_bytes e) = e"
  by (cases e) (simp add: event_of_bytes_def event_bytes_def wf_event_def)

lemma wf_event_of_bytes [simp]: "length bs = 24 \<Longrightarrow> wf_event (event_of_bytes bs)"
  by (simp add: wf_event_def event_of_bytes_def)

lemma list_split3: "n \<le> m \<Longrightarrow> take (m - n) (drop n xs) @ drop m xs = drop n xs"
  by (metis append_take_drop_id drop_drop le_add_diff_inverse2)

lemma event_bytes_event_of_bytes [simp]:
  assumes "length bs = 24"
  shows "event_bytes (event_of_bytes bs) = bs"
proof -
  have hd2: "bs = [bs ! 0, bs ! 1] @ drop 2 bs"
    using assms by (cases bs; cases "tl bs") (auto simp: numeral_2_eq_2)
  have "take 6 (drop 2 bs) @ take 8 (drop 8 bs) @ take 2 (drop 16 bs) @ take 6 (drop 18 bs)
      = drop 2 bs"
    using list_split3 [of 2 8 bs] list_split3 [of 8 16 bs] list_split3 [of 16 18 bs] assms by simp
  then show ?thesis
    using assms hd2 by (simp add: event_bytes_def event_of_bytes_def le_bytes_le_word_len)
qed

lemma packet_of_bytes_packet_bytes [simp]: "packet_of_bytes (packet_bytes p) = p"
  by (cases p) (simp add: packet_of_bytes_def packet_bytes_def)

lemma packet_bytes_inject: "packet_bytes p = packet_bytes q \<Longrightarrow> p = q"
  by (metis packet_of_bytes_packet_bytes)

lemma event_bytes_inject:
  "event_bytes e = event_bytes f \<Longrightarrow> wf_event e \<Longrightarrow> wf_event f \<Longrightarrow> e = f"
  by (metis event_of_bytes_event_bytes)

subsection \<open>What the checksum sees\<close>

definition xor_list :: "u8 list \<Rightarrow> u8" where
  "xor_list bs = foldr (XOR) bs 0"

lemma xor_list_simps [simp]: "xor_list [] = 0" "xor_list (b # bs) = b XOR xor_list bs"
  "xor_list (as @ bs) = xor_list as XOR xor_list bs"
  by (induction as) (simp_all add: xor_list_def ac_simps)

lemma fold_xor_acc: "fold (\<lambda>b sum. sum XOR b) bs (s :: u8) = s XOR xor_list bs"
  by (induction bs arbitrary: s) (simp_all add: ac_simps)

lemma veda_checksum_xor_list:
  "n \<le> length data \<Longrightarrow> veda_checksum data n = xor_list (take n data)"
  by (simp add: veda_checksum_def fold_index_take [where f = "\<lambda>b sum. sum XOR b"] fold_xor_acc)

lemma veda_checksum_full: "length data = n \<Longrightarrow> veda_checksum data n = xor_list data"
  by (simp add: veda_checksum_xor_list)

lemma xor_list_update:
  "i < length bs \<Longrightarrow> xor_list (bs[i := b]) = xor_list bs XOR bs ! i XOR b"
proof (induction bs arbitrary: i)
  case (Cons c cs)
  then show ?case
    by (cases i) (simp_all add: xor_cancel_left xor.assoc xor.left_commute xor.commute)
qed simp

lemma xor_list_update_neq:
  assumes "i < length bs" "b \<noteq> bs ! i"
  shows "xor_list (bs[i := b]) \<noteq> xor_list bs"
proof
  assume "xor_list (bs[i := b]) = xor_list bs"
  then have "xor_list bs XOR (bs ! i XOR b) = xor_list bs"
    by (simp add: xor_list_update [OF assms(1)] xor.assoc)
  then have "bs ! i XOR b = 0"
    by (metis xor_cancel_left xor_self_eq)
  then have "bs ! i = b"
    by (metis xor_cancel_left xor.right_neutral)
  with assms show False by simp
qed

end
