(* ===== verification/Rtos_Queue.thy ===== *)
theory Rtos_Queue
  imports Veda_Prelude
begin

text \<open>The message queues every task and interrupt of the firmware communicates through: the ring
  buffer of FreeRTOS (Middlewares/Third_Party/FreeRTOS/Source/queue.c) under the CMSIS-RTOS2 calls
  of CMSIS_RTOS_V2/cmsis_os2.c, at the granularity of whole messages (a pointer into the storage is
  the index of a message slot; a slot never written is \<open>None\<close>). The locale \<open>bounded_queue\<close> states
  the contract the firmware relies on, a FIFO that refuses a message when full; the ring buffer is
  proved to provide it. The blocking part of a receive is modelled where a task blocks.\<close>

subsection \<open>The FreeRTOS ring buffer\<close>

record 'a Queue_t =
  pcStorage :: "'a option list"
  uxLength :: nat
  uxMessagesWaiting :: nat
  pcWriteTo :: nat
  pcReadFrom :: nat

datatype osStatus_t = osOK | osErrorTimeout | osErrorResource | osErrorParameter

definition xQueueGenericReset :: "'a Queue_t \<Rightarrow> 'a Queue_t" where
  "xQueueGenericReset q =
     q\<lparr> uxMessagesWaiting := 0, pcWriteTo := 0, pcReadFrom := uxLength q - 1 \<rparr>"

definition prvInitialiseNewQueue :: "nat \<Rightarrow> 'a Queue_t" where
  "prvInitialiseNewQueue n = xQueueGenericReset
     \<lparr> pcStorage = replicate n None, uxLength = n, uxMessagesWaiting = 0,
       pcWriteTo = 0, pcReadFrom = 0 \<rparr>"

definition prvCopyDataToQueue :: "'a \<Rightarrow> 'a Queue_t \<Rightarrow> 'a Queue_t" where
  "prvCopyDataToQueue x q =
     (let stored = (pcStorage q)[pcWriteTo q := Some x];
          next = pcWriteTo q + 1;
          next = (if next \<ge> uxLength q then 0 else next)
      in q\<lparr> pcStorage := stored, pcWriteTo := next,
            uxMessagesWaiting := uxMessagesWaiting q + 1 \<rparr>)"

definition prvCopyDataFromQueue :: "'a Queue_t \<Rightarrow> 'a option \<times> 'a Queue_t" where
  "prvCopyDataFromQueue q =
     (let next = pcReadFrom q + 1;
          next = (if next \<ge> uxLength q then 0 else next)
      in (pcStorage q ! next, q\<lparr> pcReadFrom := next \<rparr>))"

text \<open>Sending to the back without waiting, from a task or from an interrupt: both have the same
  effect on the queue. Waking the task that waits is the scheduler's part.\<close>

definition xQueueGenericSend :: "'a \<Rightarrow> 'a Queue_t \<Rightarrow> bool \<times> 'a Queue_t" where
  "xQueueGenericSend x q =
     (if uxMessagesWaiting q < uxLength q then (True, prvCopyDataToQueue x q) else (False, q))"

definition xQueueGenericSendFromISR :: "'a \<Rightarrow> 'a Queue_t \<Rightarrow> bool \<times> 'a Queue_t" where
  "xQueueGenericSendFromISR x q =
     (if uxMessagesWaiting q < uxLength q then (True, prvCopyDataToQueue x q) else (False, q))"

definition xQueueReceive :: "'a Queue_t \<Rightarrow> 'a option \<times> 'a Queue_t" where
  "xQueueReceive q =
     (if uxMessagesWaiting q > 0
      then let (x, q') = prvCopyDataFromQueue q
           in (x, q'\<lparr> uxMessagesWaiting := uxMessagesWaiting q - 1 \<rparr>)
      else (None, q))"

subsection \<open>The CMSIS-RTOS2 calls\<close>

text \<open>Creation fails when called from an interrupt, for an empty queue, or when the heap cannot
  serve it; the last is a parameter.\<close>

definition osMessageQueueNew :: "bool \<Rightarrow> bool \<Rightarrow> nat \<Rightarrow> nat \<Rightarrow> 'a Queue_t option" where
  "osMessageQueueNew is_irq heap_ok msg_count msg_size =
     (if \<not> is_irq \<and> msg_count > 0 \<and> msg_size > 0 \<and> heap_ok
      then Some (prvInitialiseNewQueue msg_count) else None)"

definition osMessageQueuePut :: "'a \<Rightarrow> 'a Queue_t \<Rightarrow> osStatus_t \<times> 'a Queue_t" where
  "osMessageQueuePut x q =
     (let (ok, q') = xQueueGenericSend x q in (if ok then osOK else osErrorResource, q'))"

definition osMessageQueuePut_ISR :: "'a \<Rightarrow> 'a Queue_t \<Rightarrow> osStatus_t \<times> 'a Queue_t" where
  "osMessageQueuePut_ISR x q =
     (let (ok, q') = xQueueGenericSendFromISR x q in (if ok then osOK else osErrorResource, q'))"

text \<open>One attempt at a receive: the message, or nothing when the queue is empty.\<close>

definition osMessageQueueGet :: "'a Queue_t \<Rightarrow> 'a option \<times> 'a Queue_t" where
  "osMessageQueueGet q = xQueueReceive q"

subsection \<open>Representation invariant and abstraction\<close>

definition q_slot :: "'a Queue_t \<Rightarrow> nat \<Rightarrow> nat" where
  "q_slot q i = (pcReadFrom q + 1 + i) mod uxLength q"

definition wf_queue :: "'a Queue_t \<Rightarrow> bool" where
  "wf_queue q \<longleftrightarrow> 0 < uxLength q \<and> length (pcStorage q) = uxLength q
     \<and> uxMessagesWaiting q \<le> uxLength q \<and> pcWriteTo q < uxLength q \<and> pcReadFrom q < uxLength q
     \<and> pcWriteTo q = q_slot q (uxMessagesWaiting q)
     \<and> (\<forall>i<uxMessagesWaiting q. pcStorage q ! q_slot q i \<noteq> None)"

definition q_items :: "'a Queue_t \<Rightarrow> 'a list" where
  "q_items q = map (\<lambda>i. the (pcStorage q ! q_slot q i)) [0..<uxMessagesWaiting q]"

lemma length_q_items [simp]: "length (q_items q) = uxMessagesWaiting q"
  by (simp add: q_items_def)

lemma q_slot_less [simp]: "0 < uxLength q \<Longrightarrow> q_slot q i < uxLength q"
  by (simp add: q_slot_def)

lemma q_slot_inj:
  assumes "i < uxLength q" "j < uxLength q" "q_slot q i = q_slot q j"
  shows "i = j"
proof -
  have "(pcReadFrom q + 1 + i) mod uxLength q = (pcReadFrom q + 1 + j) mod uxLength q"
    using assms(3) by (simp add: q_slot_def)
  then have "i mod uxLength q = j mod uxLength q"
    by (simp add: nat_mod_eq_iff)
  with assms show ?thesis by simp
qed

lemma mod_Suc_if: "k < n \<Longrightarrow> (if Suc k \<ge> n then 0 else Suc k) = Suc k mod n"
  by (metis Suc_leI le_antisym mod_less mod_self not_le)

lemma wf_prvInitialiseNewQueue [simp]: "0 < n \<Longrightarrow> wf_queue (prvInitialiseNewQueue n)"
  by (simp add: wf_queue_def prvInitialiseNewQueue_def xQueueGenericReset_def q_slot_def)

lemma q_items_prvInitialiseNewQueue [simp]:
  "q_items (prvInitialiseNewQueue n) = []" "uxLength (prvInitialiseNewQueue n) = n"
  by (simp_all add: q_items_def prvInitialiseNewQueue_def xQueueGenericReset_def)

lemma prvCopyDataToQueue_sim:
  assumes wf: "wf_queue q" and room: "uxMessagesWaiting q < uxLength q"
  shows "wf_queue (prvCopyDataToQueue x q)"
    and "q_items (prvCopyDataToQueue x q) = q_items q @ [x]"
proof -
  let ?q = "prvCopyDataToQueue x q"
  have w: "pcWriteTo q = q_slot q (uxMessagesWaiting q)" "pcWriteTo q < uxLength q"
    using wf by (simp_all add: wf_queue_def)
  have slot: "q_slot ?q i = q_slot q i" for i
    by (simp add: q_slot_def prvCopyDataToQueue_def Let_def)
  have next_w: "pcWriteTo ?q = q_slot q (Suc (uxMessagesWaiting q))"
  proof -
    have "pcWriteTo ?q = Suc (pcWriteTo q) mod uxLength q"
      using mod_Suc_if [OF w(2)] by (simp add: prvCopyDataToQueue_def Let_def)
    then show ?thesis by (simp add: w(1) q_slot_def mod_Suc_eq)
  qed
  have old: "pcStorage ?q ! q_slot q i = pcStorage q ! q_slot q i" if "i < uxMessagesWaiting q" for i
  proof -
    have "q_slot q i \<noteq> pcWriteTo q"
      using q_slot_inj [of i q "uxMessagesWaiting q"] that room w by auto
    then show ?thesis by (simp add: prvCopyDataToQueue_def Let_def)
  qed
  have new: "pcStorage ?q ! q_slot q (uxMessagesWaiting q) = Some x"
    using w wf by (simp add: prvCopyDataToQueue_def Let_def wf_queue_def flip: w(1))
  have n: "uxMessagesWaiting ?q = Suc (uxMessagesWaiting q)" "uxLength ?q = uxLength q"
    "pcReadFrom ?q = pcReadFrom q" "length (pcStorage ?q) = length (pcStorage q)"
    by (simp_all add: prvCopyDataToQueue_def Let_def)
  show "wf_queue ?q"
    using wf room next_w old new n
    by (auto simp: wf_queue_def slot less_Suc_eq)
  show "q_items ?q = q_items q @ [x]"
    using old new n by (simp add: q_items_def slot)
qed

lemma xQueueReceive_sim:
  assumes wf: "wf_queue q" and some: "0 < uxMessagesWaiting q"
  shows "fst (xQueueReceive q) = Some (hd (q_items q))"
    and "wf_queue (snd (xQueueReceive q))"
    and "q_items (snd (xQueueReceive q)) = tl (q_items q)"
proof -
  let ?q = "snd (xQueueReceive q)"
  have r: "pcReadFrom q < uxLength q" using wf by (simp add: wf_queue_def)
  have nxt: "(if Suc (pcReadFrom q) \<ge> uxLength q then 0 else Suc (pcReadFrom q)) = q_slot q 0"
    using mod_Suc_if [OF r] by (simp add: q_slot_def)
  have f: "pcReadFrom ?q = q_slot q 0" "uxLength ?q = uxLength q"
    "uxMessagesWaiting ?q = uxMessagesWaiting q - 1" "pcStorage ?q = pcStorage q"
    "pcWriteTo ?q = pcWriteTo q" "fst (xQueueReceive q) = pcStorage q ! q_slot q 0"
    using some nxt by (simp_all add: xQueueReceive_def prvCopyDataFromQueue_def Let_def)
  have slot: "q_slot ?q i = q_slot q (Suc i)" for i
    using mod_add_left_eq [of "Suc (pcReadFrom q)" "uxLength q" "Suc i"]
    by (simp add: q_slot_def [of ?q] f) (simp add: q_slot_def)
  have nth: "q_items q = map (\<lambda>i. the (pcStorage q ! q_slot q i)) (0 # [1..<uxMessagesWaiting q])"
    using some by (simp add: q_items_def upt_conv_Cons)
  show "fst (xQueueReceive q) = Some (hd (q_items q))"
    using wf some by (auto simp: f nth wf_queue_def)
  show "wf_queue ?q"
    using wf some by (auto simp: wf_queue_def slot f)
  have "q_items ?q = map (\<lambda>i. the (pcStorage q ! q_slot q i)) (map Suc [0..<uxMessagesWaiting q - 1])"
    by (simp add: q_items_def slot f comp_def)
  also have "map Suc [0..<uxMessagesWaiting q - 1] = [1..<uxMessagesWaiting q]"
    using some by (simp add: map_Suc_upt)
  finally show "q_items ?q = tl (q_items q)" by (simp add: nth)
qed

subsection \<open>The contract of a bounded queue\<close>

text \<open>What the tasks and interrupts of the firmware rely on, over any implementation: \<open>items\<close> reads
  the contents, oldest first.\<close>

locale bounded_queue =
  fixes put :: "'a \<Rightarrow> 'q \<Rightarrow> bool \<times> 'q"
    and get :: "'q \<Rightarrow> 'a option \<times> 'q"
    and items :: "'q \<Rightarrow> 'a list"
    and cap :: "'q \<Rightarrow> nat"
    and ok :: "'q \<Rightarrow> bool"
  assumes put_ok: "ok q \<Longrightarrow> ok (snd (put x q))"
    and put_cap: "cap (snd (put x q)) = cap q"
    and put_result: "ok q \<Longrightarrow> fst (put x q) \<longleftrightarrow> length (items q) < cap q"
    and put_items: "ok q \<Longrightarrow> items (snd (put x q)) =
          (if length (items q) < cap q then items q @ [x] else items q)"
    and get_ok: "ok q \<Longrightarrow> ok (snd (get q))"
    and get_cap: "cap (snd (get q)) = cap q"
    and get_result: "ok q \<Longrightarrow> fst (get q) = (case items q of [] \<Rightarrow> None | x # xs \<Rightarrow> Some x)"
    and get_items: "ok q \<Longrightarrow> items (snd (get q)) = tl (items q)"
    and bounded: "ok q \<Longrightarrow> length (items q) \<le> cap q"
begin

definition put_all :: "'a list \<Rightarrow> 'q \<Rightarrow> 'q" where
  "put_all xs q = fold (\<lambda>x q. snd (put x q)) xs q"

lemma put_all_ok: "ok q \<Longrightarrow> ok (put_all xs q)"
  by (induction xs arbitrary: q) (simp_all add: put_all_def put_ok)

lemma put_all_cap: "cap (put_all xs q) = cap q"
  by (induction xs arbitrary: q) (simp_all add: put_all_def put_cap)

text \<open>Overload drops the newest messages: what was accepted first is kept, in order.\<close>

lemma put_all_items:
  "ok q \<Longrightarrow> items (put_all xs q) = items q @ take (cap q - length (items q)) xs"
proof (induction xs arbitrary: q)
  case (Cons x xs)
  have "items (put_all (x # xs) q) = items (put_all xs (snd (put x q)))"
    by (simp add: put_all_def)
  also have "\<dots> = items (snd (put x q))
      @ take (cap q - length (items (snd (put x q)))) xs"
    using Cons by (simp add: put_ok put_cap)
  finally show ?case
    using Cons.prems bounded [OF Cons.prems] by (auto simp: put_items take_Cons')
qed (simp add: put_all_def)

lemma get_none: "ok q \<Longrightarrow> fst (get q) = None \<longleftrightarrow> items q = []"
  by (simp add: get_result split: list.split)

lemma get_some: "ok q \<Longrightarrow> fst (get q) = Some x \<longleftrightarrow> (\<exists>xs. items q = x # xs)"
  by (auto simp: get_result split: list.split)

lemma get_some_items: "ok q \<Longrightarrow> fst (get q) = Some x \<Longrightarrow> items q = x # items (snd (get q))"
  by (auto simp: get_some get_items)

end

text \<open>The FreeRTOS ring buffer, through the CMSIS calls of a task and of an interrupt.\<close>

definition rtos_put :: "'a \<Rightarrow> 'a Queue_t \<Rightarrow> bool \<times> 'a Queue_t" where
  "rtos_put x q = (let (st, q') = osMessageQueuePut x q in (st = osOK, q'))"

lemma osMessageQueuePut_ISR_eq: "osMessageQueuePut_ISR x q = osMessageQueuePut x q"
  by (simp add: osMessageQueuePut_ISR_def osMessageQueuePut_def xQueueGenericSend_def
      xQueueGenericSendFromISR_def)

lemma uxLength_prvCopyDataToQueue [simp]: "uxLength (prvCopyDataToQueue x q) = uxLength q"
  by (simp add: prvCopyDataToQueue_def Let_def)

lemma uxLength_xQueueReceive [simp]: "uxLength (snd (xQueueReceive q)) = uxLength q"
  by (simp add: xQueueReceive_def prvCopyDataFromQueue_def Let_def)

lemma xQueueReceive_empty [simp]: "uxMessagesWaiting q = 0 \<Longrightarrow> xQueueReceive q = (None, q)"
  by (simp add: xQueueReceive_def)

interpretation ring: bounded_queue rtos_put osMessageQueueGet q_items uxLength wf_queue
proof
  fix x :: 'a and q :: "'a Queue_t"
  show "uxLength (snd (rtos_put x q)) = uxLength q"
    by (simp add: rtos_put_def osMessageQueuePut_def xQueueGenericSend_def)
  show "uxLength (snd (osMessageQueueGet q)) = uxLength q"
    by (simp add: osMessageQueueGet_def)
  assume wf: "wf_queue q"
  show "wf_queue (snd (rtos_put x q))"
    using wf prvCopyDataToQueue_sim(1) [OF wf]
    by (simp add: rtos_put_def osMessageQueuePut_def xQueueGenericSend_def)
  show "fst (rtos_put x q) \<longleftrightarrow> length (q_items q) < uxLength q"
    by (simp add: rtos_put_def osMessageQueuePut_def xQueueGenericSend_def)
  show "q_items (snd (rtos_put x q)) = (if length (q_items q) < uxLength q then q_items q @ [x] else q_items q)"
    using prvCopyDataToQueue_sim(2) [OF wf]
    by (simp add: rtos_put_def osMessageQueuePut_def xQueueGenericSend_def)
  show "wf_queue (snd (osMessageQueueGet q))"
    using wf xQueueReceive_sim(2) [OF wf]
    by (cases "uxMessagesWaiting q") (simp_all add: osMessageQueueGet_def)
  show "fst (osMessageQueueGet q) = (case q_items q of [] \<Rightarrow> None | x # xs \<Rightarrow> Some x)"
    using xQueueReceive_sim(1) [OF wf] length_q_items [of q]
    by (cases "q_items q") (simp_all add: osMessageQueueGet_def flip: length_q_items)
  show "q_items (snd (osMessageQueueGet q)) = tl (q_items q)"
    using xQueueReceive_sim(3) [OF wf]
    by (cases "q_items q") (simp_all add: osMessageQueueGet_def flip: length_q_items)
  show "length (q_items q) \<le> uxLength q"
    using wf by (simp add: wf_queue_def)
qed

lemma osMessageQueuePut_cases:
  assumes "wf_queue q"
  shows "fst (osMessageQueuePut x q) = (if length (q_items q) < uxLength q then osOK else osErrorResource)"
    and "snd (osMessageQueuePut x q) = snd (rtos_put x q)"
  by (simp_all add: rtos_put_def osMessageQueuePut_def xQueueGenericSend_def)

subsection \<open>Any course of sends and receives\<close>

text \<open>A run of operations threads the state and collects the answers; two machines whose single steps
  agree along a relation agree on every run.\<close>

fun run_ops :: "('o \<Rightarrow> 's \<Rightarrow> 'r \<times> 's) \<Rightarrow> 'o list \<Rightarrow> 's \<Rightarrow> 'r list \<times> 's" where
  "run_ops f [] s = ([], s)"
| "run_ops f (x # xs) s = (let (r, s') = f x s; (rs, s'') = run_ops f xs s' in (r # rs, s''))"

lemma run_ops_sim:
  assumes "\<And>x s t. R s t \<Longrightarrow> fst (f x s) = fst (g x t) \<and> R (snd (f x s)) (snd (g x t))" and "R s t"
  shows "fst (run_ops f xs s) = fst (run_ops g xs t) \<and> R (snd (run_ops f xs s)) (snd (run_ops g xs t))"
  using assms(2) by (induction xs arbitrary: s t) (use assms(1) in \<open>fastforce simp: split_def Let_def\<close>)+

text \<open>The operations on a message queue, and the queue they are meant to be: a list of at most \<open>n\<close>
  messages, oldest first.\<close>

datatype 'a queue_op = Send 'a | SendFromISR 'a | Receive

datatype 'a queue_answer = Sent osStatus_t | Received "'a option"

fun rtos_op :: "'a queue_op \<Rightarrow> 'a Queue_t \<Rightarrow> 'a queue_answer \<times> 'a Queue_t" where
  "rtos_op (Send x) q = (let (st, q') = osMessageQueuePut x q in (Sent st, q'))"
| "rtos_op (SendFromISR x) q = (let (st, q') = osMessageQueuePut_ISR x q in (Sent st, q'))"
| "rtos_op Receive q = (let (m, q') = osMessageQueueGet q in (Received m, q'))"

fun fifo_op :: "nat \<Rightarrow> 'a queue_op \<Rightarrow> 'a list \<Rightarrow> 'a queue_answer \<times> 'a list" where
  "fifo_op n (Send x) xs = (if length xs < n then (Sent osOK, xs @ [x]) else (Sent osErrorResource, xs))"
| "fifo_op n (SendFromISR x) xs = (if length xs < n then (Sent osOK, xs @ [x]) else (Sent osErrorResource, xs))"
| "fifo_op n Receive [] = (Received None, [])"
| "fifo_op n Receive (x # xs) = (Received (Some x), xs)"

lemma rtos_put_op_sim:
  fixes x :: 'a
  assumes "wf_queue q"
  defines "r \<equiv> (let (st, q') = osMessageQueuePut x q in (Sent st, q'))"
  shows "wf_queue (snd r)" "uxLength (snd r) = uxLength q" "fst r = fst (fifo_op (uxLength q) (Send x) (q_items q))"
    and "q_items (snd r) = snd (fifo_op (uxLength q) (Send x) (q_items q))"
proof -
  have r: "fst r = Sent (fst (osMessageQueuePut x q))" "snd r = snd (rtos_put x q)"
    using osMessageQueuePut_cases(2) [OF assms(1)] by (simp_all add: r_def split_def)
  show "wf_queue (snd r)" "uxLength (snd r) = uxLength q"
    using ring.put_ok [OF assms(1)] ring.put_cap by (simp_all only: r)
  show "fst r = fst (fifo_op (uxLength q) (Send x) (q_items q))"
    by (simp add: r osMessageQueuePut_cases(1) [OF assms(1)] del: length_q_items)
  show "q_items (snd r) = snd (fifo_op (uxLength q) (Send x) (q_items q))"
    using ring.put_items [OF assms(1)] by (simp add: r del: length_q_items)
qed

lemma rtos_get_op_sim:
  assumes "wf_queue q"
  shows "wf_queue (snd (rtos_op Receive q))" "uxLength (snd (rtos_op Receive q)) = uxLength q"
    and "fst (rtos_op Receive q) = fst (fifo_op n Receive (q_items q))"
    and "q_items (snd (rtos_op Receive q)) = snd (fifo_op n Receive (q_items q))"
  using ring.get_ok [OF assms] ring.get_cap [of q] ring.get_result [OF assms] ring.get_items [OF assms]
  by (simp_all add: split_def) (cases "q_items q"; simp)+

lemma rtos_op_sim:
  assumes "wf_queue q"
  shows "wf_queue (snd (rtos_op p q)) \<and> uxLength (snd (rtos_op p q)) = uxLength q
     \<and> fst (rtos_op p q) = fst (fifo_op (uxLength q) p (q_items q))
     \<and> q_items (snd (rtos_op p q)) = snd (fifo_op (uxLength q) p (q_items q))"
  using rtos_put_op_sim [OF assms] rtos_get_op_sim [OF assms]
  by (cases p) (simp_all only: rtos_op.simps fifo_op.simps osMessageQueuePut_ISR_eq simp_thms)

lemma rtos_run_sim:
  assumes "wf_queue q"
  shows "fst (run_ops rtos_op ps q) = fst (run_ops (fifo_op (uxLength q)) ps (q_items q))"
    and "q_items (snd (run_ops rtos_op ps q)) = snd (run_ops (fifo_op (uxLength q)) ps (q_items q))"
    and "length (q_items (snd (run_ops rtos_op ps q))) \<le> uxLength q"
proof -
  define R where "R q' xs \<longleftrightarrow> wf_queue q' \<and> uxLength q' = uxLength q \<and> xs = q_items q'" for q' and xs :: "'a list"
  have "R q' xs \<Longrightarrow> fst (rtos_op p q') = fst (fifo_op (uxLength q) p xs)
      \<and> R (snd (rtos_op p q')) (snd (fifo_op (uxLength q) p xs))" for p q' xs
    using rtos_op_sim [of q' p] by (simp add: R_def)
  then have "fst (run_ops rtos_op ps q) = fst (run_ops (fifo_op (uxLength q)) ps (q_items q))
      \<and> R (snd (run_ops rtos_op ps q)) (snd (run_ops (fifo_op (uxLength q)) ps (q_items q)))"
    using assms by (intro run_ops_sim) (auto simp: R_def)
  then show "fst (run_ops rtos_op ps q) = fst (run_ops (fifo_op (uxLength q)) ps (q_items q))"
    "q_items (snd (run_ops rtos_op ps q)) = snd (run_ops (fifo_op (uxLength q)) ps (q_items q))"
    "length (q_items (snd (run_ops rtos_op ps q))) \<le> uxLength q"
    using ring.bounded [of "snd (run_ops rtos_op ps q)"] by (simp_all add: R_def)
qed

end
