(* ===== verification/Board.thy ===== *)
theory Board
  imports Veda_Prelude
begin

text \<open>The part of the STM32F401 the firmware configures at boot, shared by the master and the slaves:
  GPIO pins (mode and output level), the clock tree, the UARTs and the interrupt priorities. A board
  starts from its reset values; every HAL configuration call is a function on it. A failing HAL call
  ends in Error_Handler, which never returns: booting is a computation in the sum type
  \<open>boot_error + 'a\<close>.\<close>

datatype uart = USART1 | USART2 | USART6

datatype gpio_port = GPIOA | GPIOB | GPIOC

text \<open>Reset state (input), push-pull output, alternate function, interrupt on falling edge.\<close>

datatype pin_mode = Mode_Input | Mode_Output_PP | Mode_AF_PP nat | Mode_IT_Falling

datatype pll_source = PLLSOURCE_HSI | PLLSOURCE_HSE

record osc_init =
  pll_source :: pll_source
  pllm :: nat
  plln :: nat
  pllp :: nat
  pllq :: nat

record clk_init =
  ahb_div :: nat
  apb1_div :: nat
  apb2_div :: nat
  flash_latency :: nat

record uart_init =
  baud_rate :: nat
  word_length :: nat
  stop_bits :: nat
  parity_none :: bool
  tx_rx :: bool
  hw_flow :: bool
  oversampling :: nat

record board =
  pin_mode_of :: "gpio_port \<times> nat \<Rightarrow> pin_mode"
  pin_level :: "gpio_port \<times> nat \<Rightarrow> bool"
  osc :: "osc_init option"
  clk :: "clk_init option"
  uart_cfg :: "uart \<Rightarrow> uart_init option"
  irq_prio :: "uart \<Rightarrow> nat option"

definition board_reset :: board where
  "board_reset = \<lparr> pin_mode_of = (\<lambda>_. Mode_Input), pin_level = (\<lambda>_. False), osc = None, clk = None,
     uart_cfg = (\<lambda>_. None), irq_prio = (\<lambda>_. None) \<rparr>"

subsection \<open>HAL calls\<close>

definition HAL_GPIO_WritePin :: "gpio_port \<Rightarrow> nat list \<Rightarrow> bool \<Rightarrow> board \<Rightarrow> board" where
  "HAL_GPIO_WritePin port pins v b =
     b\<lparr> pin_level := (\<lambda>p. if fst p = port \<and> snd p \<in> set pins then v else pin_level b p) \<rparr>"

definition HAL_GPIO_Init :: "gpio_port \<Rightarrow> nat list \<Rightarrow> pin_mode \<Rightarrow> board \<Rightarrow> board" where
  "HAL_GPIO_Init port pins m b =
     b\<lparr> pin_mode_of := (\<lambda>p. if fst p = port \<and> snd p \<in> set pins then m else pin_mode_of b p) \<rparr>"

definition HAL_NVIC_Enable :: "uart \<Rightarrow> nat \<Rightarrow> board \<Rightarrow> board" where
  "HAL_NVIC_Enable u prio b = b\<lparr> irq_prio := (irq_prio b)(u := Some prio) \<rparr>"

text \<open>A pin drives a level outside only as an output.\<close>

definition drives :: "board \<Rightarrow> gpio_port \<times> nat \<Rightarrow> bool option" where
  "drives b p = (if pin_mode_of b p = Mode_Output_PP then Some (pin_level b p) else None)"

subsection \<open>Boot failures\<close>

datatype boot_error = Err_Osc | Err_Clock | Err_Uart uart | Err_Mutex | Err_Queues | Err_Threads

definition bind_boot :: "boot_error + 'a \<Rightarrow> ('a \<Rightarrow> boot_error + 'b) \<Rightarrow> boot_error + 'b" where
  "bind_boot r k = (case r of Inl e \<Rightarrow> Inl e | Inr x \<Rightarrow> k x)"

lemma bind_boot_simps [simp]: "bind_boot (Inl e) k = Inl e" "bind_boot (Inr x) k = k x"
  by (simp_all add: bind_boot_def)

text \<open>Error_Handler disables the interrupts and loops: the boot ends there.\<close>

definition Error_Handler :: "boot_error \<Rightarrow> boot_error + 'a" where
  "Error_Handler e = Inl e"

definition require :: "bool \<Rightarrow> boot_error \<Rightarrow> 'a \<Rightarrow> boot_error + 'a" where
  "require ok e x = (if ok then Inr x else Error_Handler e)"

lemma require_simps [simp]: "require True e x = Inr x" "require False e x = Inl e"
  by (simp_all add: require_def Error_Handler_def)

lemma require_Inr_iff [simp]: "require ok e x = Inr y \<longleftrightarrow> ok \<and> x = y"
  by (simp add: require_def Error_Handler_def)

subsection \<open>The clock tree\<close>

definition HSI_VALUE :: nat where "HSI_VALUE = 16000000"

definition osc_config :: osc_init where
  "osc_config = \<lparr> pll_source = PLLSOURCE_HSI, pllm = 16, plln = 336, pllp = 4, pllq = 7 \<rparr>"

definition clk_config :: clk_init where
  "clk_config = \<lparr> ahb_div = 1, apb1_div = 2, apb2_div = 1, flash_latency = 2 \<rparr>"

definition SystemClock_Config :: "bool \<Rightarrow> bool \<Rightarrow> board \<Rightarrow> boot_error + board" where
  "SystemClock_Config osc_ok clk_ok b =
     bind_boot (require osc_ok Err_Osc (b\<lparr> osc := Some osc_config \<rparr>))
       (\<lambda>b. require clk_ok Err_Clock (b\<lparr> clk := Some clk_config \<rparr>))"

definition sysclk_hz :: "osc_init \<Rightarrow> nat" where
  "sysclk_hz c = HSI_VALUE div pllm c * plln c div pllp c"

definition hclk_hz :: "osc_init \<Rightarrow> clk_init \<Rightarrow> nat" where
  "hclk_hz oc c = sysclk_hz oc div ahb_div c"

definition pclk1_hz :: "osc_init \<Rightarrow> clk_init \<Rightarrow> nat" where
  "pclk1_hz oc c = hclk_hz oc c div apb1_div c"

definition pclk2_hz :: "osc_init \<Rightarrow> clk_init \<Rightarrow> nat" where
  "pclk2_hz oc c = hclk_hz oc c div apb2_div c"

lemma clock_tree: "sysclk_hz osc_config = 84000000" "hclk_hz osc_config clk_config = 84000000"
  "pclk1_hz osc_config clk_config = 42000000" "pclk2_hz osc_config clk_config = 84000000"
  by (simp_all add: sysclk_hz_def hclk_hz_def pclk1_hz_def pclk2_hz_def osc_config_def
      clk_config_def HSI_VALUE_def)

subsection \<open>The UARTs\<close>

definition uart_115200_8n1 :: uart_init where
  "uart_115200_8n1 = \<lparr> baud_rate = 115200, word_length = 8, stop_bits = 1, parity_none = True,
     tx_rx = True, hw_flow = False, oversampling = 16 \<rparr>"

definition HAL_UART_Init :: "bool \<Rightarrow> (uart \<Rightarrow> board \<Rightarrow> board) \<Rightarrow> uart \<Rightarrow> uart_init \<Rightarrow> board \<Rightarrow> boot_error + board" where
  "HAL_UART_Init ok msp u cfg b =
     require ok (Err_Uart u) ((msp u b)\<lparr> uart_cfg := (uart_cfg b)(u := Some cfg) \<rparr>)"

end
