(* ===== verification/Master_State.thy ===== *)
theory Master_State
  imports Protocol Rtos_Queue Board
begin

text \<open>Configuration, data types and global state of the master firmware
  (driver/Rs485_send_demo/Core: veda_config.h, veda_types.h, veda_stats.c and the static variables
  of the modules), together with its surroundings: the tick counter, the results the UART driver
  will report, the events that reach the processor while a task is blocked, and the log of what
  the firmware does to its pins and UARTs.\<close>

subsection \<open>veda_config.h\<close>

definition RS485_TX_TIMEOUT_MSEC :: u32 where "RS485_TX_TIMEOUT_MSEC = 100"
definition RS485_FRAME_BUFFER_SIZE :: nat where "RS485_FRAME_BUFFER_SIZE = 16"
definition RS485_ACK_TIMEOUT_MSEC :: u32 where "RS485_ACK_TIMEOUT_MSEC = 100"
definition RS485_ACK_LINE_BUFFER_SIZE :: u8 where "RS485_ACK_LINE_BUFFER_SIZE = 16"
definition ACK_QUEUE_DEPTH :: nat where "ACK_QUEUE_DEPTH = 8"
definition SCHED_TICK_MSEC :: u32 where "SCHED_TICK_MSEC = 20"
definition SCHED_REFRESH_MSEC :: u32 where "SCHED_REFRESH_MSEC = 2000"
definition SCHED_RETRY_BACKOFF_MSEC :: u32 where "SCHED_RETRY_BACKOFF_MSEC = 500"
definition SCHED_NO_CHANNEL :: u8 where "SCHED_NO_CHANNEL = 0xFF"
definition SCHED_RISK_UNKNOWN :: u8 where "SCHED_RISK_UNKNOWN = 0xFF"
definition CHANNEL_COUNT :: u8 where "CHANNEL_COUNT = 4"
definition CHANNELS_PER_SLAVE :: u8 where "CHANNELS_PER_SLAVE = 2"
definition RPI_CHANNEL_ID_BASE :: u8 where "RPI_CHANNEL_ID_BASE = 0"
definition UPLINK_TX_TIMEOUT_MSEC :: u32 where "UPLINK_TX_TIMEOUT_MSEC = 100"
definition HEARTBEAT_INTERVAL_MSEC :: u32 where "HEARTBEAT_INTERVAL_MSEC = 500"
definition DOWNLINK_RESYNC_MSEC :: u32 where "DOWNLINK_RESYNC_MSEC = 100"
definition RPI_RX_QUEUE_DEPTH :: nat where "RPI_RX_QUEUE_DEPTH = 128"
definition CMD_QUEUE_DEPTH :: nat where "CMD_QUEUE_DEPTH = 8"
definition UPLINK_QUEUE_DEPTH :: nat where "UPLINK_QUEUE_DEPTH = unat CHANNEL_COUNT * 2 + 4"
definition SUPERVISOR_LOG_INTERVAL_MSEC :: u32 where "SUPERVISOR_LOG_INTERVAL_MSEC = 5000"
definition SUPERVISOR_TICK_MSEC :: u32 where "SUPERVISOR_TICK_MSEC = 100"
definition LINK_IDLE_WARN_MSEC :: u32 where "LINK_IDLE_WARN_MSEC = 5000"
definition LD2_BLINK_ALIVE_MSEC :: u32 where "LD2_BLINK_ALIVE_MSEC = 500"
definition LD2_BLINK_IDLE_MSEC :: u32 where "LD2_BLINK_IDLE_MSEC = 2000"

lemmas master_config [simp] = RS485_TX_TIMEOUT_MSEC_def RS485_FRAME_BUFFER_SIZE_def
  RS485_ACK_TIMEOUT_MSEC_def RS485_ACK_LINE_BUFFER_SIZE_def ACK_QUEUE_DEPTH_def SCHED_TICK_MSEC_def
  SCHED_REFRESH_MSEC_def SCHED_RETRY_BACKOFF_MSEC_def SCHED_NO_CHANNEL_def SCHED_RISK_UNKNOWN_def
  CHANNEL_COUNT_def CHANNELS_PER_SLAVE_def RPI_CHANNEL_ID_BASE_def UPLINK_TX_TIMEOUT_MSEC_def
  HEARTBEAT_INTERVAL_MSEC_def DOWNLINK_RESYNC_MSEC_def RPI_RX_QUEUE_DEPTH_def CMD_QUEUE_DEPTH_def
  UPLINK_QUEUE_DEPTH_def SUPERVISOR_LOG_INTERVAL_MSEC_def SUPERVISOR_TICK_MSEC_def
  LINK_IDLE_WARN_MSEC_def LD2_BLINK_ALIVE_MSEC_def LD2_BLINK_IDLE_MSEC_def

subsection \<open>veda_types.h\<close>

record channel_status_t =
  cs_risk_level :: u8
  cs_siren_on :: u8
  cs_buzzer_on :: u8
  cs_led_red :: u8
  cs_led_yellow :: u8
  cs_led_green :: u8

record channel_ctrl_t =
  desired_risk :: u8
  applied_risk :: u8
  last_tx_tick :: u32
  retry :: u16
  desired_tick :: u32
  lat_pending :: u8
  lat_risk :: u8

record rs485_ack_t =
  ack_slave :: u8
  ack_channel :: u8
  ack_risk_level :: u8

datatype downlink_state_t = DL_WAIT_START | DL_READ_PAYLOAD | DL_READ_CHECKSUM | DL_WAIT_END

subsection \<open>veda_stats.c\<close>

record veda_stats =
  stat_rx_bytes_dropped :: u32
  stat_frames_ok :: u32
  stat_frames_bad :: u32
  stat_bad_channel :: u32
  stat_last_bad_channel :: u32
  stat_bad_risk :: u32
  stat_last_bad_risk :: u32
  stat_cmd_dropped :: u32
  stat_rs485_tx_fail :: u32
  stat_uplink_tx_fail :: u32
  stat_uplink_dropped :: u32
  stat_uplink_sent :: u32
  stat_ack_ok :: u32
  stat_ack_bad :: u32
  stat_ack_timeout :: u32
  stat_ack_mismatch :: u32
  stat_cmd_coalesced :: u32
  stat_sched_retry :: u32
  stat_lat_max :: u32
  stat_lat_danger_max :: u32
  stat_sched_ticks :: u32
  stat_sched_refresh :: u32

subsection \<open>Surroundings\<close>

datatype pin = RS485_DE_Pin | LD2_Pin

text \<open>What the firmware does to the outside: a pin written, toggled or made an output, reception of
  the next byte armed, bytes handed to a UART with the timeout given and the status the driver
  reported.\<close>

datatype effect =
    PinWrite pin bool
  | PinToggle pin
  | PinConfigOutput pin
  | RxArm uart
  | UartTx uart "u8 list" u32 hal_status

text \<open>What can happen to the master between two steps of a task: a byte or an error on one of the
  two receiving UARTs (an interrupt), or a turn of one of the other tasks.\<close>

datatype stimulus =
    RpiByte u8
  | RpiError
  | Rs485Byte u8
  | Rs485Error
  | RunRx
  | RunCtrl
  | RunTx
  | RunHeartbeat

subsection \<open>The state\<close>

text \<open>\<open>agenda\<close> holds what happens while the scheduler task is blocked, each event with the
  milliseconds since the one before; \<open>tx_results\<close> what the UART driver will answer to the coming
  transmissions and how long each takes (an exhausted list means success in no time).\<close>

record master =
  channel_status :: "channel_status_t list"
  channel_ctrl :: "channel_ctrl_t list"
  downlink_state :: downlink_state_t
  downlink_payload :: "u8 list"
  downlink_payload_index :: u8
  downlink_rx_checksum :: u8
  rpi_rx_queue :: "u8 Queue_t"
  cmd_queue :: "veda_risk_event_t Queue_t"
  uplink_queue :: "veda_uplink_packet_t Queue_t"
  ack_queue :: "rs485_ack_t Queue_t"
  ack_line :: "u8 list"
  ack_line_length :: u8
  ack_line_overflow :: u8
  sched_cursor :: u8
  ms_clock_last_tick :: u32
  ms_clock_wrap_count :: u32
  stats :: veda_stats
  last_downlink_tick :: u32
  now :: u32
  tx_results :: "(hal_status \<times> nat) list"
  agenda :: "(nat \<times> stimulus) list"
  out :: "effect list"

definition osKernelGetTickCount :: "master \<Rightarrow> u32" where
  "osKernelGetTickCount s = now s"

definition emit :: "effect \<Rightarrow> master \<Rightarrow> master" where
  "emit x s = s\<lparr> out := out s @ [x] \<rparr>"

definition pass_time :: "nat \<Rightarrow> master \<Rightarrow> master" where
  "pass_time n s = s\<lparr> now := now s + word_of_nat n \<rparr>"

text \<open>A blocking transmission: what is handed over, and the driver's answer. How long it takes matters to
  the scheduler task alone, whose time this model follows (\<open>send_channel_command\<close>); the polling of the
  other tasks overlaps with its waits.\<close>

definition tx_duration :: "master \<Rightarrow> nat" where
  "tx_duration s = (case tx_results s of [] \<Rightarrow> 0 | (st, d) # rest \<Rightarrow> d)"

definition HAL_UART_Transmit :: "uart \<Rightarrow> u8 list \<Rightarrow> u32 \<Rightarrow> master \<Rightarrow> hal_status \<times> master" where
  "HAL_UART_Transmit u bytes timeout s =
     (case tx_results s of
        [] \<Rightarrow> (HAL_OK, emit (UartTx u bytes timeout HAL_OK) s)
      | (st, d) # rest \<Rightarrow>
          (st, emit (UartTx u bytes timeout st) (s\<lparr> tx_results := rest \<rparr>)))"

definition upd_stats :: "(veda_stats \<Rightarrow> veda_stats) \<Rightarrow> master \<Rightarrow> master" where
  "upd_stats f s = s\<lparr> stats := f (stats s) \<rparr>"

definition ctrl :: "master \<Rightarrow> u8 \<Rightarrow> channel_ctrl_t" where
  "ctrl s ch = channel_ctrl s ! unat ch"

definition upd_ctrl :: "u8 \<Rightarrow> (channel_ctrl_t \<Rightarrow> channel_ctrl_t) \<Rightarrow> master \<Rightarrow> master" where
  "upd_ctrl ch f s =
     s\<lparr> channel_ctrl := (channel_ctrl s)[unat ch := f (channel_ctrl s ! unat ch)] \<rparr>"

text \<open>Counting changes nothing but the counters.\<close>

lemma emit_simps [simp]:
  "channel_status (emit x s) = channel_status s" "channel_ctrl (emit x s) = channel_ctrl s"
  "downlink_state (emit x s) = downlink_state s"
  "downlink_payload (emit x s) = downlink_payload s"
  "downlink_payload_index (emit x s) = downlink_payload_index s"
  "rpi_rx_queue (emit x s) = rpi_rx_queue s" "cmd_queue (emit x s) = cmd_queue s"
  "uplink_queue (emit x s) = uplink_queue s" "ack_queue (emit x s) = ack_queue s"
  "ack_line (emit x s) = ack_line s" "ack_line_length (emit x s) = ack_line_length s"
  "ack_line_overflow (emit x s) = ack_line_overflow s"
  "sched_cursor (emit x s) = sched_cursor s" "now (emit x s) = now s"
  "tx_results (emit x s) = tx_results s"
  "agenda (emit x s) = agenda s" "out (emit x s) = out s @ [x]"
  "stats (emit x s) = stats s"
  by (simp_all add: emit_def)

lemma upd_stats_frame [simp]:
  "channel_status (upd_stats f s) = channel_status s" "channel_ctrl (upd_stats f s) = channel_ctrl s"
  "downlink_state (upd_stats f s) = downlink_state s"
  "downlink_payload (upd_stats f s) = downlink_payload s"
  "downlink_payload_index (upd_stats f s) = downlink_payload_index s"
  "rpi_rx_queue (upd_stats f s) = rpi_rx_queue s" "cmd_queue (upd_stats f s) = cmd_queue s"
  "uplink_queue (upd_stats f s) = uplink_queue s" "ack_queue (upd_stats f s) = ack_queue s"
  "ack_line (upd_stats f s) = ack_line s" "ack_line_length (upd_stats f s) = ack_line_length s"
  "ack_line_overflow (upd_stats f s) = ack_line_overflow s"
  "sched_cursor (upd_stats f s) = sched_cursor s" "now (upd_stats f s) = now s"
  "tx_results (upd_stats f s) = tx_results s"
  "agenda (upd_stats f s) = agenda s" "out (upd_stats f s) = out s"
  "stats (upd_stats f s) = f (stats s)"
  by (simp_all add: upd_stats_def)

lemma upd_ctrl_frame [simp]:
  "channel_status (upd_ctrl ch g s) = channel_status s"
  "ack_queue (upd_ctrl ch g s) = ack_queue s" "uplink_queue (upd_ctrl ch g s) = uplink_queue s"
  "cmd_queue (upd_ctrl ch g s) = cmd_queue s" "rpi_rx_queue (upd_ctrl ch g s) = rpi_rx_queue s"
  "sched_cursor (upd_ctrl ch g s) = sched_cursor s" "now (upd_ctrl ch g s) = now s"
  "agenda (upd_ctrl ch g s) = agenda s" "out (upd_ctrl ch g s) = out s"
  "tx_results (upd_ctrl ch g s) = tx_results s"
  "ack_line (upd_ctrl ch g s) = ack_line s" "ack_line_length (upd_ctrl ch g s) = ack_line_length s"
  "ack_line_overflow (upd_ctrl ch g s) = ack_line_overflow s"
  "downlink_state (upd_ctrl ch g s) = downlink_state s"
  "downlink_payload (upd_ctrl ch g s) = downlink_payload s"
  "downlink_payload_index (upd_ctrl ch g s) = downlink_payload_index s"
  "stats (upd_ctrl ch g s) = stats s"
  "channel_ctrl (upd_ctrl ch g s) = (channel_ctrl s)[unat ch := g (channel_ctrl s ! unat ch)]"
  by (simp_all add: upd_ctrl_def)

end
