(* ===== verification/Master_Downlink.thy ===== *)
theory Master_Downlink
  imports Master_State
begin

text \<open>veda_downlink.c: the parser that finds risk events in the byte stream from the Raspberry Pi.
  Its invariant keeps the payload index inside the buffer; the soundness lemma ties every accepted
  event to the frame that ends in the last byte read, the completeness lemma says that every correct
  frame read from the waiting state is accepted.\<close>

subsection \<open>The byte queue\<close>

definition veda_downlink_queue_create :: "bool \<Rightarrow> u8 Queue_t option" where
  "veda_downlink_queue_create heap_ok = osMessageQueueNew False heap_ok RPI_RX_QUEUE_DEPTH 1"

definition veda_downlink_queue_put_from_isr :: "u8 \<Rightarrow> master \<Rightarrow> u8 \<times> master" where
  "veda_downlink_queue_put_from_isr byte s =
     (let (st, q) = osMessageQueuePut_ISR byte (rpi_rx_queue s)
      in (of_flag (st = osOK), s\<lparr> rpi_rx_queue := q \<rparr>))"

text \<open>The outcome of a receive at the moment it returns: a byte, or none when the time is over.\<close>

definition veda_downlink_queue_get :: "master \<Rightarrow> u8 option \<times> master" where
  "veda_downlink_queue_get s =
     (let (r, q) = osMessageQueueGet (rpi_rx_queue s) in (r, s\<lparr> rpi_rx_queue := q \<rparr>))"

subsection \<open>The parser\<close>

definition count_frames_bad :: "master \<Rightarrow> master" where
  "count_frames_bad = upd_stats (\<lambda>t. t\<lparr> stat_frames_bad := stat_frames_bad t + 1 \<rparr>)"

definition downlink_feed_byte :: "u8 \<Rightarrow> master \<Rightarrow> veda_risk_event_t option \<times> master" where
  "downlink_feed_byte byte s =
     (case downlink_state s of
        DL_WAIT_START \<Rightarrow>
          (if byte = VEDA_START_BYTE
           then (None, s\<lparr> downlink_payload_index := 0, downlink_state := DL_READ_PAYLOAD \<rparr>)
           else (None, s))
      | DL_READ_PAYLOAD \<Rightarrow>
          (let s1 = s\<lparr> downlink_payload :=
                       (downlink_payload s)[unat (downlink_payload_index s) := byte] \<rparr>;
               s2 = s1\<lparr> downlink_payload_index := downlink_payload_index s1 + 1 \<rparr>
           in (None, if downlink_payload_index s2 = 24
                     then s2\<lparr> downlink_state := DL_READ_CHECKSUM \<rparr> else s2))
      | DL_READ_CHECKSUM \<Rightarrow>
          (None, s\<lparr> downlink_rx_checksum := byte, downlink_state := DL_WAIT_END \<rparr>)
      | DL_WAIT_END \<Rightarrow>
          (let s1 = s\<lparr> downlink_state := DL_WAIT_START \<rparr>
           in if byte = VEDA_END_BYTE \<and> veda_checksum (downlink_payload s1) 24 = downlink_rx_checksum s1
              then (Some (event_of_bytes (downlink_payload s1)), s1)
              else (None, count_frames_bad s1)))"

definition veda_downlink_resync :: "master \<Rightarrow> master" where
  "veda_downlink_resync s = count_frames_bad (s\<lparr> downlink_state := DL_WAIT_START \<rparr>)"

text \<open>A stream of bytes, and the events accepted on the way.\<close>

fun downlink_feed_all :: "u8 list \<Rightarrow> master \<Rightarrow> veda_risk_event_t list \<times> master" where
  "downlink_feed_all [] s = ([], s)"
| "downlink_feed_all (b # bs) s =
     (let (r, s1) = downlink_feed_byte b s; (es, s2) = downlink_feed_all bs s1
      in (case r of None \<Rightarrow> es | Some e \<Rightarrow> e # es, s2))"

subsection \<open>The buffer is never overrun\<close>

definition dl_wf :: "master \<Rightarrow> bool" where
  "dl_wf s \<longleftrightarrow> length (downlink_payload s) = 24
     \<and> (downlink_state s = DL_READ_PAYLOAD \<longrightarrow> downlink_payload_index s < 24)"

lemma u8_Suc_below_24: "(i :: u8) < 24 \<Longrightarrow> i + 1 \<noteq> 24 \<Longrightarrow> i + 1 < 24"
  by unat_arith

lemma dl_wf_feed [wf_intros]: "dl_wf s \<Longrightarrow> dl_wf (snd (downlink_feed_byte b s))"
  by (cases "downlink_state s")
    (auto simp: dl_wf_def downlink_feed_byte_def Let_def count_frames_bad_def upd_stats_def
      u8_Suc_below_24)

lemma dl_wf_resync [wf_intros]: "dl_wf s \<Longrightarrow> dl_wf (veda_downlink_resync s)"
  by (simp add: dl_wf_def veda_downlink_resync_def count_frames_bad_def upd_stats_def)

lemma feed_all_append:
  "downlink_feed_all (xs @ ys) s =
     (let (es, s1) = downlink_feed_all xs s; (fs, s2) = downlink_feed_all ys s1 in (es @ fs, s2))"
  by (induction xs arbitrary: s) (auto simp: Let_def split: prod.splits option.splits)

subsection \<open>Soundness: an accepted event is the frame just read\<close>

definition valid_frame :: "veda_risk_event_t \<Rightarrow> veda_downlink_frame_t" where
  "valid_frame e = \<lparr> dl_start_byte = VEDA_START_BYTE, dl_payload = e,
     dl_checksum = veda_downlink_checksum e, dl_end_byte = VEDA_END_BYTE \<rparr>"

text \<open>How the parser's state remembers the end of the stream read so far.\<close>

definition dl_remembers :: "master \<Rightarrow> u8 list \<Rightarrow> bool" where
  "dl_remembers s bs \<longleftrightarrow> dl_wf s \<and>
     (case downlink_state s of
        DL_WAIT_START \<Rightarrow> True
      | DL_READ_PAYLOAD \<Rightarrow> \<exists>pre p. bs = pre @ [VEDA_START_BYTE] @ p
           \<and> length p = unat (downlink_payload_index s) \<and> take (length p) (downlink_payload s) = p
      | DL_READ_CHECKSUM \<Rightarrow> \<exists>pre. bs = pre @ [VEDA_START_BYTE] @ downlink_payload s
      | DL_WAIT_END \<Rightarrow> \<exists>pre. bs = pre @ [VEDA_START_BYTE] @ downlink_payload s @ [downlink_rx_checksum s])"

lemma u8_add1_unat: "(i :: u8) < 24 \<Longrightarrow> unat (i + 1) = Suc (unat i)"
  by (simp add: word_less_nat_alt unat_word_ariths)

lemma u8_add1_24: "(i :: u8) < 24 \<Longrightarrow> i + 1 = 24 \<longleftrightarrow> unat i = 23"
  by (simp add: u8_add1_unat word_unat_eq_iff)

lemma take_Suc_update: "i < length xs \<Longrightarrow> take (Suc i) (xs[i := x]) = take i xs @ [x]"
  by (simp add: take_Suc_conv_app_nth)

lemma feed_remembers:
  assumes "dl_remembers s bs"
  shows "dl_remembers (snd (downlink_feed_byte b s)) (bs @ [b])"
proof (cases "downlink_state s")
  case DL_READ_PAYLOAD
  then obtain pre p where p: "bs = pre @ [VEDA_START_BYTE] @ p"
    "length p = unat (downlink_payload_index s)" "take (length p) (downlink_payload s) = p"
    "downlink_payload_index s < 24" "length (downlink_payload s) = 24"
    using assms by (auto simp: dl_remembers_def dl_wf_def)
  let ?i = "unat (downlink_payload_index s)"
  have i: "?i < 24" using p(4) by (simp add: word_less_nat_alt)
  have t: "take (Suc ?i) ((downlink_payload s)[?i := b]) = p @ [b]"
    using p i by (simp add: take_Suc_update)
  have wf: "dl_wf (snd (downlink_feed_byte b s))"
    using assms by (auto simp: dl_remembers_def intro: wf_intros)
  show ?thesis
  proof (cases "?i = 23")
    case True
    then have "(downlink_payload s)[?i := b] = p @ [b]" using t p by simp
    then show ?thesis
      using wf DL_READ_PAYLOAD p True u8_add1_24 [OF p(4)]
      by (auto simp: dl_remembers_def downlink_feed_byte_def Let_def)
  next
    case False
    have "\<exists>pre' p'. bs @ [b] = pre' @ [VEDA_START_BYTE] @ p'
        \<and> length p' = unat (downlink_payload_index s + 1)
        \<and> take (length p') ((downlink_payload s)[?i := b]) = p'"
      by (rule exI [of _ pre], rule exI [of _ "p @ [b]"])
        (use p(1,2) t u8_add1_unat [OF p(4)] in simp)
    then show ?thesis
      using wf DL_READ_PAYLOAD False u8_add1_24 [OF p(4)]
      by (simp add: dl_remembers_def downlink_feed_byte_def Let_def)
  qed
qed (use assms dl_wf_feed [of s b] in \<open>auto simp: dl_remembers_def downlink_feed_byte_def Let_def
      count_frames_bad_def upd_stats_def\<close>)

lemma feed_accept_frame:
  assumes "dl_remembers s bs" "fst (downlink_feed_byte b s) = Some e"
  shows "wf_event e \<and> (\<exists>pre. bs @ [b] = pre @ downlink_frame_bytes (valid_frame e))"
proof -
  have st: "downlink_state s = DL_WAIT_END" "b = VEDA_END_BYTE"
    "veda_checksum (downlink_payload s) 24 = downlink_rx_checksum s"
    "e = event_of_bytes (downlink_payload s)" "length (downlink_payload s) = 24"
    using assms by (auto simp: downlink_feed_byte_def Let_def dl_remembers_def dl_wf_def
        split: downlink_state_t.splits if_splits)
  then show ?thesis
    using assms(1)
    by (auto simp: dl_remembers_def downlink_frame_bytes_def valid_frame_def veda_downlink_checksum_def)
qed

lemma feed_all_remembers:
  "dl_remembers s bs \<Longrightarrow> dl_remembers (snd (downlink_feed_all xs s)) (bs @ xs)"
proof (induction xs arbitrary: s bs)
  case (Cons x xs)
  then show ?case
    using Cons.IH [OF feed_remembers [OF Cons.prems, of x]]
    by (simp add: Let_def case_prod_unfold)
qed simp

subsection \<open>Completeness: every correct frame is accepted\<close>

lemma feed_payload:
  assumes "downlink_state s = DL_READ_PAYLOAD" "length (downlink_payload s) = 24"
    "unat (downlink_payload_index s) + length bs = 24" "bs \<noteq> []"
  shows "downlink_feed_all bs s = ([], s\<lparr> downlink_state := DL_READ_CHECKSUM,
    downlink_payload_index := 24,
    downlink_payload := take (unat (downlink_payload_index s)) (downlink_payload s) @ bs \<rparr>)"
  using assms
proof (induction bs arbitrary: s)
  case (Cons b bs)
  let ?i = "unat (downlink_payload_index s)"
  have i: "downlink_payload_index s < 24" using Cons.prems by (simp add: word_less_nat_alt)
  show ?case
  proof (cases bs)
    case Nil
    then have "?i = 23" using Cons.prems by simp
    then show ?thesis
      using Cons.prems Nil u8_add1_24 [OF i] take_Suc_update [of 23 "downlink_payload s" b]
      by (simp add: downlink_feed_byte_def Let_def)
  next
    case (Cons c cs)
    let ?s = "s\<lparr> downlink_payload := (downlink_payload s)[?i := b],
        downlink_payload_index := downlink_payload_index s + 1 \<rparr>"
    have n: "?i < 23" using Cons.prems Cons by simp
    then have "downlink_feed_byte b s = (None, ?s)"
      using Cons.prems u8_add1_24 [OF i] by (simp add: downlink_feed_byte_def Let_def)
    moreover have "downlink_feed_all bs ?s = ([], ?s\<lparr> downlink_state := DL_READ_CHECKSUM,
        downlink_payload_index := 24,
        downlink_payload := take (Suc ?i) ((downlink_payload s)[?i := b]) @ bs \<rparr>)"
      using Cons.IH [of ?s] Cons.prems Cons u8_add1_unat [OF i] by simp
    ultimately show ?thesis
      using n Cons.prems by (simp add: take_Suc_update)
  qed
qed simp

lemma feed_valid_frame:
  assumes "downlink_state s = DL_WAIT_START" "length (downlink_payload s) = 24" "wf_event e"
  shows "downlink_feed_all (downlink_frame_bytes (valid_frame e)) s =
    ([e], s\<lparr> downlink_payload := event_bytes e, downlink_payload_index := 24,
            downlink_rx_checksum := veda_downlink_checksum e \<rparr>)"
proof -
  let ?s = "s\<lparr> downlink_payload_index := 0, downlink_state := DL_READ_PAYLOAD \<rparr>"
  have "downlink_feed_all (event_bytes e) ?s = ([], ?s\<lparr> downlink_state := DL_READ_CHECKSUM,
    downlink_payload_index := 24, downlink_payload := event_bytes e \<rparr>)"
    using feed_payload [of ?s "event_bytes e"] assms(2,3) length_event_bytes [OF assms(3)]
    by (cases "event_bytes e") simp_all
  then show ?thesis
    using assms
    by (simp add: downlink_frame_bytes_def valid_frame_def feed_all_append downlink_feed_byte_def
        veda_downlink_checksum_def)
qed

text \<open>A frame whose payload, checksum and end byte are arbitrary: what is accepted and what is
  counted.\<close>

lemma feed_any_frame:
  assumes "downlink_state s = DL_WAIT_START" "length (downlink_payload s) = 24" "length p = 24"
  shows "downlink_feed_all ([VEDA_START_BYTE] @ p @ [c, e]) s =
    (if e = VEDA_END_BYTE \<and> xor_list p = c then [event_of_bytes p] else [],
     (if e = VEDA_END_BYTE \<and> xor_list p = c then id else count_frames_bad)
       (s\<lparr> downlink_payload := p, downlink_payload_index := 24, downlink_rx_checksum := c \<rparr>))"
proof -
  let ?s = "s\<lparr> downlink_payload_index := 0, downlink_state := DL_READ_PAYLOAD \<rparr>"
  have "downlink_feed_all p ?s = ([], ?s\<lparr> downlink_state := DL_READ_CHECKSUM,
    downlink_payload_index := 24, downlink_payload := p \<rparr>)"
    using feed_payload [of ?s p] assms(2,3) by force
  then show ?thesis
    using assms by (simp add: feed_all_append downlink_feed_byte_def veda_checksum_full Let_def
        count_frames_bad_def upd_stats_def)
qed

lemma feed_garbage:
  assumes "downlink_state s = DL_WAIT_START" "VEDA_START_BYTE \<notin> set bs"
  shows "downlink_feed_all bs s = ([], s)"
  using assms by (induction bs) (auto simp: downlink_feed_byte_def)

end
