(* ===== verification/Master_Channel.thy ===== *)
theory Master_Channel
  imports Master_State
begin

text \<open>veda_channel.c of the master: what a channel shows for a risk level, and the state the
  channels start from. The lemmas give the invariant that what the master reports about a channel is
  what the confirmed risk level implies.\<close>

definition risk_to_status :: "u8 \<Rightarrow> channel_status_t" where
  "risk_to_status risk_level =
     (let out = (if risk_level = VEDA_RISK_DANGER then
                   \<lparr> cs_risk_level = risk_level, cs_siren_on = 1, cs_buzzer_on = 0,
                     cs_led_red = 1, cs_led_yellow = 0, cs_led_green = 0 \<rparr>
                 else if risk_level = VEDA_RISK_WARNING then
                   \<lparr> cs_risk_level = risk_level, cs_siren_on = 1, cs_buzzer_on = 0,
                     cs_led_red = 0, cs_led_yellow = 1, cs_led_green = 0 \<rparr>
                 else
                   \<lparr> cs_risk_level = VEDA_RISK_NONE, cs_siren_on = 0, cs_buzzer_on = 0,
                     cs_led_red = 0, cs_led_yellow = 0, cs_led_green = 1 \<rparr>)
      in out\<lparr> cs_buzzer_on := of_flag (cs_risk_level out = VEDA_RISK_DANGER) \<rparr>)"

definition blank_status :: channel_status_t where
  "blank_status = \<lparr> cs_risk_level = 0, cs_siren_on = 0, cs_buzzer_on = 0,
     cs_led_red = 0, cs_led_yellow = 0, cs_led_green = 0 \<rparr>"

definition blank_ctrl :: channel_ctrl_t where
  "blank_ctrl = \<lparr> desired_risk = 0, applied_risk = 0, last_tx_tick = 0, retry = 0,
     desired_tick = 0, lat_pending = 0, lat_risk = 0 \<rparr>"

definition channel_boot_state_init :: "master \<Rightarrow> master" where
  "channel_boot_state_init s =
     fold (\<lambda>index. upd_ctrl (word_of_nat index) (\<lambda>c. c\<lparr> applied_risk := SCHED_RISK_UNKNOWN \<rparr>))
       [0..<unat CHANNEL_COUNT]
       (s\<lparr> channel_status := replicate (unat CHANNEL_COUNT) blank_status \<rparr>)"

subsection \<open>Facts about a status\<close>

lemma risk_to_status_risk [simp]:
  "cs_risk_level (risk_to_status r) = (if r = 1 \<or> r = 2 then r else 0)"
  by (simp add: risk_to_status_def Let_def)

lemma risk_to_status_siren [simp]: "cs_siren_on (risk_to_status r) = of_flag (r = 1 \<or> r = 2)"
  by (simp add: risk_to_status_def Let_def)

lemma risk_to_status_buzzer [simp]: "cs_buzzer_on (risk_to_status r) = of_flag (r = 2)"
  by (simp add: risk_to_status_def Let_def)

lemma risk_to_status_leds [simp]:
  "cs_led_red (risk_to_status r) = of_flag (r = 2)"
  "cs_led_yellow (risk_to_status r) = of_flag (r = 1)"
  "cs_led_green (risk_to_status r) = of_flag (r \<noteq> 1 \<and> r \<noteq> 2)"
  by (simp_all add: risk_to_status_def Let_def)

text \<open>The control server's reading of the three lamps (\<open>reportedRiskLevel\<close> of its
  SerialHwEventDispatcher.cpp, which the comments of this firmware call decodeRiskLevel): red is danger,
  yellow is warning, anything else is none.\<close>

definition decode_leds :: "channel_status_t \<Rightarrow> u8" where
  "decode_leds st = (if cs_led_red st \<noteq> 0 then 2 else if cs_led_yellow st \<noteq> 0 then 1 else 0)"

text \<open>The picture of a level, field by field.\<close>

lemma risk_to_status_picture:
  "r \<le> 2 \<Longrightarrow> risk_to_status r =
     \<lparr> cs_risk_level = r, cs_siren_on = of_flag (r \<noteq> VEDA_RISK_NONE),
       cs_buzzer_on = of_flag (r = VEDA_RISK_DANGER), cs_led_red = of_flag (r = VEDA_RISK_DANGER),
       cs_led_yellow = of_flag (r = VEDA_RISK_WARNING), cs_led_green = of_flag (r = VEDA_RISK_NONE) \<rparr>"
  by (erule word_le_2_cases) (simp_all add: risk_to_status_def Let_def)

lemma decode_risk_to_status: "decode_leds (risk_to_status r) = cs_risk_level (risk_to_status r)"
  by (simp add: decode_leds_def)

lemma cs_risk_level_le2: "cs_risk_level (risk_to_status r) \<le> 2"
  by simp

lemma cs_risk_level_idem [simp]:
  "r \<le> 2 \<Longrightarrow> cs_risk_level (risk_to_status r) = r"
  by (erule word_le_2_cases) simp_all

text \<open>What the master reports about a channel: nothing before the first confirmation, then exactly
  the picture of the level the slave confirmed.\<close>

definition honest_channel :: "channel_ctrl_t \<Rightarrow> channel_status_t \<Rightarrow> bool" where
  "honest_channel c st \<longleftrightarrow>
     (if applied_risk c = SCHED_RISK_UNKNOWN then st = blank_status
      else applied_risk c \<le> 2 \<and> st = risk_to_status (applied_risk c))"

lemma risk_to_status_lit:
  assumes "r \<le> 2"
  shows "cs_led_red (risk_to_status r) + cs_led_yellow (risk_to_status r)
           + cs_led_green (risk_to_status r) = 1"
  using assms by (rule word_le_2_cases) simp_all

lemma channel_boot_state_init_unfold:
  assumes "length (channel_ctrl s) = 4"
  shows "channel_boot_state_init s =
    s\<lparr> channel_status := replicate 4 blank_status,
       channel_ctrl := map (\<lambda>c. c\<lparr> applied_risk := SCHED_RISK_UNKNOWN \<rparr>) (channel_ctrl s) \<rparr>"
  using assms by (auto simp: channel_boot_state_init_def upt_0_4 upd_ctrl_def length_4_conv)

lemma channel_boot_honest:
  assumes "length (channel_ctrl s) = 4" "i < 4"
  shows "honest_channel (channel_ctrl (channel_boot_state_init s) ! i)
           (channel_status (channel_boot_state_init s) ! i)"
  using assms by (simp add: channel_boot_state_init_unfold honest_channel_def)

end
