(* ===== verification/Line_Assembly.thy ===== *)
theory Line_Assembly
  imports Veda_Prelude
begin

text \<open>Both ends of the RS-485 bus collect bytes into lines the same way: a fixed buffer, a length and
  an overflow flag; a carriage return or a line feed ends a line, empty lines are skipped, and a line
  that does not fit is thrown away as a whole. This theory states that contract (\<open>asm_step\<close>), proves
  that it delivers exactly the complete, non-empty lines that fit (\<open>assembled\<close>), and packages the
  result as a locale that the master's ACK receiver and the slaves' command receivers interpret.\<close>

definition is_eol :: "u8 \<Rightarrow> bool" where
  "is_eol b \<longleftrightarrow> b = CR \<or> b = LF"

definition asm_step :: "nat \<Rightarrow> u8 \<Rightarrow> u8 list \<times> bool \<Rightarrow> u8 list option \<times> (u8 list \<times> bool)" where
  "asm_step cap b v =
     (let (cur, ovf) = v
      in if is_eol b then (if \<not> ovf \<and> cur \<noteq> [] then Some cur else None, ([], False))
         else if length cur \<ge> cap then (None, (cur, True))
         else (None, (cur @ [b], ovf)))"

text \<open>The lines a stream contains, the unfinished last one left out; \<open>acc\<close> is the line begun before
  the stream.\<close>

fun lines_of :: "u8 list \<Rightarrow> u8 list \<Rightarrow> u8 list list" where
  "lines_of acc [] = []"
| "lines_of acc (b # bs) = (if is_eol b then acc # lines_of [] bs else lines_of (acc @ [b]) bs)"

definition deliverable :: "nat \<Rightarrow> u8 list \<Rightarrow> bool" where
  "deliverable cap l \<longleftrightarrow> l \<noteq> [] \<and> length l \<le> cap"

definition assembled :: "nat \<Rightarrow> u8 list \<Rightarrow> u8 list list" where
  "assembled cap bs = filter (deliverable cap) (lines_of [] bs)"

text \<open>What is in the buffer after the line begun so far is \<open>acc\<close>.\<close>

definition view_of :: "nat \<Rightarrow> u8 list \<Rightarrow> u8 list \<times> bool" where
  "view_of cap acc = (take cap acc, length acc > cap)"

lemma asm_step_view_of:
  "asm_step cap b (view_of cap acc) =
     (if is_eol b then (if deliverable cap acc then Some acc else None, view_of cap [])
      else (None, view_of cap (acc @ [b])))"
  by (auto simp: asm_step_def view_of_def deliverable_def)

lemma lines_of_append_no_eol:
  "(\<forall>b\<in>set l. \<not> is_eol b) \<Longrightarrow> lines_of acc (l @ bs) = lines_of (acc @ l) bs"
  by (induction l arbitrary: acc) auto

lemma lines_of_line:
  "(\<forall>b\<in>set l. \<not> is_eol b) \<Longrightarrow> is_eol e \<Longrightarrow> lines_of acc (l @ e # bs) = (acc @ l) # lines_of [] bs"
  by (simp add: lines_of_append_no_eol)

lemma assembled_line:
  assumes "\<forall>b\<in>set l. \<not> is_eol b" "is_eol e"
  shows "assembled cap (l @ e # bs) = (if deliverable cap l then [l] else []) @ assembled cap bs"
  using assms by (simp add: assembled_def lines_of_line)

lemma assembled_no_eol: "(\<forall>b\<in>set l. \<not> is_eol b) \<Longrightarrow> assembled cap l = []"
  using lines_of_append_no_eol [of l "[]" "[]"] by (simp add: assembled_def)

locale line_assembler =
  fixes cap :: nat
    and feed :: "u8 \<Rightarrow> 's \<Rightarrow> 's"
    and view :: "'s \<Rightarrow> u8 list \<times> bool"
    and rest :: "'s \<Rightarrow> 'r"
    and act :: "u8 list \<Rightarrow> 'r \<Rightarrow> 'r"
    and ok :: "'s \<Rightarrow> bool"
  assumes feed_ok: "ok s \<Longrightarrow> ok (feed b s)"
    and feed_view: "ok s \<Longrightarrow> view (feed b s) = snd (asm_step cap b (view s))"
    and feed_rest: "ok s \<Longrightarrow> rest (feed b s) =
          (case fst (asm_step cap b (view s)) of None \<Rightarrow> rest s | Some l \<Rightarrow> act l (rest s))"
begin

lemma feed_list_ok: "ok s \<Longrightarrow> ok (fold feed bs s)"
  by (induction bs arbitrary: s) (simp_all add: feed_ok)

lemma feed_list_rest:
  "ok s \<Longrightarrow> view s = view_of cap acc \<Longrightarrow>
     rest (fold feed bs s) = fold act (filter (deliverable cap) (lines_of acc bs)) (rest s)"
proof (induction bs arbitrary: s acc)
  case (Cons b bs)
  define acc' where "acc' = (if is_eol b then [] else acc @ [b])"
  have "view (feed b s) = view_of cap acc'"
    using Cons.prems by (simp add: feed_view asm_step_view_of acc'_def)
  then have "rest (fold feed bs (feed b s)) =
      fold act (filter (deliverable cap) (lines_of acc' bs)) (rest (feed b s))"
    using Cons.IH feed_ok Cons.prems by blast
  moreover have "rest (feed b s) =
      (if is_eol b \<and> deliverable cap acc then act acc (rest s) else rest s)"
    using Cons.prems by (simp add: feed_rest asm_step_view_of)
  ultimately show ?case by (simp add: acc'_def)
qed simp

text \<open>From an empty buffer, the handler sees exactly the lines of the stream that fit, in order.\<close>

lemma feed_stream:
  "ok s \<Longrightarrow> view s = ([], False) \<Longrightarrow> rest (fold feed bs s) = fold act (assembled cap bs) (rest s)"
  using feed_list_rest [of s "[]" bs] by (simp add: view_of_def assembled_def)

text \<open>One line fed from an empty buffer leaves the buffer empty again.\<close>

lemma feed_one_line:
  assumes "ok s" "view s = ([], False)" "\<forall>b\<in>set l. \<not> is_eol b" "is_eol e"
  shows "rest (fold feed (l @ [e]) s) = (if deliverable cap l then act l (rest s) else rest s)"
    and "view (fold feed (l @ [e]) s) = ([], False)"
proof -
  show "rest (fold feed (l @ [e]) s) = (if deliverable cap l then act l (rest s) else rest s)"
    using assms assembled_line [of l e cap "[]"] feed_stream [of s "l @ [e]"]
    by (simp add: assembled_no_eol)
  show "view (fold feed (l @ [e]) s) = ([], False)"
    using assms by (simp add: feed_view feed_list_ok asm_step_def split_def Let_def)
qed

end

end
