(* ===== verification/Master_Rs485.thy ===== *)
theory Master_Rs485
  imports Master_Channel Line_Assembly
begin

text \<open>veda_rs485.c and ack_parse.inc: the master's side of the RS-485 bus. A command is one line of
  ten bytes sent with the driver-enable pin held high; an acknowledgement is a line of nine bytes
  assembled in the interrupt, parsed and queued for the scheduler.\<close>

definition veda_rs485_queue_create :: "bool \<Rightarrow> rs485_ack_t Queue_t option" where
  "veda_rs485_queue_create heap_ok = osMessageQueueNew False heap_ok ACK_QUEUE_DEPTH 3"

definition rs485_de_init :: "master \<Rightarrow> master" where
  "rs485_de_init s = emit (PinConfigOutput RS485_DE_Pin) (emit (PinWrite RS485_DE_Pin False) s)"

definition veda_rs485_rx_arm :: "master \<Rightarrow> master" where
  "veda_rs485_rx_arm s = emit (RxArm USART1) s"

subsection \<open>Commands\<close>

definition command_frame :: "u8 \<Rightarrow> u8 \<Rightarrow> u8 list" where
  "command_frame channel_index risk_level =
     (let slave_digit = ascii CHR ''1'' + channel_index div CHANNELS_PER_SLAVE;
          channel_digit = ascii CHR ''1'' + channel_index
      in [ascii CHR ''S'', slave_digit, ascii CHR '':'', ascii CHR ''C'', ascii CHR ''H'',
          channel_digit, ascii CHR '':'', ascii CHR ''R'', ascii CHR ''0'' + risk_level mod 10, LF])"

subsection \<open>The ACK queue\<close>

definition ack_queue_put :: "rs485_ack_t \<Rightarrow> master \<Rightarrow> master" where
  "ack_queue_put ack s = s\<lparr> ack_queue := snd (osMessageQueuePut_ISR ack (ack_queue s)) \<rparr>"

definition ack_queue_poll :: "master \<Rightarrow> rs485_ack_t option \<times> master" where
  "ack_queue_poll s =
     (let (r, q) = osMessageQueueGet (ack_queue s) in (r, s\<lparr> ack_queue := q \<rparr>))"

definition ack_now_ms :: "master \<Rightarrow> u32" where
  "ack_now_ms s = osKernelGetTickCount s"

subsection \<open>ack_parse.inc\<close>

definition count_ack_bad :: "master \<Rightarrow> master" where
  "count_ack_bad = upd_stats (\<lambda>t. t\<lparr> stat_ack_bad := stat_ack_bad t + 1 \<rparr>)"

definition ack_feed_line :: "u8 list \<Rightarrow> u8 \<Rightarrow> master \<Rightarrow> master" where
  "ack_feed_line line len s =
     (if len \<noteq> 0 \<and> line ! 0 = ascii CHR ''S'' then s
      else if len \<noteq> 9 \<or> line ! 0 \<noteq> ascii CHR ''A'' \<or> line ! 2 \<noteq> ascii CHR '':''
           \<or> line ! 3 \<noteq> ascii CHR ''C'' \<or> line ! 4 \<noteq> ascii CHR ''H''
           \<or> line ! 6 \<noteq> ascii CHR '':'' \<or> line ! 7 \<noteq> ascii CHR ''R'' then count_ack_bad s
      else if (line ! 1 < ascii CHR ''1'' \<or> line ! 1 > ascii CHR ''9'')
           \<or> (line ! 5 < ascii CHR ''1'' \<or> line ! 5 > ascii CHR ''9'') then count_ack_bad s
      else if line ! 8 < ascii CHR ''0'' \<or> line ! 8 > ascii CHR ''2'' then count_ack_bad s
      else
        let ack = \<lparr> ack_slave = line ! 1 - ascii CHR ''0'',
                    ack_channel = line ! 5 - ascii CHR ''0'',
                    ack_risk_level = line ! 8 - ascii CHR ''0'' \<rparr>
        in ack_queue_put ack (upd_stats (\<lambda>t. t\<lparr> stat_ack_ok := stat_ack_ok t + 1 \<rparr>) s))"

definition ack_feed_byte :: "u8 \<Rightarrow> master \<Rightarrow> master" where
  "ack_feed_byte byte s =
     (if byte = CR \<or> byte = LF then
        (let s1 = (if ack_line_overflow s = 0 \<and> ack_line_length s \<noteq> 0
                   then ack_feed_line (ack_line s) (ack_line_length s) s else s)
         in s1\<lparr> ack_line_length := 0, ack_line_overflow := 0 \<rparr>)
      else if ack_line_length s \<ge> RS485_ACK_LINE_BUFFER_SIZE then s\<lparr> ack_line_overflow := 1 \<rparr>
      else s\<lparr> ack_line := (ack_line s)[unat (ack_line_length s) := byte],
              ack_line_length := ack_line_length s + 1 \<rparr>)"

definition veda_rs485_ack_line_reset :: "master \<Rightarrow> master" where
  "veda_rs485_ack_line_reset s = s\<lparr> ack_line_length := 0, ack_line_overflow := 0 \<rparr>"

subsection \<open>What the parser accepts\<close>

definition ack_bytes :: "u8 \<Rightarrow> u8 \<Rightarrow> u8 \<Rightarrow> u8 list" where
  "ack_bytes slave channel risk =
     [ascii CHR ''A'', ascii CHR ''0'' + slave, ascii CHR '':'', ascii CHR ''C'', ascii CHR ''H'',
      ascii CHR ''0'' + channel, ascii CHR '':'', ascii CHR ''R'', ascii CHR ''0'' + risk]"

definition valid_ack :: "rs485_ack_t \<Rightarrow> bool" where
  "valid_ack a \<longleftrightarrow> 1 \<le> ack_slave a \<and> ack_slave a \<le> 9 \<and> 1 \<le> ack_channel a \<and> ack_channel a \<le> 9
     \<and> ack_risk_level a \<le> 2"

text \<open>Reading one acknowledgement line, as a function of its text.\<close>

definition parse_ack :: "u8 list \<Rightarrow> rs485_ack_t option" where
  "parse_ack l =
     (let a = \<lparr> ack_slave = l ! 1 - 48, ack_channel = l ! 5 - 48, ack_risk_level = l ! 8 - 48 \<rparr>
      in if length l = 9 \<and> valid_ack a \<and> l = ack_bytes (ack_slave a) (ack_channel a) (ack_risk_level a)
         then Some a else None)"

definition ack_line_view :: "master \<Rightarrow> u8 list \<times> bool" where
  "ack_line_view s = (take (unat (ack_line_length s)) (ack_line s), ack_line_overflow s \<noteq> 0)"

definition ack_line_blank :: "master \<Rightarrow> master" where
  "ack_line_blank s = s\<lparr> ack_line := [], ack_line_length := 0, ack_line_overflow := 0 \<rparr>"

definition ack_line_wf :: "master \<Rightarrow> bool" where
  "ack_line_wf s \<longleftrightarrow> length (ack_line s) = 16 \<and> ack_line_length s \<le> 16"

definition ack_line_act :: "u8 list \<Rightarrow> master \<Rightarrow> master" where
  "ack_line_act l s = ack_feed_line l (word_of_nat (length l)) s"

lemma parse_ack_iff:
  "parse_ack l = Some a \<longleftrightarrow> valid_ack a
     \<and> l = ack_bytes (ack_slave a) (ack_channel a) (ack_risk_level a)"
  by (cases a) (auto simp: parse_ack_def Let_def ack_bytes_def)

text \<open>The chain of tests in the code is exactly this parse.\<close>

lemma digit_test: "(c :: u8) < 49 \<or> 57 < c \<longleftrightarrow> \<not> (1 \<le> c - 48 \<and> c - 48 \<le> 9)"
  by (simp add: word_less_nat_alt word_le_nat_alt unat_sub_if', arith?)

lemma digit_test0: "(c :: u8) < 48 \<or> 50 < c \<longleftrightarrow> \<not> (c - 48 \<le> 2)"
  by (simp add: word_less_nat_alt word_le_nat_alt unat_sub_if', arith)

definition ack_accept :: "rs485_ack_t \<Rightarrow> master \<Rightarrow> master" where
  "ack_accept a s = ack_queue_put a (upd_stats (\<lambda>t. t\<lparr> stat_ack_ok := stat_ack_ok t + 1 \<rparr>) s)"

lemma word_of_length_eq_9:
  "length l \<le> 16 \<Longrightarrow> (word_of_nat (length l) :: u8) = 9 \<longleftrightarrow> length l = 9"
  "length l \<le> 16 \<Longrightarrow> (word_of_nat (length l) :: u8) = 0 \<longleftrightarrow> l = []"
  by (auto simp: word_unat_eq_iff unat_of_nat take_bit_nat_eq_self_iff)

lemma ack_feed_line_parse:
  assumes "length l \<le> 16"
  shows "ack_line_act l s =
    (if l \<noteq> [] \<and> hd l = ascii CHR ''S'' then s
     else case parse_ack l of None \<Rightarrow> count_ack_bad s | Some a \<Rightarrow> ack_accept a s)"
proof (cases "length l = 9")
  case True
  then obtain c0 c1 c2 c3 c4 c5 c6 c7 c8 where l: "l = [c0, c1, c2, c3, c4, c5, c6, c7, c8]"
    by (auto simp: numeral_eq_Suc length_Suc_conv)
  show ?thesis
    unfolding ack_line_act_def ack_feed_line_def l
    by (simp add: parse_ack_def valid_ack_def ack_bytes_def ack_accept_def Let_def digit_test0 digit_test
        del: not_le not_less de_Morgan_conj)
next
  case False
  then have "parse_ack l = None" by (simp add: parse_ack_def Let_def)
  then show ?thesis
    using False word_of_length_eq_9 [OF assms]
    by (cases "l = []") (simp_all add: ack_line_act_def ack_feed_line_def hd_conv_nth)
qed

lemma ack_feed_line_take:
  assumes "n \<le> 16" "length buf = 16"
  shows "ack_feed_line buf n s = ack_line_act (take (unat n) buf) s"
proof (cases "n = 9")
  case True
  then show ?thesis using assms by (simp add: ack_line_act_def ack_feed_line_def)
next
  case False
  have "length (take (unat n) buf) = unat n" using assms by (simp add: word_le_nat_alt)
  moreover have "n \<noteq> 0 \<Longrightarrow> take (unat n) buf ! 0 = buf ! 0"
    by (simp add: unat_gt_0)
  ultimately show ?thesis
    using False by (cases "n = 0") (simp_all add: ack_line_act_def ack_feed_line_def)
qed

subsection \<open>Assembling the lines\<close>

lemma ack_queue_put_line [simp]:
  "ack_line (ack_queue_put a s) = ack_line s"
  "ack_line_length (ack_queue_put a s) = ack_line_length s"
  "ack_line_overflow (ack_queue_put a s) = ack_line_overflow s"
  by (simp_all add: ack_queue_put_def)

lemma ack_line_act_line [simp]:
  "ack_line (ack_line_act l s) = ack_line s"
  "ack_line_length (ack_line_act l s) = ack_line_length s"
  "ack_line_overflow (ack_line_act l s) = ack_line_overflow s"
  by (simp_all add: ack_line_act_def ack_feed_line_def count_ack_bad_def upd_stats_def Let_def)

lemma ack_line_blank_act: "ack_line_blank (ack_line_act l s) = ack_line_act l (ack_line_blank s)"
  by (simp add: ack_line_blank_def ack_line_act_def ack_feed_line_def count_ack_bad_def
      upd_stats_def Let_def ack_queue_put_def)

lemma ack_feed_byte_cases:
  assumes "ack_line_wf s"
  shows "ack_feed_byte b s =
    (if is_eol b then
       (if snd (ack_line_view s) \<or> fst (ack_line_view s) = [] then s
        else ack_line_act (fst (ack_line_view s)) s)\<lparr> ack_line_length := 0, ack_line_overflow := 0 \<rparr>
     else if length (fst (ack_line_view s)) \<ge> 16 then s\<lparr> ack_line_overflow := 1 \<rparr>
     else s\<lparr> ack_line := (ack_line s)[unat (ack_line_length s) := b],
             ack_line_length := ack_line_length s + 1 \<rparr>)"
  using assms
  by (auto simp: ack_feed_byte_def ack_line_view_def is_eol_def ack_line_wf_def ack_feed_line_take
      word_le_nat_alt Let_def unat_eq_zero)

lemma u8_add1_le16: "(n :: u8) < 16 \<Longrightarrow> unat (n + 1) = Suc (unat n)"
  by (simp add: word_less_nat_alt unat_word_ariths)

interpretation ack_asm: line_assembler 16 ack_feed_byte ack_line_view ack_line_blank ack_line_act
  ack_line_wf
proof
  fix s :: master and b :: u8
  assume wf: "ack_line_wf s"
  then have len: "length (ack_line s) = 16" "unat (ack_line_length s) \<le> 16"
    by (simp_all add: ack_line_wf_def word_le_nat_alt)
  have n: "length (fst (ack_line_view s)) = unat (ack_line_length s)"
    using len by (simp add: ack_line_view_def)
  show "ack_line_wf (ack_feed_byte b s)"
    using wf len n u8_add1_le16 [of "ack_line_length s"]
    by (auto simp: ack_feed_byte_cases [OF wf] ack_line_wf_def word_less_nat_alt word_le_nat_alt)
  show "ack_line_view (ack_feed_byte b s) = snd (asm_step 16 b (ack_line_view s))"
    using len n u8_add1_le16 [of "ack_line_length s"]
    by (auto simp: ack_feed_byte_cases [OF wf] asm_step_def split_def Let_def ack_line_view_def
        word_less_nat_alt take_Suc_conv_app_nth)
  show "ack_line_blank (ack_feed_byte b s) =
      (case fst (asm_step 16 b (ack_line_view s)) of None \<Rightarrow> ack_line_blank s
       | Some l \<Rightarrow> ack_line_act l (ack_line_blank s))"
    by (simp add: ack_feed_byte_cases [OF wf] asm_step_def split_def Let_def
        flip: ack_line_blank_act) (simp add: ack_line_blank_def)
qed

end
