(* ===== verification/Master_Uplink.thy ===== *)
theory Master_Uplink
  imports Master_Channel
begin

text \<open>veda_time.c and veda_uplink.c: the 64-bit millisecond clock built from the wrapping 32-bit
  tick, and the acknowledgement and heartbeat packets sent up to the Raspberry Pi. The clock is
  exact as long as it is read at least once per wrap of the tick; a packet is a faithful copy of the
  channel's status; the frame on the wire decodes to the packet that was queued.\<close>

subsection \<open>veda_time.c\<close>

definition veda_now_ms :: "master \<Rightarrow> u64 \<times> master" where
  "veda_now_ms s =
     (let now = osKernelGetTickCount s;
          s1 = (if now < ms_clock_last_tick s
                then s\<lparr> ms_clock_wrap_count := ms_clock_wrap_count s + 1 \<rparr> else s);
          s2 = s1\<lparr> ms_clock_last_tick := now \<rparr>;
          wraps = ms_clock_wrap_count s2
      in (push_bit 32 (ucast wraps) OR ucast now, s2))"

definition clock_value :: "master \<Rightarrow> nat" where
  "clock_value s = unat (ms_clock_wrap_count s) * 2 ^ 32 + unat (ms_clock_last_tick s)"

lemma unat_push_or_32:
  "unat (push_bit 32 (ucast (w :: u32)) OR ucast (v :: u32) :: u64) = unat w * 2 ^ 32 + unat v"
proof -
  have "push_bit 32 (ucast w) OR ucast v = (push_bit 32 (ucast w) + ucast v :: u64)"
    by (rule disjunctive_add [symmetric]) (auto simp: bit_push_bit_iff bit_ucast_iff
        dest: bit_imp_le_length)
  moreover have "unat w * 2 ^ 32 + unat v < 2 ^ 64"
  proof -
    have "unat w \<le> 2 ^ 32 - 1" "unat v < 2 ^ 32"
      using unat_u32_less [of w] unat_u32_less [of v] by simp_all
    then show ?thesis by simp
  qed
  ultimately show ?thesis
    by (simp add: unat_word_ariths push_bit_eq_mult unsigned_ucast_eq
        take_bit_eq_mod)
qed

lemma veda_now_ms_unfold:
  "veda_now_ms s =
     (let w = (if now s < ms_clock_last_tick s then ms_clock_wrap_count s + 1 else ms_clock_wrap_count s)
      in (push_bit 32 (ucast w) OR ucast (now s),
          s\<lparr> ms_clock_wrap_count := w, ms_clock_last_tick := now s \<rparr>))"
  by (simp add: veda_now_ms_def osKernelGetTickCount_def Let_def)

text \<open>The clock after a reading that happens less than one full wrap after the previous one.\<close>

lemma veda_now_ms_exact:
  assumes tick: "now s = word_of_nat t" and bound: "t < 2 ^ 64"
    and prev: "clock_value s \<le> t" and recent: "t < clock_value s + 2 ^ 32"
  shows "unat (fst (veda_now_ms s)) = t" and "clock_value (snd (veda_now_ms s)) = t"
proof -
  let ?w = "unat (ms_clock_wrap_count s)" and ?l = "unat (ms_clock_last_tick s)"
  define q r where "q = t div 2 ^ 32" and "r = t mod 2 ^ 32"
  have t: "t = q * 2 ^ 32 + r" "r < 2 ^ 32" by (simp_all add: q_def r_def)
  have now_r: "unat (now s) = r" by (simp add: tick unat_of_nat r_def take_bit_eq_mod)
  have l: "?l < 2 ^ 32" using unat_u32_less [of "ms_clock_last_tick s"] by simp
  have q32: "q < 2 ^ 32" using bound by (simp add: q_def less_mult_imp_div_less)
  have wq: "if r < ?l then q = Suc ?w else q = ?w"
    using prev recent t l by (auto simp: clock_value_def)
  have lt: "now s < ms_clock_last_tick s \<longleftrightarrow> r < ?l" by (simp add: word_less_nat_alt now_r)
  have "unat (if now s < ms_clock_last_tick s then ms_clock_wrap_count s + 1 else ms_clock_wrap_count s)
      = q"
    using wq q32 by (auto simp: lt unat_word_ariths split: if_splits)
  then show "unat (fst (veda_now_ms s)) = t" "clock_value (snd (veda_now_ms s)) = t"
    by (simp_all add: veda_now_ms_unfold Let_def unat_push_or_32 now_r t(1) clock_value_def
        split del: if_split)
qed

subsection \<open>veda_uplink.c\<close>

definition veda_uplink_queue_create :: "bool \<Rightarrow> veda_uplink_packet_t Queue_t option" where
  "veda_uplink_queue_create heap_ok = osMessageQueueNew False heap_ok UPLINK_QUEUE_DEPTH 16"

definition enqueue_uplink :: "u8 \<Rightarrow> u8 \<Rightarrow> master \<Rightarrow> master" where
  "enqueue_uplink channel_index reason s =
     (let status = channel_status s ! unat channel_index;
          (ts, s1) = veda_now_ms s;
          packet = \<lparr> up_channel_id = channel_index + RPI_CHANNEL_ID_BASE, up_reason = reason,
                     up_siren_on = cs_siren_on status, up_buzzer_on = cs_buzzer_on status,
                     up_led_red = cs_led_red status, up_led_yellow = cs_led_yellow status,
                     up_led_green = cs_led_green status, up_reserved0 = 0,
                     up_timestamp_ms = ts \<rparr>;
          (st, q) = osMessageQueuePut packet (uplink_queue s1);
          s2 = s1\<lparr> uplink_queue := q \<rparr>
      in if st \<noteq> osOK
         then upd_stats (\<lambda>t. t\<lparr> stat_uplink_dropped := stat_uplink_dropped t + 1 \<rparr>) s2
         else s2)"

definition uplink_frame :: "veda_uplink_packet_t \<Rightarrow> veda_uplink_frame_t" where
  "uplink_frame packet = \<lparr> uf_start_byte = VEDA_START_BYTE, uf_payload = packet,
     uf_checksum = veda_uplink_checksum packet, uf_end_byte = VEDA_END_BYTE \<rparr>"

definition uplink_send :: "veda_uplink_packet_t \<Rightarrow> master \<Rightarrow> master" where
  "uplink_send packet s =
     (let frame = uplink_frame packet;
          (st, s1) = HAL_UART_Transmit USART6 (uplink_frame_bytes frame) UPLINK_TX_TIMEOUT_MSEC s
      in if st = HAL_OK
         then upd_stats (\<lambda>t. t\<lparr> stat_uplink_sent := stat_uplink_sent t + 1 \<rparr>) s1
         else upd_stats (\<lambda>t. t\<lparr> stat_uplink_tx_fail := stat_uplink_tx_fail t + 1 \<rparr>) s1)"

definition veda_uplink_queue_get :: "master \<Rightarrow> veda_uplink_packet_t option \<times> master" where
  "veda_uplink_queue_get s =
     (let (r, q) = osMessageQueueGet (uplink_queue s) in (r, s\<lparr> uplink_queue := q \<rparr>))"

subsection \<open>What goes up is the channel's status\<close>

definition packet_status :: "veda_uplink_packet_t \<Rightarrow> u8 \<times> u8 \<times> u8 \<times> u8 \<times> u8" where
  "packet_status p = (up_siren_on p, up_buzzer_on p, up_led_red p, up_led_yellow p, up_led_green p)"

definition status_fields :: "channel_status_t \<Rightarrow> u8 \<times> u8 \<times> u8 \<times> u8 \<times> u8" where
  "status_fields st = (cs_siren_on st, cs_buzzer_on st, cs_led_red st, cs_led_yellow st, cs_led_green st)"

definition uplink_packet_for :: "u8 \<Rightarrow> u8 \<Rightarrow> master \<Rightarrow> veda_uplink_packet_t" where
  "uplink_packet_for ch reason s =
     (let st = channel_status s ! unat ch
      in \<lparr> up_channel_id = ch, up_reason = reason, up_siren_on = cs_siren_on st,
           up_buzzer_on = cs_buzzer_on st, up_led_red = cs_led_red st,
           up_led_yellow = cs_led_yellow st, up_led_green = cs_led_green st,
           up_reserved0 = 0, up_timestamp_ms = fst (veda_now_ms s) \<rparr>)"

lemma veda_now_ms_frame [simp]:
  "channel_status (snd (veda_now_ms s)) = channel_status s"
  "uplink_queue (snd (veda_now_ms s)) = uplink_queue s"
  by (simp_all add: veda_now_ms_unfold Let_def)

lemma osMessageQueuePut_rtos:
  "osMessageQueuePut x q = (if fst (rtos_put x q) then osOK else osErrorResource, snd (rtos_put x q))"
  by (simp add: rtos_put_def osMessageQueuePut_def xQueueGenericSend_def)

lemma enqueue_uplink_unfold:
  "enqueue_uplink ch reason s =
     (let s1 = snd (veda_now_ms s); r = rtos_put (uplink_packet_for ch reason s) (uplink_queue s);
          s2 = s1\<lparr> uplink_queue := snd r \<rparr>
      in if fst r then s2
         else upd_stats (\<lambda>t. t\<lparr> stat_uplink_dropped := stat_uplink_dropped t + 1 \<rparr>) s2)"
  by (simp add: enqueue_uplink_def Let_def split_def osMessageQueuePut_rtos uplink_packet_for_def)

lemma enqueue_uplink_items:
  assumes "wf_queue (uplink_queue s)"
  shows "wf_queue (uplink_queue (enqueue_uplink ch reason s))"
    and "q_items (uplink_queue (enqueue_uplink ch reason s)) =
      (if length (q_items (uplink_queue s)) < uxLength (uplink_queue s)
       then q_items (uplink_queue s) @ [uplink_packet_for ch reason s] else q_items (uplink_queue s))"
    and "uxLength (uplink_queue (enqueue_uplink ch reason s)) = uxLength (uplink_queue s)"
  using ring.put_ok [OF assms] ring.put_items [OF assms] ring.put_cap [of _ "uplink_queue s"]
  by (simp_all add: enqueue_uplink_unfold Let_def upd_stats_def)

lemma packet_status_uplink_packet_for [simp]:
  "packet_status (uplink_packet_for ch reason s) = status_fields (channel_status s ! unat ch)"
  by (simp add: packet_status_def status_fields_def uplink_packet_for_def Let_def)

lemma enqueue_uplink_frame [frame_simps]:
  "channel_status (enqueue_uplink ch reason s) = channel_status s"
  "channel_ctrl (enqueue_uplink ch reason s) = channel_ctrl s"
  "ack_queue (enqueue_uplink ch reason s) = ack_queue s"
  "sched_cursor (enqueue_uplink ch reason s) = sched_cursor s"
  "now (enqueue_uplink ch reason s) = now s"
  "out (enqueue_uplink ch reason s) = out s"
  "agenda (enqueue_uplink ch reason s) = agenda s"
  "cmd_queue (enqueue_uplink ch reason s) = cmd_queue s"
  "rpi_rx_queue (enqueue_uplink ch reason s) = rpi_rx_queue s"
  "ack_line (enqueue_uplink ch reason s) = ack_line s"
  "ack_line_length (enqueue_uplink ch reason s) = ack_line_length s"
  "ack_line_overflow (enqueue_uplink ch reason s) = ack_line_overflow s"
  "downlink_state (enqueue_uplink ch reason s) = downlink_state s"
  "downlink_payload (enqueue_uplink ch reason s) = downlink_payload s"
  "downlink_payload_index (enqueue_uplink ch reason s) = downlink_payload_index s"
  by (simp_all add: enqueue_uplink_unfold Let_def upd_stats_def veda_now_ms_unfold)

text \<open>The receiver's view of an uplink frame: sizes, checksum and fields.\<close>

definition uplink_parse :: "u8 list \<Rightarrow> veda_uplink_packet_t option" where
  "uplink_parse bs =
     (if length bs = 19 \<and> bs ! 0 = VEDA_START_BYTE \<and> bs ! 18 = VEDA_END_BYTE
         \<and> veda_checksum (take 16 (drop 1 bs)) 16 = bs ! 17
      then Some (packet_of_bytes (take 16 (drop 1 bs))) else None)"

lemma uplink_parse_frame: "uplink_parse (uplink_frame_bytes (uplink_frame p)) = Some p"
  by (simp add: uplink_parse_def uplink_frame_bytes_def uplink_frame_def veda_uplink_checksum_def
      nth_append)

end
