(* ===== verification/Master_Tasks.thy ===== *)
theory Master_Tasks
  imports Master_Downlink Master_Rs485 Master_Uplink
begin

text \<open>veda_tasks.c and veda_isr.c: one iteration of each task that feeds or drains the queues, the
  receive interrupts, and \<open>run_input\<close>, which performs any one of them. The scheduler task is in
  Master_Sched; these are the steps that run while it is blocked.\<close>

subsection \<open>veda_tasks.c\<close>

definition veda_tasks_queue_create :: "bool \<Rightarrow> veda_risk_event_t Queue_t option" where
  "veda_tasks_queue_create heap_ok = osMessageQueueNew False heap_ok CMD_QUEUE_DEPTH 24"

definition veda_tasks_cmd_put :: "veda_risk_event_t \<Rightarrow> master \<Rightarrow> u8 \<times> master" where
  "veda_tasks_cmd_put event s =
     (let (st, q) = osMessageQueuePut event (cmd_queue s)
      in (of_flag (st = osOK), s\<lparr> cmd_queue := q \<rparr>))"

text \<open>One turn of the loop, from the moment the receive returns: with a byte, or, the queue being
  empty, after DOWNLINK_RESYNC_MSEC without one.\<close>

definition StartRxTask_iter :: "master \<Rightarrow> master" where
  "StartRxTask_iter s =
     (let (r, s1) = veda_downlink_queue_get s
      in case r of
           Some byte \<Rightarrow>
             (let (e, s2) = downlink_feed_byte byte s1
              in case e of
                   None \<Rightarrow> s2
                 | Some event \<Rightarrow>
                     (let s3 = upd_stats (\<lambda>t. t\<lparr> stat_frames_ok := stat_frames_ok t + 1 \<rparr>) s2;
                          s4 = s3\<lparr> last_downlink_tick := osKernelGetTickCount s3 \<rparr>;
                          (put, s5) = veda_tasks_cmd_put event s4
                      in if put = 0
                         then upd_stats (\<lambda>t. t\<lparr> stat_cmd_dropped := stat_cmd_dropped t + 1 \<rparr>) s5
                         else s5))
         | None \<Rightarrow> (if downlink_state s1 \<noteq> DL_WAIT_START then veda_downlink_resync s1 else s1))"

text \<open>What StartCtrlTask does with one event.\<close>

definition ctrl_event :: "veda_risk_event_t \<Rightarrow> master \<Rightarrow> master" where
  "ctrl_event event s =
     (let channel_offset = ucast (ev_channel_id event) - ucast RPI_CHANNEL_ID_BASE :: u32
      in if channel_offset \<ge> ucast CHANNEL_COUNT
         then upd_stats (\<lambda>t. t\<lparr> stat_bad_channel := stat_bad_channel t + 1,
                               stat_last_bad_channel := ucast (ev_channel_id event) \<rparr>) s
         else
           let channel_index = ucast channel_offset :: u8;
               s1 = (if ev_risk_level event \<noteq> VEDA_RISK_NONE \<and> ev_risk_level event \<noteq> VEDA_RISK_WARNING
                        \<and> ev_risk_level event \<noteq> VEDA_RISK_DANGER
                     then upd_stats (\<lambda>t. t\<lparr> stat_bad_risk := stat_bad_risk t + 1,
                                           stat_last_bad_risk := ucast (ev_risk_level event) \<rparr>) s
                     else s);
               next = risk_to_status (ev_risk_level event);
               s2 = (if cs_risk_level next = desired_risk (ctrl s1 channel_index)
                     then upd_stats (\<lambda>t. t\<lparr> stat_cmd_coalesced := stat_cmd_coalesced t + 1 \<rparr>) s1
                     else if cs_risk_level next = applied_risk (ctrl s1 channel_index)
                     then upd_ctrl channel_index (\<lambda>c. c\<lparr> lat_pending := 0 \<rparr>) s1
                     else upd_ctrl channel_index
                            (\<lambda>c. c\<lparr> desired_tick := osKernelGetTickCount s1,
                                    lat_risk := cs_risk_level next, lat_pending := 1 \<rparr>) s1)
           in upd_ctrl channel_index (\<lambda>c. c\<lparr> desired_risk := cs_risk_level next \<rparr>) s2)"

definition StartCtrlTask_iter :: "master \<Rightarrow> master" where
  "StartCtrlTask_iter s =
     (let (r, q) = osMessageQueueGet (cmd_queue s); s1 = s\<lparr> cmd_queue := q \<rparr>
      in case r of None \<Rightarrow> s1 | Some event \<Rightarrow> ctrl_event event s1)"

definition StartTxTask_iter :: "master \<Rightarrow> master" where
  "StartTxTask_iter s =
     (let (r, s1) = veda_uplink_queue_get s
      in case r of None \<Rightarrow> s1 | Some packet \<Rightarrow> uplink_send packet s1)"

definition StartHeartbeatTask_iter :: "master \<Rightarrow> master" where
  "StartHeartbeatTask_iter s =
     fold (\<lambda>channel_index. enqueue_uplink (word_of_nat channel_index) VEDA_UPLINK_REASON_HEARTBEAT)
       [0..<unat CHANNEL_COUNT] s"

subsection \<open>veda_isr.c\<close>

definition veda_downlink_rx_arm :: "master \<Rightarrow> master" where
  "veda_downlink_rx_arm s = emit (RxArm USART6) s"

text \<open>The byte the UART put into \<open>rpi_rx_byte\<close> or \<open>rs485_rx_byte\<close> is the argument; the callback arms the
  reception of the next byte last.\<close>

definition HAL_UART_RxCpltCallback :: "uart \<Rightarrow> u8 \<Rightarrow> master \<Rightarrow> master" where
  "HAL_UART_RxCpltCallback u byte s =
     (if u = USART6 then
        (let (ok, s1) = veda_downlink_queue_put_from_isr byte s;
             s2 = (if ok = 0
                   then upd_stats (\<lambda>t. t\<lparr> stat_rx_bytes_dropped := stat_rx_bytes_dropped t + 1 \<rparr>) s1
                   else s1)
         in emit (RxArm u) s2)
      else if u = USART1 then emit (RxArm u) (ack_feed_byte byte s)
      else s)"

definition HAL_UART_ErrorCallback :: "uart \<Rightarrow> master \<Rightarrow> master" where
  "HAL_UART_ErrorCallback u s =
     (if u = USART6 then emit (RxArm u) s
      else if u = USART1 then emit (RxArm u) (veda_rs485_ack_line_reset s)
      else s)"

text \<open>Entering the receive task.\<close>

definition StartRxTask_entry :: "master \<Rightarrow> master" where
  "StartRxTask_entry s = veda_downlink_rx_arm s"

definition run_input :: "stimulus \<Rightarrow> master \<Rightarrow> master" where
  "run_input i s =
     (case i of
        RpiByte b \<Rightarrow> HAL_UART_RxCpltCallback USART6 b s
      | RpiError \<Rightarrow> HAL_UART_ErrorCallback USART6 s
      | Rs485Byte b \<Rightarrow> HAL_UART_RxCpltCallback USART1 b s
      | Rs485Error \<Rightarrow> HAL_UART_ErrorCallback USART1 s
      | RunRx \<Rightarrow> StartRxTask_iter s
      | RunCtrl \<Rightarrow> StartCtrlTask_iter s
      | RunTx \<Rightarrow> StartTxTask_iter s
      | RunHeartbeat \<Rightarrow> StartHeartbeatTask_iter s)"

subsection \<open>Commands in terms of bytes\<close>

lemma channel_offset_bound [simp]: "(4 :: u32) \<le> ucast (ch :: u8) \<longleftrightarrow> 4 \<le> ch"
proof -
  have "take_bit 32 (unat ch) = unat ch"
    using unat_u8_less [of ch] by (simp add: take_bit_nat_eq_self_iff)
  then show ?thesis by (simp add: word_le_nat_alt unsigned_ucast_eq)
qed

lemma channel_offset_index [simp]: "ucast (ucast (ch :: u8) :: u32) = ch"
  by (rule bit_word_eqI) (simp add: bit_ucast_iff)

definition count_bad_channel :: "u8 \<Rightarrow> master \<Rightarrow> master" where
  "count_bad_channel ch = upd_stats (\<lambda>t. t\<lparr> stat_bad_channel := stat_bad_channel t + 1,
     stat_last_bad_channel := ucast ch \<rparr>)"

text \<open>The level a command asks for: 0, 1 or 2 as sent, anything else read as none.\<close>

definition level_of :: "u8 \<Rightarrow> u8" where
  "level_of r = (if r = 1 \<or> r = 2 then r else 0)"

lemma level_of_le2 [simp]: "level_of r \<le> 2"
  by (simp add: level_of_def)

text \<open>The new control block of the addressed channel.\<close>

definition ctrl_after :: "u32 \<Rightarrow> u8 \<Rightarrow> channel_ctrl_t \<Rightarrow> channel_ctrl_t" where
  "ctrl_after t r c =
     (if r = desired_risk c then c
      else if r = applied_risk c then c\<lparr> lat_pending := 0, desired_risk := r \<rparr>
      else c\<lparr> desired_tick := t, lat_risk := r, lat_pending := 1, desired_risk := r \<rparr>)"

lemma desired_risk_same: "r = desired_risk c \<Longrightarrow> c\<lparr> desired_risk := r \<rparr> = c"
  by (cases c) simp

lemma ctrl_after_fields [simp]:
  "desired_risk (ctrl_after t r c) = r" "applied_risk (ctrl_after t r c) = applied_risk c"
  "last_tx_tick (ctrl_after t r c) = last_tx_tick c" "retry (ctrl_after t r c) = retry c"
  by (simp_all add: ctrl_after_def)

lemma ctrl_event_bad_channel: "4 \<le> ev_channel_id e \<Longrightarrow> ctrl_event e s = count_bad_channel (ev_channel_id e) s"
  by (simp add: ctrl_event_def count_bad_channel_def)

lemma ctrl_event_ctrl:
  assumes "ev_channel_id e < 4" "length (channel_ctrl s) = 4"
  shows "channel_ctrl (ctrl_event e s) = (channel_ctrl s)[unat (ev_channel_id e) :=
     ctrl_after (now s) (level_of (ev_risk_level e)) (channel_ctrl s ! unat (ev_channel_id e))]"
proof -
  define i where "i = unat (ev_channel_id e)"
  define r where "r = level_of (ev_risk_level e)"
  define c where "c = channel_ctrl s ! i"
  have i: "i < length (channel_ctrl s)" using assms by (simp add: word_less_nat_alt i_def)
  have in_range: "\<not> 4 \<le> ev_channel_id e" using assms(1) by simp
  have r: "cs_risk_level (risk_to_status (ev_risk_level e)) = r"
    by (simp add: level_of_def r_def)
  consider "r = desired_risk c" | "r \<noteq> desired_risk c" "r = applied_risk c"
    | "r \<noteq> desired_risk c" "r \<noteq> applied_risk c" by blast
  then have "channel_ctrl (ctrl_event e s) = (channel_ctrl s)[i := ctrl_after (now s) r c]"
  proof cases
    case 1
    with in_range r show ?thesis
      by (simp add: ctrl_event_def Let_def ctrl_def ctrl_after_def desired_risk_same
          if_distrib [of channel_ctrl] i c_def flip: i_def del: risk_to_status_risk)
  next
    case 2
    with in_range r i show ?thesis
      by (simp add: ctrl_event_def Let_def ctrl_def ctrl_after_def
          if_distrib [of channel_ctrl] c_def flip: i_def del: risk_to_status_risk)
  next
    case 3
    with in_range r i show ?thesis
      by (simp add: ctrl_event_def Let_def ctrl_def ctrl_after_def osKernelGetTickCount_def
          if_distrib [of channel_ctrl] if_distrib [of now] c_def flip: i_def
          del: risk_to_status_risk)
  qed
  then show ?thesis by (simp add: i_def r_def c_def)
qed

lemma ctrl_event_frame [frame_simps]:
  "channel_status (ctrl_event e s) = channel_status s"
  "ack_queue (ctrl_event e s) = ack_queue s" "uplink_queue (ctrl_event e s) = uplink_queue s"
  "cmd_queue (ctrl_event e s) = cmd_queue s" "rpi_rx_queue (ctrl_event e s) = rpi_rx_queue s"
  "sched_cursor (ctrl_event e s) = sched_cursor s" "now (ctrl_event e s) = now s"
  "out (ctrl_event e s) = out s" "agenda (ctrl_event e s) = agenda s"
  "ack_line (ctrl_event e s) = ack_line s" "ack_line_length (ctrl_event e s) = ack_line_length s"
  "ack_line_overflow (ctrl_event e s) = ack_line_overflow s"
  "downlink_state (ctrl_event e s) = downlink_state s"
  "downlink_payload (ctrl_event e s) = downlink_payload s"
  "downlink_payload_index (ctrl_event e s) = downlink_payload_index s"
  by (simp_all add: ctrl_event_def Let_def)

end
