(* ===== verification/Master_Invariant.thy ===== *)
theory Master_Invariant
  imports Master_Tasks
begin

text \<open>The invariant of the master's global state, and its preservation by every interrupt and by
  every turn of the receive, control, transmit and heartbeat tasks. The honesty part says that what
  the master reports about a channel is exactly what a slave confirmed; the frame lemma says that
  none of these steps touches what only the scheduler may change.\<close>

definition queues_wf :: "master \<Rightarrow> bool" where
  "queues_wf s \<longleftrightarrow> wf_queue (rpi_rx_queue s) \<and> uxLength (rpi_rx_queue s) = RPI_RX_QUEUE_DEPTH
     \<and> wf_queue (cmd_queue s) \<and> uxLength (cmd_queue s) = CMD_QUEUE_DEPTH
     \<and> wf_queue (uplink_queue s) \<and> uxLength (uplink_queue s) = UPLINK_QUEUE_DEPTH
     \<and> wf_queue (ack_queue s) \<and> uxLength (ack_queue s) = ACK_QUEUE_DEPTH"

definition channels_wf :: "master \<Rightarrow> bool" where
  "channels_wf s \<longleftrightarrow> length (channel_status s) = 4 \<and> length (channel_ctrl s) = 4
     \<and> (\<forall>i<4. desired_risk (channel_ctrl s ! i) \<le> 2)
     \<and> (\<forall>i<4. honest_channel (channel_ctrl s ! i) (channel_status s ! i))"

definition master_wf :: "master \<Rightarrow> bool" where
  "master_wf s \<longleftrightarrow> queues_wf s \<and> channels_wf s \<and> dl_wf s \<and> ack_line_wf s \<and> sched_cursor s < 4
     \<and> (\<forall>a\<in>set (q_items (ack_queue s)). valid_ack a)"

lemmas master_wf_defs = master_wf_def queues_wf_def channels_wf_def dl_wf_def ack_line_wf_def

text \<open>What only the scheduler task writes.\<close>

definition sched_fields :: "channel_ctrl_t \<Rightarrow> u8 \<times> u32 \<times> u16" where
  "sched_fields c = (applied_risk c, last_tx_tick c, retry c)"

definition sched_view :: "master \<Rightarrow> (u8 \<times> u32 \<times> u16) list \<times> channel_status_t list \<times> u8 \<times> u32 \<times> (nat \<times> stimulus) list" where
  "sched_view s = (map sched_fields (channel_ctrl s), channel_status s, sched_cursor s, now s, agenda s)"

subsection \<open>Frames of the single operations\<close>

lemma downlink_feed_byte_frame [frame_simps]:
  "channel_status (snd (downlink_feed_byte b s)) = channel_status s"
  "channel_ctrl (snd (downlink_feed_byte b s)) = channel_ctrl s"
  "rpi_rx_queue (snd (downlink_feed_byte b s)) = rpi_rx_queue s"
  "cmd_queue (snd (downlink_feed_byte b s)) = cmd_queue s"
  "uplink_queue (snd (downlink_feed_byte b s)) = uplink_queue s"
  "ack_queue (snd (downlink_feed_byte b s)) = ack_queue s"
  "ack_line (snd (downlink_feed_byte b s)) = ack_line s"
  "ack_line_length (snd (downlink_feed_byte b s)) = ack_line_length s"
  "ack_line_overflow (snd (downlink_feed_byte b s)) = ack_line_overflow s"
  "sched_cursor (snd (downlink_feed_byte b s)) = sched_cursor s"
  "now (snd (downlink_feed_byte b s)) = now s"
  "agenda (snd (downlink_feed_byte b s)) = agenda s"
  "out (snd (downlink_feed_byte b s)) = out s"
  by (cases "downlink_state s";
      simp add: downlink_feed_byte_def Let_def count_frames_bad_def)+

lemma ack_feed_byte_frame [frame_simps]:
  "channel_status (ack_feed_byte b s) = channel_status s"
  "channel_ctrl (ack_feed_byte b s) = channel_ctrl s"
  "rpi_rx_queue (ack_feed_byte b s) = rpi_rx_queue s"
  "cmd_queue (ack_feed_byte b s) = cmd_queue s"
  "uplink_queue (ack_feed_byte b s) = uplink_queue s"
  "downlink_state (ack_feed_byte b s) = downlink_state s"
  "downlink_payload (ack_feed_byte b s) = downlink_payload s"
  "downlink_payload_index (ack_feed_byte b s) = downlink_payload_index s"
  "sched_cursor (ack_feed_byte b s) = sched_cursor s"
  "now (ack_feed_byte b s) = now s"
  "agenda (ack_feed_byte b s) = agenda s"
  "out (ack_feed_byte b s) = out s"
  by (simp_all add: ack_feed_byte_def ack_feed_line_def ack_queue_put_def count_ack_bad_def Let_def)

text \<open>The ACK interrupt adds at most one well-formed acknowledgement to the queue.\<close>

lemma ack_line_act_queue:
  assumes "length l \<le> 16"
  shows "ack_queue (ack_line_act l s) = ack_queue s
     \<or> (\<exists>a. valid_ack a \<and> parse_ack l = Some a \<and> ack_queue (ack_line_act l s) = snd (rtos_put a (ack_queue s)))"
  using assms
  by (auto simp: ack_feed_line_parse count_ack_bad_def ack_accept_def ack_queue_put_def parse_ack_iff
      osMessageQueuePut_ISR_eq osMessageQueuePut_rtos split: option.splits)

lemma ack_feed_byte_queue:
  assumes "ack_line_wf s"
  shows "ack_queue (ack_feed_byte b s) = ack_queue s
     \<or> (\<exists>a. valid_ack a \<and> ack_queue (ack_feed_byte b s) = snd (rtos_put a (ack_queue s)))"
proof -
  have "length (fst (ack_line_view s)) \<le> 16"
    using assms by (simp add: ack_line_view_def ack_line_wf_def word_le_nat_alt)
  then show ?thesis
    using ack_line_act_queue [of "fst (ack_line_view s)" s]
    by (auto simp: ack_feed_byte_cases [OF assms])
qed

lemma ack_queue_put_items:
  assumes "wf_queue q" "\<forall>a\<in>set (q_items q). P a" "P a"
  shows "\<forall>a\<in>set (q_items (snd (rtos_put a q))). P a"
  using assms by (auto simp: ring.put_items)

lemma ack_feed_byte_wf [wf_intros]:
  assumes "master_wf s"
  shows "master_wf (ack_feed_byte b s)"
proof -
  have line: "ack_line_wf s" and wf: "wf_queue (ack_queue s)"
    using assms by (auto simp: master_wf_def queues_wf_def)
  have line': "ack_line_wf (ack_feed_byte b s)" using ack_asm.feed_ok [OF line] .
  have q: "wf_queue (ack_queue (ack_feed_byte b s))
      \<and> uxLength (ack_queue (ack_feed_byte b s)) = uxLength (ack_queue s)
      \<and> (\<forall>a\<in>set (q_items (ack_queue (ack_feed_byte b s))). valid_ack a)"
    using ack_feed_byte_queue [OF line, of b] assms wf ring.put_ok [OF wf] ring.put_cap [of _ "ack_queue s"]
      ack_queue_put_items [OF wf, of valid_ack]
    by (auto simp: master_wf_def)
  show ?thesis
    using assms line' q
    by (simp add: master_wf_def queues_wf_def channels_wf_def dl_wf_def frame_simps)
qed

subsection \<open>Bytes and errors from the Raspberry Pi\<close>

lemma rpi_put_unfold:
  "veda_downlink_queue_put_from_isr b s =
     (let r = rtos_put b (rpi_rx_queue s) in (of_flag (fst r), s\<lparr> rpi_rx_queue := snd r \<rparr>))"
  by (simp add: veda_downlink_queue_put_from_isr_def osMessageQueuePut_ISR_eq osMessageQueuePut_rtos
      Let_def)

lemma rpi_byte_wf:
  assumes "master_wf s"
  shows "master_wf (HAL_UART_RxCpltCallback USART6 b s)"
proof -
  have q: "wf_queue (rpi_rx_queue s)" using assms by (simp add: master_wf_def queues_wf_def)
  show ?thesis
    using assms ring.put_ok [OF q, of b] ring.put_cap [of b "rpi_rx_queue s"]
    by (simp add: HAL_UART_RxCpltCallback_def rpi_put_unfold Let_def master_wf_defs)
qed

lemma rs485_error_wf: "master_wf s \<Longrightarrow> master_wf (veda_rs485_ack_line_reset s)"
  by (simp add: veda_rs485_ack_line_reset_def master_wf_defs)

subsection \<open>The receive task\<close>

lemma cmd_put_unfold:
  "veda_tasks_cmd_put e s =
     (let r = rtos_put e (cmd_queue s) in (of_flag (fst r), s\<lparr> cmd_queue := snd r \<rparr>))"
  by (simp add: veda_tasks_cmd_put_def osMessageQueuePut_rtos Let_def)

lemma rx_queue_get_wf:
  assumes "master_wf s"
  shows "master_wf (snd (veda_downlink_queue_get s))"
proof -
  have q: "wf_queue (rpi_rx_queue s)" using assms by (simp add: master_wf_def queues_wf_def)
  show ?thesis
    using assms ring.get_ok [OF q] ring.get_cap [of "rpi_rx_queue s"]
    by (simp add: veda_downlink_queue_get_def split_def Let_def master_wf_defs)
qed

lemma downlink_feed_byte_wf:
  assumes "master_wf s"
  shows "master_wf (snd (downlink_feed_byte b s))"
  using assms dl_wf_feed [of s b]
  by (simp add: master_wf_def queues_wf_def channels_wf_def ack_line_wf_def frame_simps)

lemma cmd_put_wf:
  assumes "master_wf s"
  shows "master_wf (snd (veda_tasks_cmd_put e s))"
proof -
  have q: "wf_queue (cmd_queue s)" using assms by (simp add: master_wf_def queues_wf_def)
  show ?thesis
    using assms ring.put_ok [OF q, of e] ring.put_cap [of e "cmd_queue s"]
    by (simp add: cmd_put_unfold Let_def master_wf_defs)
qed

lemma upd_stats_wf [simp]: "master_wf (upd_stats f s) = master_wf s"
  by (simp add: master_wf_defs)

lemma emit_wf [simp]: "master_wf (emit x s) = master_wf s"
  by (simp add: master_wf_defs)

lemma last_downlink_tick_wf [simp]: "master_wf (s\<lparr> last_downlink_tick := t \<rparr>) = master_wf s"
  by (simp add: master_wf_defs)

lemma resync_wf: "master_wf s \<Longrightarrow> master_wf (veda_downlink_resync s)"
  by (simp add: veda_downlink_resync_def count_frames_bad_def master_wf_defs)

lemma StartRxTask_iter_wf [wf_intros]:
  assumes "master_wf s"
  shows "master_wf (StartRxTask_iter s)"
proof -
  have g: "master_wf (snd (veda_downlink_queue_get s))" using assms by (rule rx_queue_get_wf)
  show ?thesis
    by (auto simp: StartRxTask_iter_def split_def Let_def g
        intro!: resync_wf downlink_feed_byte_wf cmd_put_wf split: option.splits)
qed

subsection \<open>The control task\<close>

lemma ctrl_event_wf [wf_intros]:
  assumes "master_wf s"
  shows "master_wf (ctrl_event e s)"
proof (cases "4 \<le> ev_channel_id e")
  case True
  then show ?thesis using assms by (simp add: ctrl_event_bad_channel count_bad_channel_def)
next
  case False
  then have ch: "ev_channel_id e < 4" "unat (ev_channel_id e) < 4"
    by (simp_all add: word_less_nat_alt word_le_nat_alt)
  have cw: "channels_wf s" using assms by (simp add: master_wf_def)
  then have "channels_wf (ctrl_event e s)"
    using ch by (auto simp: channels_wf_def ctrl_event_ctrl frame_simps nth_list_update
        honest_channel_def)
  then show ?thesis
    using assms by (simp add: master_wf_def queues_wf_def dl_wf_def ack_line_wf_def frame_simps)
qed

lemma StartCtrlTask_iter_wf [wf_intros]:
  assumes "master_wf s"
  shows "master_wf (StartCtrlTask_iter s)"
proof -
  have q: "wf_queue (cmd_queue s)" using assms by (simp add: master_wf_def queues_wf_def)
  have "master_wf (s\<lparr> cmd_queue := snd (osMessageQueueGet (cmd_queue s)) \<rparr>)"
    using assms ring.get_ok [OF q] ring.get_cap [of "cmd_queue s"]
    by (simp add: master_wf_defs)
  then show ?thesis
    by (auto simp: StartCtrlTask_iter_def split_def Let_def intro: ctrl_event_wf split: option.splits)
qed

subsection \<open>The transmit and heartbeat tasks\<close>

lemma HAL_UART_Transmit_frame [frame_simps]:
  "channel_status (snd (HAL_UART_Transmit u bs t s)) = channel_status s"
  "channel_ctrl (snd (HAL_UART_Transmit u bs t s)) = channel_ctrl s"
  "rpi_rx_queue (snd (HAL_UART_Transmit u bs t s)) = rpi_rx_queue s"
  "cmd_queue (snd (HAL_UART_Transmit u bs t s)) = cmd_queue s"
  "uplink_queue (snd (HAL_UART_Transmit u bs t s)) = uplink_queue s"
  "ack_queue (snd (HAL_UART_Transmit u bs t s)) = ack_queue s"
  "ack_line (snd (HAL_UART_Transmit u bs t s)) = ack_line s"
  "ack_line_length (snd (HAL_UART_Transmit u bs t s)) = ack_line_length s"
  "ack_line_overflow (snd (HAL_UART_Transmit u bs t s)) = ack_line_overflow s"
  "downlink_state (snd (HAL_UART_Transmit u bs t s)) = downlink_state s"
  "downlink_payload (snd (HAL_UART_Transmit u bs t s)) = downlink_payload s"
  "downlink_payload_index (snd (HAL_UART_Transmit u bs t s)) = downlink_payload_index s"
  "sched_cursor (snd (HAL_UART_Transmit u bs t s)) = sched_cursor s"
  "agenda (snd (HAL_UART_Transmit u bs t s)) = agenda s"
  "stats (snd (HAL_UART_Transmit u bs t s)) = stats s"
  "now (snd (HAL_UART_Transmit u bs t s)) = now s"
  "out (snd (HAL_UART_Transmit u bs t s)) =
     out s @ [UartTx u bs t (fst (HAL_UART_Transmit u bs t s))]"
  by (simp_all add: HAL_UART_Transmit_def emit_def pass_time_def split: list.split)

lemma uplink_send_frame [frame_simps]:
  "channel_status (uplink_send p s) = channel_status s"
  "channel_ctrl (uplink_send p s) = channel_ctrl s"
  "rpi_rx_queue (uplink_send p s) = rpi_rx_queue s" "cmd_queue (uplink_send p s) = cmd_queue s"
  "uplink_queue (uplink_send p s) = uplink_queue s" "ack_queue (uplink_send p s) = ack_queue s"
  "ack_line (uplink_send p s) = ack_line s" "ack_line_length (uplink_send p s) = ack_line_length s"
  "ack_line_overflow (uplink_send p s) = ack_line_overflow s"
  "downlink_state (uplink_send p s) = downlink_state s"
  "downlink_payload (uplink_send p s) = downlink_payload s"
  "downlink_payload_index (uplink_send p s) = downlink_payload_index s"
  "sched_cursor (uplink_send p s) = sched_cursor s" "agenda (uplink_send p s) = agenda s"
  "now (uplink_send p s) = now s"
  by (simp_all add: uplink_send_def Let_def split_def frame_simps)

lemma StartTxTask_iter_wf [wf_intros]:
  assumes "master_wf s"
  shows "master_wf (StartTxTask_iter s)"
proof -
  have q: "wf_queue (uplink_queue s)" using assms by (simp add: master_wf_def queues_wf_def)
  show ?thesis
    using assms ring.get_ok [OF q] ring.get_cap [of "uplink_queue s"]
    by (simp add: StartTxTask_iter_def veda_uplink_queue_get_def split_def Let_def master_wf_defs frame_simps split: option.split)
qed

lemma enqueue_uplink_wf [wf_intros]:
  assumes "master_wf s"
  shows "master_wf (enqueue_uplink ch reason s)"
proof -
  have q: "wf_queue (uplink_queue s)" using assms by (simp add: master_wf_def queues_wf_def)
  show ?thesis
    using assms enqueue_uplink_items(1,3) [OF q, of ch reason]
    by (simp add: master_wf_defs frame_simps)
qed

lemma StartHeartbeatTask_iter_unfold:
  "StartHeartbeatTask_iter s =
     enqueue_uplink 3 1 (enqueue_uplink 2 1 (enqueue_uplink 1 1 (enqueue_uplink 0 1 s)))"
  by (simp add: StartHeartbeatTask_iter_def upt_0_4)

lemma StartHeartbeatTask_iter_wf [wf_intros]:
  "master_wf s \<Longrightarrow> master_wf (StartHeartbeatTask_iter s)"
  by (simp add: StartHeartbeatTask_iter_unfold enqueue_uplink_wf)

subsection \<open>All of them\<close>

lemma run_input_wf [wf_intros]: "master_wf s \<Longrightarrow> master_wf (run_input i s)"
  by (cases i)
    (auto simp: run_input_def HAL_UART_ErrorCallback_def rpi_byte_wf rs485_error_wf
      HAL_UART_RxCpltCallback_def [of USART1] intro: wf_intros)

subsection \<open>What belongs to the scheduler\<close>

lemma ctrl_event_sched_fields:
  "map sched_fields (channel_ctrl (ctrl_event e s)) = map sched_fields (channel_ctrl s)"
  if "length (channel_ctrl s) = 4"
proof (cases "4 \<le> ev_channel_id e")
  case True
  then show ?thesis by (simp add: ctrl_event_bad_channel count_bad_channel_def)
next
  case False
  then have "ev_channel_id e < 4" by simp
  moreover have "sched_fields (ctrl_after t r c) = sched_fields c" for t r c
    by (simp add: sched_fields_def)
  ultimately show ?thesis
    using that by (simp add: ctrl_event_ctrl map_update) (metis list_update_id map_update)
qed

lemma run_input_sched_view:
  assumes "master_wf s"
  shows "sched_view (run_input i s) = sched_view s"
proof -
  have len: "length (channel_ctrl s) = 4" using assms by (simp add: master_wf_def channels_wf_def)
  show ?thesis
  proof (cases i)
    case (RpiByte b)
    then show ?thesis
      by (simp add: run_input_def HAL_UART_RxCpltCallback_def rpi_put_unfold Let_def sched_view_def)
  next
    case (Rs485Byte b)
    then show ?thesis
      by (simp add: run_input_def HAL_UART_RxCpltCallback_def sched_view_def frame_simps)
  next
    case RunRx
    then show ?thesis
      by (simp add: run_input_def StartRxTask_iter_def veda_downlink_queue_get_def split_def Let_def
          sched_view_def frame_simps cmd_put_unfold veda_downlink_resync_def count_frames_bad_def
          split: option.split)
  next
    case RunCtrl
    have "sched_view (ctrl_event e s') = sched_view s'" if "length (channel_ctrl s') = 4" for e s'
      using that by (simp add: sched_view_def ctrl_event_sched_fields frame_simps)
    then have "sched_view (ctrl_event e (s\<lparr> cmd_queue := q \<rparr>)) = sched_view s" for e q
      using len by (simp add: sched_view_def)
    then show ?thesis
      using RunCtrl
      by (simp add: run_input_def StartCtrlTask_iter_def split_def Let_def split: option.split)
        (simp add: sched_view_def)
  next
    case RunTx
    then show ?thesis
      by (simp add: run_input_def StartTxTask_iter_def veda_uplink_queue_get_def split_def Let_def
          sched_view_def frame_simps split: option.split)
  next
    case RunHeartbeat
    then show ?thesis
      by (simp add: run_input_def StartHeartbeatTask_iter_unfold sched_view_def frame_simps)
  qed (simp_all add: run_input_def HAL_UART_ErrorCallback_def sched_view_def
      veda_rs485_ack_line_reset_def)
qed

lemma run_input_now: "master_wf s \<Longrightarrow> now (run_input i s) = now s"
  and run_input_agenda: "master_wf s \<Longrightarrow> agenda (run_input i s) = agenda s"
  and run_input_status: "master_wf s \<Longrightarrow> channel_status (run_input i s) = channel_status s"
  and run_input_cursor: "master_wf s \<Longrightarrow> sched_cursor (run_input i s) = sched_cursor s"
  using run_input_sched_view [of s i] by (simp_all add: sched_view_def)

text \<open>One input puts at most one acknowledgement into the queue.\<close>

lemma rtos_put_waiting: "uxMessagesWaiting (snd (rtos_put x q)) \<le> Suc (uxMessagesWaiting q)"
  by (simp add: rtos_put_def osMessageQueuePut_def xQueueGenericSend_def prvCopyDataToQueue_def Let_def)

lemma run_input_ack_waiting:
  "uxMessagesWaiting (ack_queue (run_input i s)) \<le> Suc (uxMessagesWaiting (ack_queue s))"
proof (cases i)
  case (Rs485Byte b)
  have "uxMessagesWaiting (ack_queue (ack_feed_byte b s)) \<le> Suc (uxMessagesWaiting (ack_queue s))"
    using rtos_put_waiting [of _ "ack_queue s"]
    by (simp add: ack_feed_byte_def ack_feed_line_def ack_queue_put_def count_ack_bad_def Let_def
        osMessageQueuePut_ISR_eq osMessageQueuePut_rtos)
  then show ?thesis by (simp add: Rs485Byte run_input_def HAL_UART_RxCpltCallback_def)
qed (simp_all add: run_input_def HAL_UART_ErrorCallback_def HAL_UART_RxCpltCallback_def rpi_put_unfold
    Let_def veda_rs485_ack_line_reset_def StartRxTask_iter_def StartCtrlTask_iter_def
    StartTxTask_iter_def StartHeartbeatTask_iter_unfold veda_downlink_queue_get_def
    veda_uplink_queue_get_def split_def frame_simps cmd_put_unfold veda_downlink_resync_def
    count_frames_bad_def split: option.split)

end
