(* ===== verification/Master_Sched.thy ===== *)
theory Master_Sched
  imports Master_Invariant
begin

text \<open>The scheduler task: ack_match.inc, sched_select.inc, sched_dispatch.inc and veda_sched.c, with the
  transmission of a command on the bus (veda_rs485.c). While
  the task is blocked the rest of the system goes on, so a blocking receive consumes the agenda:
  every interrupt or task turn that happens before the timeout is performed, until an
  acknowledgement is in the queue. The wait for an acknowledgement terminates because each round
  takes one out of a finite supply; that measure is proved, not assumed.\<close>

subsection \<open>Blocking\<close>

text \<open>Block for at most \<open>n\<close> milliseconds, or until an acknowledgement arrives.\<close>

fun ack_block :: "(nat \<times> stimulus) list \<Rightarrow> nat \<Rightarrow> master \<Rightarrow> master" where
  "ack_block [] n s = pass_time n (s\<lparr> agenda := [] \<rparr>)"
| "ack_block ((d, i) # rest) n s =
     (if d < n then
        (let s1 = run_input i (pass_time d (s\<lparr> agenda := rest \<rparr>))
         in if uxMessagesWaiting (ack_queue s1) > 0 then s1 else ack_block rest (n - d) s1)
      else pass_time n (s\<lparr> agenda := (d - n, i) # rest \<rparr>))"

definition ack_queue_take :: "u32 \<Rightarrow> master \<Rightarrow> rs485_ack_t option \<times> master" where
  "ack_queue_take timeout_ms s =
     (if uxMessagesWaiting (ack_queue s) > 0 \<or> timeout_ms = 0 then ack_queue_poll s
      else ack_queue_poll (ack_block (agenda s) (unat timeout_ms) s))"

text \<open>Sleep for \<open>n\<close> milliseconds whatever happens, and the CMSIS delay built on it: a wake time that
  has passed, as a signed difference, does not sleep at all.\<close>

fun idle :: "(nat \<times> stimulus) list \<Rightarrow> nat \<Rightarrow> master \<Rightarrow> master" where
  "idle [] n s = pass_time n (s\<lparr> agenda := [] \<rparr>)"
| "idle ((d, i) # rest) n s =
     (if d < n then idle rest (n - d) (run_input i (pass_time d (s\<lparr> agenda := rest \<rparr>)))
      else pass_time n (s\<lparr> agenda := (d - n, i) # rest \<rparr>))"

definition osDelayUntil :: "u32 \<Rightarrow> master \<Rightarrow> master" where
  "osDelayUntil ticks s =
     (let delay = ticks - osKernelGetTickCount s
      in if delay \<noteq> 0 \<and> drop_bit 31 delay = 0 then idle (agenda s) (unat delay) s else s)"

text \<open>A command goes out with the driver-enable pin held high. The task polls until the driver is done,
  with interrupts enabled, so that whatever the agenda holds for that time happens meanwhile.\<close>

definition send_channel_command :: "u8 \<Rightarrow> u8 \<Rightarrow> master \<Rightarrow> u8 \<times> master" where
  "send_channel_command channel_index risk_level s =
     (let s1 = emit (PinWrite RS485_DE_Pin True) s;
          duration = tx_duration s1;
          (status, s2) = HAL_UART_Transmit USART1 (command_frame channel_index risk_level)
                           RS485_TX_TIMEOUT_MSEC s1;
          s3 = idle (agenda s2) duration s2;
          s4 = emit (PinWrite RS485_DE_Pin False) s3
      in (of_flag (status = HAL_OK), s4))"

subsection \<open>The supply of acknowledgements\<close>

text \<open>Acknowledgements in the queue plus inputs still to come bound what can ever be taken.\<close>

definition ack_supply :: "master \<Rightarrow> nat" where
  "ack_supply s = uxMessagesWaiting (ack_queue s) + length (agenda s)"

lemma ack_queue_poll_simps [simp]:
  "agenda (snd (ack_queue_poll s)) = agenda s" "now (snd (ack_queue_poll s)) = now s"
  by (simp_all add: ack_queue_poll_def split_def Let_def)

lemma xQueueReceive_waiting:
  "uxMessagesWaiting (snd (osMessageQueueGet q)) = uxMessagesWaiting q - 1"
  by (simp add: osMessageQueueGet_def xQueueReceive_def split_def Let_def)

lemma xQueueReceive_some: "fst (osMessageQueueGet q) = Some x \<Longrightarrow> 0 < uxMessagesWaiting q"
  by (auto simp: osMessageQueueGet_def xQueueReceive_def split: if_splits)

lemma ack_queue_poll_supply:
  "fst (ack_queue_poll s) = Some a \<Longrightarrow> ack_supply (snd (ack_queue_poll s)) < ack_supply s"
  using xQueueReceive_some [of "ack_queue s" a]
  by (simp add: ack_queue_poll_def split_def Let_def ack_supply_def xQueueReceive_waiting)

text \<open>These hold of any state, well-formed or not, so that the loops below are total.\<close>

definition run_input_keeps :: "stimulus \<Rightarrow> master \<Rightarrow> bool" where
  "run_input_keeps i s \<longleftrightarrow> agenda (run_input i s) = agenda s \<and> now (run_input i s) = now s"

lemma run_input_keeps [simp]: "run_input_keeps i s"
  by (cases i)
    (simp_all add: run_input_keeps_def run_input_def HAL_UART_ErrorCallback_def
      HAL_UART_RxCpltCallback_def rpi_put_unfold Let_def veda_rs485_ack_line_reset_def
      StartRxTask_iter_def StartCtrlTask_iter_def StartTxTask_iter_def
      StartHeartbeatTask_iter_unfold veda_downlink_queue_get_def veda_uplink_queue_get_def split_def
      frame_simps cmd_put_unfold veda_downlink_resync_def count_frames_bad_def split: option.split)

lemma run_input_agenda_any [simp]: "agenda (run_input i s) = agenda s"
  and run_input_now_any [simp]: "now (run_input i s) = now s"
  using run_input_keeps [of i s] unfolding run_input_keeps_def by auto

lemma pass_time_simps [simp]:
  "agenda (pass_time n s) = agenda s" "ack_queue (pass_time n s) = ack_queue s"
  "now (pass_time n s) = now s + word_of_nat n"
  "channel_ctrl (pass_time n s) = channel_ctrl s" "channel_status (pass_time n s) = channel_status s"
  by (simp_all add: pass_time_def)

lemma ack_block_supply:
  assumes "uxMessagesWaiting (ack_queue s) = 0"
  shows "ack_supply (ack_block ag n s) \<le> length ag"
  using assms
proof (induction ag n s rule: ack_block.induct)
  case (2 d i rest n s)
  let ?s = "run_input i (pass_time d (s\<lparr> agenda := rest \<rparr>))"
  have "uxMessagesWaiting (ack_queue ?s) \<le> 1"
    using run_input_ack_waiting [of i "pass_time d (s\<lparr> agenda := rest \<rparr>)"] 2 by simp
  then show ?case
    using 2 by (auto simp: Let_def ack_supply_def)
qed (simp add: ack_supply_def)

lemma ack_queue_take_supply:
  assumes "fst (ack_queue_take t s) = Some a"
  shows "ack_supply (snd (ack_queue_take t s)) < ack_supply s"
proof (cases "uxMessagesWaiting (ack_queue s) > 0 \<or> t = 0")
  case True
  then show ?thesis using assms ack_queue_poll_supply [of s a] by (simp add: ack_queue_take_def)
next
  case False
  let ?s = "ack_block (agenda s) (unat t) s"
  have "ack_supply ?s \<le> ack_supply s"
    using False ack_block_supply [of s "agenda s" "unat t"] by (simp add: ack_supply_def)
  moreover have "ack_supply (snd (ack_queue_poll ?s)) < ack_supply ?s"
    using assms False ack_queue_poll_supply [of ?s a] by (auto simp: ack_queue_take_def)
  ultimately show ?thesis using False by (auto simp: ack_queue_take_def)
qed

subsection \<open>ack_match.inc\<close>

lemma take_supply_pair: "ack_queue_take t s = (Some a, s1) \<Longrightarrow> ack_supply s1 < ack_supply s"
  using ack_queue_take_supply [of t s a] by simp

lemma ack_supply_upd_stats [simp]: "ack_supply (upd_stats f s) = ack_supply s"
  by (simp add: ack_supply_def)

function drain_ack_queue :: "master \<Rightarrow> master" where
  "drain_ack_queue s =
     (case ack_queue_take 0 s of
        (Some discarded, s1) \<Rightarrow> drain_ack_queue s1
      | (None, s1) \<Rightarrow> s1)"
  by pat_completeness auto

termination
  by (relation "measure ack_supply") (auto dest: take_supply_pair [OF sym] take_supply_pair)

definition count_ack_timeout :: "master \<Rightarrow> master" where
  "count_ack_timeout = upd_stats (\<lambda>t. t\<lparr> stat_ack_timeout := stat_ack_timeout t + 1 \<rparr>)"

definition count_ack_mismatch :: "master \<Rightarrow> master" where
  "count_ack_mismatch = upd_stats (\<lambda>t. t\<lparr> stat_ack_mismatch := stat_ack_mismatch t + 1 \<rparr>)"

text \<open>The body of the endless loop of \<open>wait_for_slave_ack\<close>.\<close>

function ack_wait_loop :: "u32 \<Rightarrow> u8 \<Rightarrow> u8 \<Rightarrow> master \<Rightarrow> u8 \<times> master" where
  "ack_wait_loop start expect_channel risk_level s =
     (let elapsed = ack_now_ms s - start
      in if elapsed \<ge> RS485_ACK_TIMEOUT_MSEC then (0, count_ack_timeout s)
         else
           (case ack_queue_take (RS485_ACK_TIMEOUT_MSEC - elapsed) s of
              (None, s1) \<Rightarrow> (0, count_ack_timeout s1)
            | (Some ack, s1) \<Rightarrow>
                (if ack_channel ack = expect_channel \<and> ack_risk_level ack = risk_level then (1, s1)
                 else ack_wait_loop start expect_channel risk_level (count_ack_mismatch s1))))"
  by pat_completeness auto

termination
  by (relation "measure (\<lambda>(start, ch, r, s). ack_supply s)")
    (auto simp: count_ack_mismatch_def dest: take_supply_pair [OF sym] take_supply_pair)

declare drain_ack_queue.simps [simp del] ack_wait_loop.simps [simp del]

definition wait_for_slave_ack :: "u8 \<Rightarrow> u8 \<Rightarrow> master \<Rightarrow> u8 \<times> master" where
  "wait_for_slave_ack channel_index risk_level s =
     ack_wait_loop (ack_now_ms s) (channel_index + 1) risk_level s"

subsection \<open>sched_select.inc\<close>

text \<open>The test one channel is put to, and the scan from the cursor on.\<close>

definition pick_test :: "u8 \<Rightarrow> u32 \<Rightarrow> channel_ctrl_t \<Rightarrow> bool" where
  "pick_test danger_only idle_ms c =
     (let want = desired_risk c
      in if want \<noteq> applied_risk c then
           (if retry c \<noteq> 0 \<and> idle_ms < SCHED_RETRY_BACKOFF_MSEC then False
            else danger_only = 0 \<or> want = VEDA_RISK_DANGER)
         else danger_only = 0 \<and> idle_ms \<ge> SCHED_REFRESH_MSEC)"

fun pick_pending_loop :: "nat \<Rightarrow> u8 \<Rightarrow> u8 \<Rightarrow> master \<Rightarrow> u8" where
  "pick_pending_loop 0 i danger_only s = SCHED_NO_CHANNEL"
| "pick_pending_loop (Suc left) i danger_only s =
     (let ch = (sched_cursor s + i) mod CHANNEL_COUNT;
          idle_ms = osKernelGetTickCount s - last_tx_tick (ctrl s ch)
      in if pick_test danger_only idle_ms (ctrl s ch) then ch
         else pick_pending_loop left (i + 1) danger_only s)"

definition pick_pending :: "u8 \<Rightarrow> master \<Rightarrow> u8" where
  "pick_pending danger_only s = pick_pending_loop (unat CHANNEL_COUNT) 0 danger_only s"

subsection \<open>sched_dispatch.inc\<close>

definition note_latency :: "u8 \<Rightarrow> u8 \<Rightarrow> master \<Rightarrow> master" where
  "note_latency channel_index risk_level s =
     (if lat_pending (ctrl s channel_index) \<noteq> 0 \<and> lat_risk (ctrl s channel_index) = risk_level then
        let lat = osKernelGetTickCount s - desired_tick (ctrl s channel_index);
            s1 = upd_ctrl channel_index (\<lambda>c. c\<lparr> lat_pending := 0 \<rparr>) s;
            s2 = (if lat > stat_lat_max (stats s1)
                  then upd_stats (\<lambda>t. t\<lparr> stat_lat_max := lat \<rparr>) s1 else s1)
        in if risk_level = VEDA_RISK_DANGER \<and> lat > stat_lat_danger_max (stats s2)
           then upd_stats (\<lambda>t. t\<lparr> stat_lat_danger_max := lat \<rparr>) s2 else s2
      else s)"

definition dispatch_success :: "u8 \<Rightarrow> u8 \<Rightarrow> master \<Rightarrow> master" where
  "dispatch_success channel_index risk_level s =
     (let s1 = upd_ctrl channel_index (\<lambda>c. c\<lparr> applied_risk := risk_level, retry := 0 \<rparr>) s;
          s2 = note_latency channel_index risk_level s1
      in s2\<lparr> channel_status := (channel_status s2)[unat channel_index := risk_to_status risk_level] \<rparr>)"

definition dispatch_failure :: "u8 \<Rightarrow> master \<Rightarrow> master" where
  "dispatch_failure channel_index s =
     upd_stats (\<lambda>t. t\<lparr> stat_sched_retry := stat_sched_retry t + 1 \<rparr>)
       (upd_ctrl channel_index (\<lambda>c. c\<lparr> retry := retry c + 1 \<rparr>) s)"

definition dispatch_exchange :: "u8 \<Rightarrow> u8 \<Rightarrow> master \<Rightarrow> u8 \<times> master" where
  "dispatch_exchange channel_index risk_level s =
     (let s1 = drain_ack_queue s;
          (ok, s2) = send_channel_command channel_index risk_level s1;
          s3 = (if ok = 0 then upd_stats (\<lambda>t. t\<lparr> stat_rs485_tx_fail := stat_rs485_tx_fail t + 1 \<rparr>) s2
                else s2)
      in if ok \<noteq> 0 then wait_for_slave_ack channel_index risk_level s3 else (ok, s3))"

definition dispatch_channel :: "u8 \<Rightarrow> u8 \<Rightarrow> u8 \<Rightarrow> master \<Rightarrow> master" where
  "dispatch_channel channel_index risk_level is_refresh s =
     (let (ok, s1) = dispatch_exchange channel_index risk_level s;
          s2 = upd_ctrl channel_index (\<lambda>c. c\<lparr> last_tx_tick := osKernelGetTickCount s1 \<rparr>) s1;
          s3 = (if ok \<noteq> 0 then dispatch_success channel_index risk_level s2
                else dispatch_failure channel_index s2)
      in if is_refresh = 0 then enqueue_uplink channel_index VEDA_UPLINK_REASON_ACK s3 else s3)"

definition sched_tick :: "master \<Rightarrow> master" where
  "sched_tick s =
     (let ch = pick_pending 1 s;
          ch = (if ch = SCHED_NO_CHANNEL then pick_pending 0 s else ch)
      in if ch = SCHED_NO_CHANNEL then s
         else
           let want = desired_risk (ctrl s ch);
               is_refresh = of_flag (want = applied_risk (ctrl s ch));
               s1 = (if is_refresh \<noteq> 0
                     then upd_stats (\<lambda>t. t\<lparr> stat_sched_refresh := stat_sched_refresh t + 1 \<rparr>) s
                     else s);
               s2 = s1\<lparr> sched_cursor := (ch + 1) mod CHANNEL_COUNT \<rparr>
           in dispatch_channel ch want is_refresh s2)"

subsection \<open>veda_sched.c\<close>

text \<open>Entering the task, and one turn of its loop; the wake-up tick is the task's local variable.\<close>

definition StartSchedTask_entry :: "master \<Rightarrow> u32 \<times> master" where
  "StartSchedTask_entry s = (osKernelGetTickCount s, veda_rs485_rx_arm (rs485_de_init s))"

definition StartSchedTask_iter :: "u32 \<times> master \<Rightarrow> u32 \<times> master" where
  "StartSchedTask_iter ts =
     (let (tick, s) = ts;
          tick = tick + SCHED_TICK_MSEC;
          s1 = osDelayUntil tick s;
          s2 = upd_stats (\<lambda>t. t\<lparr> stat_sched_ticks := stat_sched_ticks t + 1 \<rparr>) s1
      in (tick, sched_tick s2))"

end
