(* ===== verification/Sched_Facts.thy ===== *)
theory Sched_Facts
  imports Master_Sched
begin

text \<open>What the scheduler task guarantees: the invariant is preserved by a whole tick with everything
  that happens while it waits, only the dispatched channel's scheduling fields change and only on a
  confirmed exchange, a wait is over after at most 100 ms of a clock that may wrap, a confirmation
  implies a matching acknowledgement line on the bus, and the choice of the channel is the first
  eligible one in cyclic order with danger first.\<close>

subsection \<open>What waiting keeps\<close>

definition sched_core :: "master \<Rightarrow> (u8 \<times> u32 \<times> u16) list \<times> channel_status_t list \<times> u8" where
  "sched_core s = (map sched_fields (channel_ctrl s), channel_status s, sched_cursor s)"

lemma run_input_core: "master_wf s \<Longrightarrow> sched_core (run_input i s) = sched_core s"
  using run_input_sched_view [of s i] by (simp add: sched_core_def sched_view_def)

lemma agenda_wf [simp]: "master_wf (s\<lparr> agenda := ag \<rparr>) = master_wf s"
  by (simp add: master_wf_defs)

lemma pass_time_wf [simp]: "master_wf (pass_time n s) = master_wf s"
  by (simp add: master_wf_defs pass_time_def)

lemma agenda_core [simp]: "sched_core (s\<lparr> agenda := ag \<rparr>) = sched_core s"
  by (simp add: sched_core_def)

lemma pass_time_core [simp]: "sched_core (pass_time n s) = sched_core s"
  by (simp add: sched_core_def pass_time_def)

text \<open>\<open>later n s t\<close>: \<open>t\<close> is well-formed, has the same scheduling state as \<open>s\<close>, and is at most
  \<open>n\<close> milliseconds later.\<close>

definition later :: "nat \<Rightarrow> master \<Rightarrow> master \<Rightarrow> bool" where
  "later n s t \<longleftrightarrow> master_wf t \<and> sched_core t = sched_core s
     \<and> (\<exists>e\<le>n. now t = now s + word_of_nat e)"

lemma later_refl: "master_wf s \<Longrightarrow> later n s s"
  by (force simp: later_def)

lemma later_trans:
  assumes "later m s t" "later n t u"
  shows "later (m + n) s u"
proof -
  obtain e f where "e \<le> m" "now t = now s + word_of_nat e" "f \<le> n" "now u = now t + word_of_nat f"
    using assms by (auto simp: later_def)
  then have "e + f \<le> m + n" "now u = now s + word_of_nat (e + f)" by simp_all
  then show ?thesis using assms by (auto simp: later_def)
qed

lemma later_mono: "later m s t \<Longrightarrow> m \<le> n \<Longrightarrow> later n s t"
  unfolding later_def using le_trans by blast

lemma later_pass_time: "master_wf s \<Longrightarrow> later n s (pass_time n (s\<lparr> agenda := ag \<rparr>))"
  by (force simp: later_def)

lemma later_run_input:
  assumes "master_wf s"
  shows "later d s (run_input i (pass_time d (s\<lparr> agenda := ag \<rparr>)))"
  using assms run_input_wf [of "pass_time d (s\<lparr> agenda := ag \<rparr>)" i]
  by (force simp: later_def run_input_core)

lemma ack_block_later: "master_wf s \<Longrightarrow> later n s (ack_block ag n s)"
proof (induction ag n s rule: ack_block.induct)
  case (2 d i rest n s)
  let ?s = "run_input i (pass_time d (s\<lparr> agenda := rest \<rparr>))"
  have "later d s ?s" using later_run_input [OF 2(2)] .
  moreover have "\<lbrakk>d < n; \<not> 0 < uxMessagesWaiting (ack_queue ?s)\<rbrakk>
      \<Longrightarrow> later (n - d) ?s (ack_block rest (n - d) ?s)"
    using 2(1) [OF _ refl] calculation by (simp add: later_def)
  ultimately show ?case
    using 2(2) later_trans [of d s ?s "n - d"] later_mono [of d s ?s n] later_pass_time [of s n]
    by (auto simp: Let_def)
qed (simp add: later_pass_time)

lemma idle_later: "master_wf s \<Longrightarrow> later n s (idle ag n s)"
proof (induction ag n s rule: idle.induct)
  case (2 d i rest n s)
  let ?s = "run_input i (pass_time d (s\<lparr> agenda := rest \<rparr>))"
  have "later d s ?s" using later_run_input [OF 2(2)] .
  moreover have "d < n \<Longrightarrow> later (n - d) ?s (idle rest (n - d) ?s)"
    using 2(1) calculation by (simp add: later_def)
  ultimately show ?case
    using 2(2) later_trans [of d s ?s "n - d"] later_pass_time [of s n] by auto
qed (simp add: later_pass_time)

lemma emit_core [simp]: "sched_core (emit x s) = sched_core s"
  by (simp add: sched_core_def)

lemma emit_view [simp]: "ack_line_view (emit x s) = ack_line_view s"
  by (simp add: ack_line_view_def)

lemma ack_queue_poll_later:
  assumes "master_wf s"
  shows "later n s (snd (ack_queue_poll s))"
proof -
  have q: "wf_queue (ack_queue s)" using assms by (simp add: master_wf_defs)
  have "\<forall>a\<in>set (q_items (snd (osMessageQueueGet (ack_queue s)))). valid_ack a"
    using assms ring.get_items [OF q] by (auto simp: master_wf_def dest: list.set_sel(2) [rotated])
      (metis list.sel(2) list.set_sel(2))
  then have "master_wf (snd (ack_queue_poll s))"
    using assms ring.get_ok [OF q] ring.get_cap [of "ack_queue s"]
    by (simp add: ack_queue_poll_def split_def Let_def master_wf_defs)
  then show ?thesis
    by (force simp: later_def sched_core_def ack_queue_poll_def split_def Let_def)
qed

lemma ack_queue_take_later:
  assumes "master_wf s"
  shows "later (unat t) s (snd (ack_queue_take t s))"
proof (cases "uxMessagesWaiting (ack_queue s) > 0 \<or> t = 0")
  case True
  then show ?thesis using assms by (simp add: ack_queue_take_def ack_queue_poll_later)
next
  case False
  let ?s = "ack_block (agenda s) (unat t) s"
  have 1: "later (unat t) s ?s" using assms by (rule ack_block_later)
  then have "later 0 ?s (snd (ack_queue_poll ?s))"
    by (intro ack_queue_poll_later) (simp add: later_def)
  with 1 have "later (unat t + 0) s (snd (ack_queue_poll ?s))" by (rule later_trans)
  then show ?thesis using False by (simp add: ack_queue_take_def)
qed

lemma drain_later: "master_wf s \<Longrightarrow> later 0 s (drain_ack_queue s)"
proof (induction s rule: drain_ack_queue.induct)
  case (1 s)
  obtain r s1 where t: "ack_queue_take 0 s = (r, s1)" by (cases "ack_queue_take 0 s")
  have l: "later 0 s s1" using ack_queue_take_later [OF 1(2), of 0] t by simp
  show ?case
  proof (cases r)
    case None
    then show ?thesis using l t by (simp add: drain_ack_queue.simps [of s])
  next
    case (Some a)
    then have "later 0 s1 (drain_ack_queue s1)"
      using 1(1) [OF t [symmetric]] l by (simp add: later_def)
    then show ?thesis
      using later_trans [OF l] Some t by (fastforce simp: drain_ack_queue.simps [of s])
  qed
qed

lemma drain_empties: "master_wf s \<Longrightarrow> q_items (ack_queue (drain_ack_queue s)) = []"
proof (induction s rule: drain_ack_queue.induct)
  case (1 s)
  have q: "wf_queue (ack_queue s)" using 1(2) by (simp add: master_wf_defs)
  obtain r s1 where t: "ack_queue_take 0 s = (r, s1)" by (cases "ack_queue_take 0 s")
  have l: "later 0 s s1" using ack_queue_take_later [OF 1(2), of 0] t by simp
  show ?case
  proof (cases r)
    case None
    then have "q_items (ack_queue s) = []" "ack_queue s1 = snd (osMessageQueueGet (ack_queue s))"
      using t ring.get_none [OF q] by (auto simp: ack_queue_take_def ack_queue_poll_def split_def Let_def)
    then show ?thesis using t None ring.get_items [OF q] by (simp add: drain_ack_queue.simps [of s])
  next
    case (Some a)
    then show ?thesis
      using 1(1) [OF t [symmetric]] t l by (simp add: drain_ack_queue.simps [of s] later_def)
  qed
qed

subsection \<open>The wait is bounded, whatever the tick counter does\<close>

lemma count_mismatch_later: "master_wf s \<Longrightarrow> later n s (count_ack_mismatch s)"
  by (force simp: later_def count_ack_mismatch_def sched_core_def)

lemma count_timeout_later: "master_wf s \<Longrightarrow> later n s (count_ack_timeout s)"
  by (force simp: later_def count_ack_timeout_def sched_core_def)

lemma later_wf: "later n s t \<Longrightarrow> master_wf t"
  by (simp add: later_def)

lemma elapsed_add:
  fixes a start :: u32
  assumes "unat (a - start) + e < 2 ^ 32"
  shows "unat (a + word_of_nat e - start) = unat (a - start) + e"
proof -
  have "a + word_of_nat e - start = (a - start) + word_of_nat e" by simp
  then have "unat (a + word_of_nat e - start)
      = (unat (a - start) + unat (word_of_nat e :: u32)) mod 2 ^ 32"
    by (simp only: unat_word_ariths) simp
  moreover have "unat (word_of_nat e :: u32) = e"
    using assms by (simp add: unat_of_nat take_bit_nat_eq_self_iff)
  ultimately show ?thesis using assms by simp
qed

lemma ack_take_elapsed:
  assumes "master_wf s" "now s - start < 100" "ack_queue_take (100 - (now s - start)) s = (a, s1)"
  obtains e where "e \<le> 100 - unat (now s - start)" "later e s s1" "unat (now s1 - start) = unat (now s - start) + e"
proof -
  have el: "unat (now s - start) < 100" using assms(2) by (simp add: word_less_nat_alt)
  then have un: "unat (100 - (now s - start)) = 100 - unat (now s - start)"
    by (simp add: unat_sub word_le_nat_alt)
  have l: "later (100 - unat (now s - start)) s s1"
    using ack_queue_take_later [OF assms(1), of "100 - (now s - start)"] assms(3) un by simp
  then obtain e where e: "e \<le> 100 - unat (now s - start)" "now s1 = now s + word_of_nat e"
    by (auto simp: later_def)
  then have "later e s s1" "unat (now s1 - start) = unat (now s - start) + e"
    using l el by (auto simp: later_def elapsed_add)
  then show thesis using e(1) that by blast
qed

lemma ack_wait_loop_later:
  "master_wf s \<Longrightarrow> later (100 - unat (now s - start)) s (snd (ack_wait_loop start ch r s))"
proof (induction start ch r s rule: ack_wait_loop.induct)
  case (1 start ch r s)
  let ?el = "unat (now s - start)"
  show ?case
  proof (cases "now s - start \<ge> 100")
    case True
    then show ?thesis
      using 1(2) by (simp add: ack_wait_loop.simps [of start ch r s] ack_now_ms_def
          osKernelGetTickCount_def count_timeout_later)
  next
    case False
    obtain a s1 where t: "ack_queue_take (100 - (now s - start)) s = (a, s1)"
      by (cases "ack_queue_take (100 - (now s - start)) s")
    have t': "(a, s1) = ack_queue_take (RS485_ACK_TIMEOUT_MSEC - (ack_now_ms s - start)) s"
      using t by (simp add: ack_now_ms_def osKernelGetTickCount_def)
    obtain e where e: "e \<le> 100 - ?el" and le: "later e s s1" and el1: "unat (now s1 - start) = ?el + e"
      using ack_take_elapsed [OF 1(2) _ t] False by (auto simp: not_le)
    have l1: "later (100 - ?el) s s1" using later_mono [OF le e] .
    note unfold = ack_wait_loop.simps [of start ch r s] ack_now_ms_def osKernelGetTickCount_def t
    show ?thesis
    proof (cases a)
      case None
      then show ?thesis
        using False later_trans [OF l1 count_timeout_later [OF later_wf [OF l1], of 0]]
        by (simp add: unfold)
    next
      case (Some ack)
      show ?thesis
      proof (cases "ack_channel ack = ch \<and> ack_risk_level ack = r")
        case True
        then show ?thesis using False Some l1 by (simp add: unfold)
      next
        case mismatch: False
        let ?s = "count_ack_mismatch s1"
        have l2: "later 0 s1 ?s" using l1 by (intro count_mismatch_later later_wf)
        have "later (100 - unat (now ?s - start)) ?s (snd (ack_wait_loop start ch r ?s))"
          using 1(1) [OF refl _ t' Some mismatch later_wf [OF l2]] False
          by (simp add: ack_now_ms_def osKernelGetTickCount_def)
        then have "later (100 - (?el + e)) ?s (snd (ack_wait_loop start ch r ?s))"
          by (simp add: count_ack_mismatch_def el1)
        then have "later (e + 0 + (100 - (?el + e))) s (snd (ack_wait_loop start ch r ?s))"
          using later_trans [OF later_trans [OF le l2]] by blast
        moreover have "e + 0 + (100 - (?el + e)) = 100 - ?el" using e by simp
        ultimately show ?thesis using False Some mismatch by (auto simp: unfold)
      qed
    qed
  qed
qed

lemma wait_later: "master_wf s \<Longrightarrow> later 100 s (snd (wait_for_slave_ack ch r s))"
  using ack_wait_loop_later [of s "now s" "ch + 1" r]
  by (simp add: wait_for_slave_ack_def ack_now_ms_def osKernelGetTickCount_def)

subsection \<open>A confirmation needs a matching line on the bus\<close>

text \<open>The lines the bus delivers while the given inputs happen, \<open>acc\<close> being the line begun before
  them; a receive error throws the begun line away.\<close>

fun bus_lines :: "u8 list \<Rightarrow> stimulus list \<Rightarrow> u8 list list" where
  "bus_lines acc [] = []"
| "bus_lines acc (Rs485Byte b # is) =
     (if is_eol b then acc # bus_lines [] is else bus_lines (acc @ [b]) is)"
| "bus_lines acc (Rs485Error # is) = bus_lines [] is"
| "bus_lines acc (_ # is) = bus_lines acc is"

definition only_good :: "(rs485_ack_t \<Rightarrow> bool) \<Rightarrow> master \<Rightarrow> bool" where
  "only_good good s \<longleftrightarrow> master_wf s \<and> (\<forall>a\<in>set (q_items (ack_queue s)). good a)
     \<and> (\<exists>acc. ack_line_view s = view_of 16 acc
          \<and> (\<forall>l\<in>set (bus_lines acc (map snd (agenda s))). \<forall>a. parse_ack l = Some a \<longrightarrow> good a))"

lemma run_input_line_frame:
  "(case i of Rs485Byte b \<Rightarrow> False | Rs485Error \<Rightarrow> False | _ \<Rightarrow> True)
     \<Longrightarrow> ack_line_view (run_input i s) = ack_line_view s \<and> ack_queue (run_input i s) = ack_queue s"
  by (cases i)
    (simp_all add: ack_line_view_def run_input_def HAL_UART_ErrorCallback_def
      HAL_UART_RxCpltCallback_def rpi_put_unfold Let_def
      StartRxTask_iter_def StartCtrlTask_iter_def StartTxTask_iter_def
      StartHeartbeatTask_iter_unfold veda_downlink_queue_get_def veda_uplink_queue_get_def split_def
      frame_simps cmd_put_unfold veda_downlink_resync_def count_frames_bad_def split: option.split)

lemma bus_lines_frame:
  "(case i of Rs485Byte b \<Rightarrow> False | Rs485Error \<Rightarrow> False | _ \<Rightarrow> True)
     \<Longrightarrow> bus_lines acc (i # is) = bus_lines acc is"
  by (cases i) simp_all

lemma view_of_line:
  "\<not> snd (view_of 16 acc) \<Longrightarrow> fst (view_of 16 acc) = acc"
  by (simp add: view_of_def)

lemma good_byte_queue:
  assumes "ack_line_wf s" "wf_queue (ack_queue s)" "\<forall>a\<in>set (q_items (ack_queue s)). good a"
    and "ack_line_view s = view_of 16 acc" "is_eol b \<Longrightarrow> \<forall>a. parse_ack acc = Some a \<longrightarrow> good a"
  shows "\<forall>a\<in>set (q_items (ack_queue (ack_feed_byte b s))). good a"
proof (cases "ack_queue (ack_feed_byte b s) = ack_queue s")
  case True
  then show ?thesis using assms(3) by simp
next
  case False
  then have eol: "is_eol b" "length acc \<le> 16" "ack_queue (ack_feed_byte b s) = ack_queue (ack_line_act acc s)"
    using assms(4) view_of_line [of acc]
    by (auto simp: ack_feed_byte_cases [OF assms(1)] view_of_def split: if_splits)
  with False ack_line_act_queue [OF eol(2), of s] obtain a where
    "parse_ack acc = Some a" "ack_queue (ack_feed_byte b s) = snd (rtos_put a (ack_queue s))" by auto
  then show ?thesis using ack_queue_put_items [OF assms(2,3)] assms(5) eol(1) by auto
qed

lemma only_good_step:
  assumes good: "only_good good s" and ag: "agenda s = (d, i) # rest"
  shows "only_good good (run_input i (pass_time d (s\<lparr> agenda := rest \<rparr>)))"
proof -
  let ?s = "pass_time d (s\<lparr> agenda := rest \<rparr>)"
  obtain acc where acc: "ack_line_view s = view_of 16 acc"
    "\<forall>l\<in>set (bus_lines acc (i # map snd rest)). \<forall>a. parse_ack l = Some a \<longrightarrow> good a"
    using good by (auto simp: only_good_def ag)
  have wf: "master_wf ?s" using good by (simp add: only_good_def)
  have wf': "master_wf (run_input i ?s)" using wf by (rule run_input_wf)
  have line: "ack_line_wf ?s" using wf by (simp add: master_wf_def)
  have q: "wf_queue (ack_queue ?s)" "\<forall>a\<in>set (q_items (ack_queue ?s)). good a"
    using good by (simp_all add: only_good_def master_wf_defs)
  have view: "ack_line_view ?s = view_of 16 acc"
    using acc(1) by (simp add: ack_line_view_def pass_time_def)
  show ?thesis
  proof (cases "case i of Rs485Byte b \<Rightarrow> False | Rs485Error \<Rightarrow> False | _ \<Rightarrow> True")
    case True
    then show ?thesis
      using wf' q(2) view acc(2) run_input_line_frame [OF True, of ?s] bus_lines_frame [OF True]
      by (auto simp: only_good_def intro!: exI [of _ acc])
  next
    case False
    then consider (byte) b where "i = Rs485Byte b" | (error) "i = Rs485Error"
      by (cases i) simp_all
    then show ?thesis
    proof cases
      case byte
      let ?acc = "if is_eol b then [] else acc @ [b]"
      have run: "run_input i ?s = emit (RxArm USART1) (ack_feed_byte b ?s)"
        by (simp add: byte run_input_def HAL_UART_RxCpltCallback_def)
      have view': "ack_line_view (ack_feed_byte b ?s) = view_of 16 ?acc"
        using ack_asm.feed_view [OF line, of b] view by (simp add: asm_step_view_of)
      have "\<forall>a. parse_ack acc = Some a \<longrightarrow> good a" if "is_eol b"
        using acc(2) byte that by simp
      then have "\<forall>a\<in>set (q_items (ack_queue (ack_feed_byte b ?s))). good a"
        by (rule good_byte_queue [OF line q view])
      then show ?thesis
        using wf' view' acc(2) byte unfolding run only_good_def
        by (auto simp: frame_simps intro!: exI [of _ ?acc])
    next
      case error
      have "run_input i ?s = emit (RxArm USART1) (veda_rs485_ack_line_reset ?s)"
        by (simp add: error run_input_def HAL_UART_ErrorCallback_def)
      then show ?thesis
        using wf' q(2) acc(2) error
        by (auto simp: only_good_def veda_rs485_ack_line_reset_def ack_line_view_def view_of_def
            intro!: exI [of _ "[]"])
    qed
  qed
qed

lemma only_good_later:
  assumes "only_good good s" "map snd ag = map snd (agenda s)"
  shows "only_good good (pass_time n (s\<lparr> agenda := ag \<rparr>))"
  using assms by (auto simp: only_good_def ack_line_view_def pass_time_def
      intro: master_wf_def [THEN iffD1] simp del: agenda_wf pass_time_wf)
    (simp_all add: master_wf_defs)

lemma ack_block_good: "only_good good s \<Longrightarrow> agenda s = ag \<Longrightarrow> only_good good (ack_block ag n s)"
proof (induction ag n s rule: ack_block.induct)
  case (1 n s)
  then show ?case by (simp add: only_good_later)
next
  case (2 d i rest n s)
  have "only_good good (run_input i (pass_time d (s\<lparr> agenda := rest \<rparr>)))"
    using only_good_step [OF 2(2,3)] .
  then show ?case
    using 2 by (auto simp: Let_def only_good_later)
qed

lemma idle_good: "only_good good s \<Longrightarrow> agenda s = ag \<Longrightarrow> only_good good (idle ag n s)"
proof (induction ag n s rule: idle.induct)
  case (1 n s)
  then show ?case by (simp add: only_good_later)
next
  case (2 d i rest n s)
  have "only_good good (run_input i (pass_time d (s\<lparr> agenda := rest \<rparr>)))"
    using only_good_step [OF 2(2,3)] .
  then show ?case
    using 2 by (auto simp: only_good_later)
qed

lemma ack_queue_poll_good:
  assumes "only_good good s"
  shows "only_good good (snd (ack_queue_poll s))"
    and "fst (ack_queue_poll s) = Some a \<Longrightarrow> good a"
proof -
  have wf: "master_wf s" and q: "wf_queue (ack_queue s)"
    using assms by (simp_all add: only_good_def master_wf_defs)
  have "master_wf (snd (ack_queue_poll s))"
    using later_wf [OF ack_queue_poll_later [OF wf]] .
  then show "only_good good (snd (ack_queue_poll s))"
    using assms ring.get_items [OF q]
    by (auto simp: only_good_def ack_queue_poll_def split_def Let_def ack_line_view_def
        dest: in_set_tlD)
  show "fst (ack_queue_poll s) = Some a \<Longrightarrow> good a"
    using assms ring.get_some [OF q, of a]
    by (auto simp: only_good_def ack_queue_poll_def split_def Let_def)
qed

lemma ack_queue_take_good:
  assumes "only_good good s"
  shows "only_good good (snd (ack_queue_take t s))"
    and "fst (ack_queue_take t s) = Some a \<Longrightarrow> good a"
  using ack_queue_poll_good [OF assms] ack_queue_poll_good [OF ack_block_good [OF assms refl]]
  by (auto simp: ack_queue_take_def split: if_splits)

lemma ack_wait_loop_good:
  "only_good good s \<Longrightarrow> fst (ack_wait_loop start ch r s) = 1 \<Longrightarrow>
     \<exists>a. good a \<and> ack_channel a = ch \<and> ack_risk_level a = r"
proof (induction start ch r s rule: ack_wait_loop.induct)
  case (1 start ch r s)
  obtain a s1 where t: "ack_queue_take (RS485_ACK_TIMEOUT_MSEC - (ack_now_ms s - start)) s = (a, s1)"
    by (cases "ack_queue_take (RS485_ACK_TIMEOUT_MSEC - (ack_now_ms s - start)) s")
  have in_time: "\<not> RS485_ACK_TIMEOUT_MSEC \<le> ack_now_ms s - start"
    using 1(3) by (auto simp: ack_wait_loop.simps [of start ch r s] split: if_splits)
  then obtain ack where a: "a = Some ack"
    using 1(3) t by (cases a) (auto simp: ack_wait_loop.simps [of start ch r s])
  have g: "only_good good s1" "good ack"
    using ack_queue_take_good [OF 1(2), of "RS485_ACK_TIMEOUT_MSEC - (ack_now_ms s - start)"] t a
    by auto
  show ?case
  proof (cases "ack_channel ack = ch \<and> ack_risk_level ack = r")
    case True
    then show ?thesis using g by blast
  next
    case False
    have "only_good good (count_ack_mismatch s1)"
      using g(1) by (simp add: only_good_def count_ack_mismatch_def ack_line_view_def)
    moreover have "fst (ack_wait_loop start ch r (count_ack_mismatch s1)) = 1"
      using 1(3) in_time t a False
      by (auto simp: ack_wait_loop.simps [of start ch r s] split: if_splits)
    ultimately show ?thesis
      using 1(1) [OF refl in_time t [symmetric] a False] by blast
  qed
qed

text \<open>The line begun at the moment, as far as the buffer still shows it.\<close>

lemma ack_view_exists:
  assumes "ack_line_wf s" "ack_line_overflow s = 0"
  shows "ack_line_view s = view_of 16 (take (unat (ack_line_length s)) (ack_line s))"
  using assms by (auto simp: ack_line_view_def view_of_def ack_line_wf_def word_le_nat_alt)

lemma wait_success_good:
  assumes "only_good good s" "fst (wait_for_slave_ack ch r s) = 1"
  shows "\<exists>a. good a \<and> ack_channel a = ch + 1 \<and> ack_risk_level a = r"
  using ack_wait_loop_good [OF assms(1)] assms(2) by (fastforce simp: wait_for_slave_ack_def)

subsection \<open>One exchange\<close>

lemma take_0_frame:
  "ack_line_view (snd (ack_queue_take 0 s)) = ack_line_view s"
  "agenda (snd (ack_queue_take 0 s)) = agenda s"
  by (simp_all add: ack_queue_take_def ack_queue_poll_def split_def Let_def ack_line_view_def)

lemma drain_frame:
  "ack_line_view (drain_ack_queue s) = ack_line_view s \<and> agenda (drain_ack_queue s) = agenda s"
proof (induction s rule: drain_ack_queue.induct)
  case (1 s)
  obtain r s1 where t: "ack_queue_take 0 s = (r, s1)" by (cases "ack_queue_take 0 s")
  have f: "ack_line_view s1 = ack_line_view s" "agenda s1 = agenda s"
    using take_0_frame [of s] t by simp_all
  show ?case
  proof (cases r)
    case None
    then show ?thesis using t f by (simp add: drain_ack_queue.simps [of s])
  next
    case (Some a)
    then show ?thesis
      using 1 [OF t [symmetric] Some] t f by (simp add: drain_ack_queue.simps [of s])
  qed
qed

lemma HAL_UART_Transmit_wf [simp]: "master_wf (snd (HAL_UART_Transmit u bs t s)) = master_wf s"
  by (simp add: master_wf_defs frame_simps)

text \<open>The state in which a transmission starts.\<close>

definition send_start :: "u8 \<Rightarrow> u8 \<Rightarrow> master \<Rightarrow> master" where
  "send_start ch r s = snd (HAL_UART_Transmit USART1 (command_frame ch r) RS485_TX_TIMEOUT_MSEC
     (emit (PinWrite RS485_DE_Pin True) s))"

lemma send_channel_command_unfold:
  "send_channel_command ch r s =
     (of_flag (fst (HAL_UART_Transmit USART1 (command_frame ch r) 100 s) = HAL_OK),
      emit (PinWrite RS485_DE_Pin False) (idle (agenda s) (tx_duration s) (send_start ch r s)))"
  by (simp add: send_channel_command_def send_start_def Let_def split_def frame_simps tx_duration_def)
    (simp add: HAL_UART_Transmit_def split: list.split)

lemma send_start_frame:
  "master_wf (send_start ch r s) = master_wf s" "sched_core (send_start ch r s) = sched_core s"
  "ack_line_view (send_start ch r s) = ack_line_view s" "agenda (send_start ch r s) = agenda s"
  "ack_queue (send_start ch r s) = ack_queue s" "now (send_start ch r s) = now s"
  by (simp_all add: send_start_def frame_simps sched_core_def ack_line_view_def)

lemma emit_later: "later n s t \<Longrightarrow> later n s (emit x t)"
  by (simp add: later_def)

lemma send_channel_command_later:
  assumes "master_wf s"
  shows "later (tx_duration s) s (snd (send_channel_command ch r s))"
proof -
  have "later (tx_duration s) (send_start ch r s) (idle (agenda s) (tx_duration s) (send_start ch r s))"
    using assms by (intro idle_later) (simp add: send_start_frame)
  then show ?thesis
    by (simp add: send_channel_command_unfold emit_later) (simp add: later_def send_start_frame)
qed

lemma send_channel_command_good:
  assumes "only_good good s"
  shows "only_good good (snd (send_channel_command ch r s))"
proof -
  have "only_good good (send_start ch r s)" using assms by (simp add: only_good_def send_start_frame)
  then have "only_good good (idle (agenda s) (tx_duration s) (send_start ch r s))"
    by (rule idle_good) (simp add: send_start_frame)
  then show ?thesis by (simp add: send_channel_command_unfold only_good_def)
qed

lemma upd_stats_core [simp]:
  "sched_core (upd_stats f s) = sched_core s" "ack_line_view (upd_stats f s) = ack_line_view s"
  by (simp_all add: sched_core_def ack_line_view_def)

lemma dispatch_exchange_wf:
  assumes wf: "master_wf s"
  shows "master_wf (snd (dispatch_exchange ch r s))"
    and "sched_core (snd (dispatch_exchange ch r s)) = sched_core s"
proof -
  let ?s1 = "drain_ack_queue s"
  let ?s2 = "snd (send_channel_command ch r ?s1)"
  have 1: "master_wf ?s1" "sched_core ?s1 = sched_core s"
    using drain_later [OF wf] by (simp_all add: later_def)
  have 2: "master_wf ?s2" "sched_core ?s2 = sched_core ?s1"
    using send_channel_command_later [OF 1(1), of ch r] by (simp_all add: later_def)
  have 3: "later 100 ?s2 (snd (wait_for_slave_ack ch r ?s2))"
    using wait_later [OF 2(1)] .
  show "master_wf (snd (dispatch_exchange ch r s))"
    "sched_core (snd (dispatch_exchange ch r s)) = sched_core s"
    using 1 2 3 by (auto simp: dispatch_exchange_def Let_def split_def later_def)
qed

lemma dispatch_exchange_line:
  assumes wf: "master_wf s" and acc: "ack_line_view s = view_of 16 acc"
    and ok: "fst (dispatch_exchange ch r s) \<noteq> 0"
  shows "\<exists>l\<in>set (bus_lines acc (map snd (agenda s))).
           \<exists>a. parse_ack l = Some a \<and> ack_channel a = ch + 1 \<and> ack_risk_level a = r"
proof -
  let ?s1 = "drain_ack_queue s"
  let ?s2 = "snd (send_channel_command ch r ?s1)"
  let ?good = "\<lambda>a. \<exists>l\<in>set (bus_lines acc (map snd (agenda s))). parse_ack l = Some a"
  have "master_wf ?s1" using later_wf [OF drain_later [OF wf]] .
  then have "only_good ?good ?s1"
    using drain_empties [OF wf] drain_frame [of s] acc by (auto simp: only_good_def)
  then have good: "only_good ?good ?s2" by (rule send_channel_command_good)
  have "fst (wait_for_slave_ack ch r ?s2) \<noteq> 0"
    using ok by (auto simp: dispatch_exchange_def Let_def split_def split: if_splits)
  moreover have "fst (ack_wait_loop st c x t) = 0 \<or> fst (ack_wait_loop st c x t) = 1" for st c x t
  proof (induction st c x t rule: ack_wait_loop.induct)
    case (1 start ch r s)
    then show ?case
      by (subst (1 2) ack_wait_loop.simps) (auto simp: Let_def split: option.splits prod.splits)
  qed
  ultimately have "fst (wait_for_slave_ack ch r ?s2) = 1"
    unfolding wait_for_slave_ack_def by blast
  from wait_success_good [OF good this] show ?thesis by blast
qed

subsection \<open>The outcome of a dispatch\<close>

lemma sched_core_eqD:
  assumes "sched_core t = sched_core s"
  shows "channel_status t = channel_status s" "sched_cursor t = sched_cursor s"
    "length (channel_ctrl t) = length (channel_ctrl s)"
    "i < length (channel_ctrl s) \<Longrightarrow> applied_risk (channel_ctrl t ! i) = applied_risk (channel_ctrl s ! i)"
    "i < length (channel_ctrl s) \<Longrightarrow> last_tx_tick (channel_ctrl t ! i) = last_tx_tick (channel_ctrl s ! i)"
    "i < length (channel_ctrl s) \<Longrightarrow> retry (channel_ctrl t ! i) = retry (channel_ctrl s ! i)"
proof -
  have m: "map sched_fields (channel_ctrl t) = map sched_fields (channel_ctrl s)"
    "channel_status t = channel_status s" "sched_cursor t = sched_cursor s"
    using assms by (simp_all add: sched_core_def)
  show l: "length (channel_ctrl t) = length (channel_ctrl s)"
    using m(1) by (rule map_eq_imp_length_eq)
  show "channel_status t = channel_status s" "sched_cursor t = sched_cursor s" using m by auto
  have f: "i < length (channel_ctrl s) \<Longrightarrow>
      sched_fields (channel_ctrl t ! i) = sched_fields (channel_ctrl s ! i)"
    using m(1) l by (metis nth_map)
  show "i < length (channel_ctrl s) \<Longrightarrow> applied_risk (channel_ctrl t ! i) = applied_risk (channel_ctrl s ! i)"
    "i < length (channel_ctrl s) \<Longrightarrow> last_tx_tick (channel_ctrl t ! i) = last_tx_tick (channel_ctrl s ! i)"
    "i < length (channel_ctrl s) \<Longrightarrow> retry (channel_ctrl t ! i) = retry (channel_ctrl s ! i)"
    using f by (simp_all add: sched_fields_def)
qed

text \<open>The channel blocks and statuses after a dispatch, as a function of the exchange's result.\<close>

definition settled :: "u8 \<Rightarrow> u8 \<Rightarrow> u32 \<Rightarrow> channel_ctrl_t \<Rightarrow> channel_ctrl_t" where
  "settled ok r t c =
     (let c1 = c\<lparr> last_tx_tick := t \<rparr>
      in if ok \<noteq> 0
         then (let c2 = c1\<lparr> applied_risk := r, retry := 0 \<rparr>
               in if lat_pending c2 \<noteq> 0 \<and> lat_risk c2 = r then c2\<lparr> lat_pending := 0 \<rparr> else c2)
         else c1\<lparr> retry := retry c1 + 1 \<rparr>)"

lemma settled_fields [simp]:
  "desired_risk (settled ok r t c) = desired_risk c"
  "applied_risk (settled ok r t c) = (if ok \<noteq> 0 then r else applied_risk c)"
  "retry (settled ok r t c) = (if ok \<noteq> 0 then 0 else retry c + 1)"
  "last_tx_tick (settled ok r t c) = t"
  by (simp_all add: settled_def Let_def)

lemma note_latency_simps [simp]:
  "channel_status (note_latency ch r s) = channel_status s" "now (note_latency ch r s) = now s"
  "uplink_queue (note_latency ch r s) = uplink_queue s" "cmd_queue (note_latency ch r s) = cmd_queue s"
  "rpi_rx_queue (note_latency ch r s) = rpi_rx_queue s" "ack_queue (note_latency ch r s) = ack_queue s"
  "sched_cursor (note_latency ch r s) = sched_cursor s" "agenda (note_latency ch r s) = agenda s"
  "ack_line (note_latency ch r s) = ack_line s"
  "ack_line_length (note_latency ch r s) = ack_line_length s"
  "downlink_state (note_latency ch r s) = downlink_state s"
  "downlink_payload (note_latency ch r s) = downlink_payload s"
  "downlink_payload_index (note_latency ch r s) = downlink_payload_index s"
  "out (note_latency ch r s) = out s"
  by (simp_all add: note_latency_def Let_def)

lemma note_latency_ctrl:
  "channel_ctrl (note_latency ch r s) =
     (if lat_pending (ctrl s ch) \<noteq> 0 \<and> lat_risk (ctrl s ch) = r
      then (channel_ctrl s)[unat ch := (ctrl s ch)\<lparr> lat_pending := 0 \<rparr>] else channel_ctrl s)"
  by (simp add: note_latency_def Let_def ctrl_def)

lemma dispatch_channel_ctrl:
  assumes "unat ch < length (channel_ctrl (snd (dispatch_exchange ch r s)))"
  shows "channel_ctrl (dispatch_channel ch r f s) =
    (let x = dispatch_exchange ch r s
     in (channel_ctrl (snd x))[unat ch := settled (fst x) r (now (snd x)) (channel_ctrl (snd x) ! unat ch)])"
  using assms
  by (simp add: dispatch_channel_def Let_def split_def frame_simps dispatch_success_def
      dispatch_failure_def settled_def note_latency_ctrl ctrl_def osKernelGetTickCount_def)

lemma dispatch_channel_status:
  "channel_status (dispatch_channel ch r f s) =
    (let x = dispatch_exchange ch r s
     in if fst x \<noteq> 0 then (channel_status (snd x))[unat ch := risk_to_status r]
        else channel_status (snd x))"
  by (simp add: dispatch_channel_def Let_def split_def frame_simps dispatch_success_def
      dispatch_failure_def)

lemma dispatch_channel_frame:
  "sched_cursor (dispatch_channel ch r f s) = sched_cursor (snd (dispatch_exchange ch r s))"
  "now (dispatch_channel ch r f s) = now (snd (dispatch_exchange ch r s))"
  "agenda (dispatch_channel ch r f s) = agenda (snd (dispatch_exchange ch r s))"
  "out (dispatch_channel ch r f s) = out (snd (dispatch_exchange ch r s))"
  "ack_queue (dispatch_channel ch r f s) = ack_queue (snd (dispatch_exchange ch r s))"
  by (simp_all add: dispatch_channel_def Let_def split_def frame_simps dispatch_success_def
      dispatch_failure_def)

lemma u8_le2_known: "(r :: u8) \<le> 2 \<Longrightarrow> r \<noteq> 255"
  by (auto elim: word_le_2_cases)

lemma upd_ctrl_tick_wf:
  assumes "master_wf s" "unat ch < 4"
  shows "master_wf (upd_ctrl ch (\<lambda>c. c\<lparr> last_tx_tick := t \<rparr>) s)"
  using assms by (auto simp: master_wf_defs honest_channel_def nth_list_update)

lemma dispatch_failure_wf:
  assumes "master_wf s" "unat ch < 4"
  shows "master_wf (dispatch_failure ch s)"
  using assms by (auto simp: dispatch_failure_def master_wf_defs honest_channel_def nth_list_update)

lemma dispatch_success_wf:
  assumes "master_wf s" "unat ch < 4" "r \<le> 2"
  shows "master_wf (dispatch_success ch r s)"
proof -
  have c: "channels_wf s" using assms(1) by (simp add: master_wf_def)
  have "channels_wf (dispatch_success ch r s)"
    unfolding channels_wf_def
  proof (intro conjI allI impI)
    show "length (channel_status (dispatch_success ch r s)) = 4"
      "length (channel_ctrl (dispatch_success ch r s)) = 4"
      using c by (simp_all add: dispatch_success_def Let_def note_latency_ctrl channels_wf_def)
    fix i :: nat assume i: "i < 4"
    show "desired_risk (channel_ctrl (dispatch_success ch r s) ! i) \<le> 2"
      "honest_channel (channel_ctrl (dispatch_success ch r s) ! i)
         (channel_status (dispatch_success ch r s) ! i)"
      using c i assms(2,3) u8_le2_known [OF assms(3)]
      by (auto simp: dispatch_success_def Let_def note_latency_ctrl ctrl_def channels_wf_def
          nth_list_update honest_channel_def)
  qed
  then show ?thesis
    using assms(1) by (simp add: master_wf_defs dispatch_success_def Let_def)
qed

lemma dispatch_channel_wf:
  assumes wf: "master_wf s" and ch: "unat ch < 4" and r: "r \<le> 2"
  shows "master_wf (dispatch_channel ch r f s)"
proof -
  have "master_wf (snd (dispatch_exchange ch r s))" using dispatch_exchange_wf [OF wf] by blast
  note u = upd_ctrl_tick_wf [OF this ch]
  show ?thesis
    using dispatch_success_wf [OF u ch r] dispatch_failure_wf [OF u ch]
    by (auto simp: dispatch_channel_def Let_def split_def intro: enqueue_uplink_wf)
qed

subsection \<open>Choosing the channel\<close>

definition passes :: "u8 \<Rightarrow> master \<Rightarrow> u8 \<Rightarrow> bool" where
  "passes d s ch \<longleftrightarrow> pick_test d (now s - last_tx_tick (ctrl s ch)) (ctrl s ch)"

definition cyc :: "master \<Rightarrow> nat \<Rightarrow> u8" where
  "cyc s k = (sched_cursor s + word_of_nat k) mod 4"

lemma unat_cyc:
  assumes "sched_cursor s < 4" "k < 4"
  shows "unat (cyc s k) = (unat (sched_cursor s) + k) mod 4"
proof -
  have "unat (sched_cursor s) + k < 2 ^ 8" using assms by (simp add: word_less_nat_alt)
  then have "unat (sched_cursor s + word_of_nat k) = unat (sched_cursor s) + k"
    by (simp add: unat_word_ariths unat_of_nat take_bit_eq_mod mod_simps)
  then show ?thesis by (simp add: cyc_def unat_mod_distrib)
qed

lemma cyc_less4: "cyc s k < 4"
  by (simp add: cyc_def word_less_nat_alt unat_mod_distrib)

lemma pick_pending_loop_first:
  "left + i \<le> 4 \<Longrightarrow> pick_pending_loop left (word_of_nat i) d s =
     (case filter (\<lambda>k. passes d s (cyc s k)) [i..<i + left] of [] \<Rightarrow> SCHED_NO_CHANNEL | k # ks \<Rightarrow> cyc s k)"
proof (induction left arbitrary: i)
  case (Suc left)
  have "word_of_nat i + 1 = (word_of_nat (Suc i) :: u8)" by simp
  moreover have "[i..<i + Suc left] = i # [Suc i..<Suc i + left]"
    by (simp add: upt_conv_Cons del: upt_Suc)
  ultimately show ?case
    using Suc.IH [of "Suc i"] Suc.prems
    by (simp add: passes_def cyc_def osKernelGetTickCount_def Let_def del: of_nat_Suc upt_Suc)
qed simp

lemma pick_pending_first:
  "pick_pending d s = (case filter (\<lambda>k. passes d s (cyc s k)) [0..<4] of
      [] \<Rightarrow> SCHED_NO_CHANNEL | k # ks \<Rightarrow> cyc s k)"
  using pick_pending_loop_first [of 4 0 d s] by (simp add: pick_pending_def)

lemma filter_upt_Cons:
  assumes "filter P [0..<n] = k # ks"
  shows "k < n" "P k" "\<And>j. j < k \<Longrightarrow> \<not> P j"
proof -
  have "k \<in> set (filter P [0..<n])" using assms by simp
  then show "k < n" "P k" by auto
  fix j assume j: "j < k"
  show "\<not> P j"
  proof
    assume "P j"
    then have "j \<in> set (filter P [0..<n])" using j \<open>k < n\<close> by simp
    then have "k \<le> j" using assms sorted_filter [of "\<lambda>x. x" "[0..<n]" P] by auto
    then show False using j by simp
  qed
qed

lemma u8_small_not_none: "(x :: u8) < 4 \<Longrightarrow> x \<noteq> 255"
  by auto

lemma pick_pending_some:
  assumes "pick_pending d s \<noteq> SCHED_NO_CHANNEL"
  obtains k where "k < 4" "pick_pending d s = cyc s k" "passes d s (cyc s k)"
    "\<And>j. j < k \<Longrightarrow> \<not> passes d s (cyc s j)"
proof (cases "filter (\<lambda>k. passes d s (cyc s k)) [0..<4]")
  case Nil
  then show ?thesis using assms by (simp add: pick_pending_first)
next
  case (Cons k ks)
  then show ?thesis
    using that [of k] filter_upt_Cons [OF Cons] by (simp add: pick_pending_first)
qed

text \<open>Every channel is somewhere on the circle from the cursor.\<close>

definition dist :: "master \<Rightarrow> u8 \<Rightarrow> nat" where
  "dist s ch = (unat ch + 4 - unat (sched_cursor s)) mod 4"

lemma cyc_dist:
  assumes "sched_cursor s < 4" "ch < 4"
  shows "cyc s (dist s ch) = ch" "dist s ch < 4"
proof -
  have "(unat (sched_cursor s) + dist s ch) mod 4 = unat ch mod 4"
    using assms by (simp add: dist_def mod_simps word_less_nat_alt)
  then have "unat (cyc s (dist s ch)) = unat ch"
    using assms unat_cyc [OF assms(1), of "dist s ch"] by (simp add: dist_def word_less_nat_alt)
  then show "cyc s (dist s ch) = ch" by (simp add: word_unat_eq_iff)
  show "dist s ch < 4" by (simp add: dist_def)
qed

lemma dist_cyc:
  assumes "sched_cursor s < 4" "k < 4"
  shows "dist s (cyc s k) = k"
proof -
  have c: "unat (sched_cursor s) < 4" using assms by (simp add: word_less_nat_alt)
  have "dist s (cyc s k) = ((unat (sched_cursor s) + k) mod 4 + (4 - unat (sched_cursor s))) mod 4"
    using c by (simp add: dist_def unat_cyc [OF assms])
  also have "\<dots> = (unat (sched_cursor s) + k + (4 - unat (sched_cursor s))) mod 4"
    by (simp only: mod_add_left_eq)
  also have "\<dots> = k" using c assms(2) by simp
  finally show ?thesis .
qed

lemma pick_pending_none:
  assumes "sched_cursor s < 4"
  shows "pick_pending d s = SCHED_NO_CHANNEL \<longleftrightarrow> (\<forall>ch. ch < 4 \<longrightarrow> \<not> passes d s ch)"
proof -
  define F where "F = filter (\<lambda>k. passes d s (cyc s k)) [0..<4]"
  have pick: "pick_pending d s = (case F of [] \<Rightarrow> SCHED_NO_CHANNEL | k # ks \<Rightarrow> cyc s k)"
    by (simp only: pick_pending_first F_def)
  have empty: "F = [] \<longleftrightarrow> (\<forall>k<4. \<not> passes d s (cyc s k))"
    unfolding F_def filter_empty_conv set_upt by auto
  have "pick_pending d s = SCHED_NO_CHANNEL \<longleftrightarrow> F = []"
    using u8_small_not_none [OF cyc_less4, of s] by (cases F) (simp_all add: pick)
  also have "\<dots> \<longleftrightarrow> (\<forall>ch. ch < 4 \<longrightarrow> \<not> passes d s ch)"
    unfolding empty using cyc_dist [OF assms] cyc_less4 by metis
  finally show ?thesis .
qed

text \<open>Among the channels that pass the test, the one picked is nearest to the cursor.\<close>

lemma pick_pending_nearest:
  assumes "sched_cursor s < 4" "pick_pending d s \<noteq> SCHED_NO_CHANNEL"
  shows "pick_pending d s < 4 \<and> passes d s (pick_pending d s)"
    and "ch < 4 \<Longrightarrow> passes d s ch \<Longrightarrow> dist s (pick_pending d s) \<le> dist s ch"
proof -
  obtain k where k: "k < 4" "pick_pending d s = cyc s k" "passes d s (cyc s k)"
    "\<And>j. j < k \<Longrightarrow> \<not> passes d s (cyc s j)" using pick_pending_some [OF assms(2)] by blast
  show "pick_pending d s < 4 \<and> passes d s (pick_pending d s)" using k cyc_less4 by simp
  assume ch: "ch < 4" "passes d s ch"
  have "\<not> dist s ch < k"
    using k(4) [of "dist s ch"] ch cyc_dist(1) [OF assms(1) ch(1)] by auto
  then show "dist s (pick_pending d s) \<le> dist s ch"
    using k(2) dist_cyc [OF assms(1) k(1)] by simp
qed

definition sched_choice :: "master \<Rightarrow> u8" where
  "sched_choice s = (if pick_pending 1 s = SCHED_NO_CHANNEL then pick_pending 0 s else pick_pending 1 s)"

lemma sched_tick_choice:
  "sched_tick s =
     (if sched_choice s = SCHED_NO_CHANNEL then s
      else
        let ch = sched_choice s; want = desired_risk (ctrl s ch);
            f = of_flag (want = applied_risk (ctrl s ch))
        in dispatch_channel ch want f
             ((if f \<noteq> 0 then upd_stats (\<lambda>t. t\<lparr> stat_sched_refresh := stat_sched_refresh t + 1 \<rparr>) s
               else s)\<lparr> sched_cursor := (ch + 1) mod 4 \<rparr>))"
  by (simp add: sched_tick_def sched_choice_def Let_def)

lemma passes_1_danger:
  "passes 1 s ch \<longleftrightarrow> desired_risk (ctrl s ch) = 2 \<and> applied_risk (ctrl s ch) \<noteq> 2
     \<and> (retry (ctrl s ch) = 0 \<or> now s - last_tx_tick (ctrl s ch) \<ge> 500)"
  by (auto simp: passes_def pick_test_def Let_def)

lemma passes_0:
  "passes 0 s ch \<longleftrightarrow>
     (if desired_risk (ctrl s ch) \<noteq> applied_risk (ctrl s ch)
      then retry (ctrl s ch) = 0 \<or> now s - last_tx_tick (ctrl s ch) \<ge> 500
      else now s - last_tx_tick (ctrl s ch) \<ge> 2000)"
  by (auto simp: passes_def pick_test_def Let_def)

lemma sched_choice_less4:
  "sched_cursor s < 4 \<Longrightarrow> sched_choice s \<noteq> SCHED_NO_CHANNEL \<Longrightarrow> sched_choice s < 4"
  using pick_pending_nearest(1) [of s 1] pick_pending_nearest(1) [of s 0]
  by (auto simp: sched_choice_def)

lemma mod4_less: "(x :: u8) mod 4 < 4"
  by (simp add: word_less_nat_alt unat_mod_distrib)

lemma cursor_wf: "master_wf s \<Longrightarrow> c < 4 \<Longrightarrow> master_wf (s\<lparr> sched_cursor := c \<rparr>)"
  by (simp add: master_wf_defs)

lemma sched_tick_wf:
  assumes wf: "master_wf s"
  shows "master_wf (sched_tick s)"
proof (cases "sched_choice s = SCHED_NO_CHANNEL")
  case True
  then show ?thesis using wf by (simp add: sched_tick_choice)
next
  case False
  have c: "sched_cursor s < 4" using wf by (simp add: master_wf_def)
  have ch: "sched_choice s < 4" using sched_choice_less4 [OF c False] .
  then have "unat (sched_choice s) < 4" by (simp add: word_less_nat_alt)
  moreover have "desired_risk (ctrl s (sched_choice s)) \<le> 2"
    using wf calculation by (simp add: master_wf_def channels_wf_def ctrl_def)
  ultimately show ?thesis
    using wf False by (auto simp: sched_tick_choice Let_def intro!: dispatch_channel_wf cursor_wf mod4_less)
qed

lemma StartSchedTask_iter_wf: "master_wf (snd ts) \<Longrightarrow> master_wf (snd (StartSchedTask_iter ts))"
  by (cases ts)
    (auto simp: StartSchedTask_iter_def Let_def osDelayUntil_def intro!: sched_tick_wf
      later_wf [OF idle_later])

end
