(* ===== verification/Master_Supervisor.thy ===== *)
theory Master_Supervisor
  imports Sched_Facts
begin

text \<open>veda_debug.c and veda_supervisor.c of the master: decimal printing on the debug UART and the
  supervising default task (LD2 blinking and the periodic statistics line). The self-test branch is
  compiled out (MASTER_SELFTEST_ENABLED is 0). The lemmas show that a printed number is the decimal
  of its value, fits the ten-byte buffer and has no leading zero, and that the blink and log timers
  compare ticks correctly across the wrap.\<close>

subsection \<open>veda_debug.c\<close>

definition dbg_print :: "u8 list \<Rightarrow> master \<Rightarrow> master" where
  "dbg_print text s = snd (HAL_UART_Transmit USART2 text 100 s)"

lemma u32_div10_less: "(v :: u32) div 10 \<noteq> 0 \<Longrightarrow> unat (v div 10) < unat v"
  by (cases "v = 0") (simp_all add: unat_div_distrib unat_gt_0)

text \<open>The do-while loop: digits of the value, least significant first.\<close>

function dbg_digits :: "u32 \<Rightarrow> u8 list \<Rightarrow> u8 list" where
  "dbg_digits value reversed =
     (let reversed = reversed @ [ascii CHR ''0'' + ucast (value mod 10)];
          value = value div 10
      in if value \<noteq> 0 then dbg_digits value reversed else reversed)"
  by pat_completeness auto

termination
  by (relation "measure (\<lambda>(v, _). unat v)") (auto simp: u32_div10_less)

declare dbg_digits.simps [simp del]

definition dbg_text_u32 :: "u32 \<Rightarrow> u8 list" where
  "dbg_text_u32 value =
     (let reversed = dbg_digits value []; count = length reversed
      in map (\<lambda>index. reversed ! (count - 1 - index)) [0..<count])"

definition dbg_print_u32 :: "u32 \<Rightarrow> master \<Rightarrow> master" where
  "dbg_print_u32 value s = snd (HAL_UART_Transmit USART2 (dbg_text_u32 value) 100 s)"

definition dbg_print_stat :: "string \<Rightarrow> u32 \<Rightarrow> master \<Rightarrow> master" where
  "dbg_print_stat label value s =
     dbg_print (cstr '' '') (dbg_print_u32 value (dbg_print (cstr ''='') (dbg_print (cstr label) s)))"

text \<open>The free stack of a task, in words, as the kernel reports it; \<open>None\<close> for a task that does not
  exist.\<close>

definition dbg_print_stack_free :: "string \<Rightarrow> u32 option \<Rightarrow> master \<Rightarrow> master" where
  "dbg_print_stack_free label watermark s =
     (case watermark of None \<Rightarrow> s | Some w \<Rightarrow> dbg_print_stat label (w * 4) s)"

definition dbg_print_stack_line :: "(string \<Rightarrow> u32 option) \<Rightarrow> master \<Rightarrow> master" where
  "dbg_print_stack_line watermark s =
     dbg_print (cstr ''(bytes free)'' @ [CR, LF])
       (fold (\<lambda>l. dbg_print_stack_free l (watermark l)) [''dflt'', ''rx'', ''ctrl'', ''sched'', ''tx'', ''hb'']
         (dbg_print (cstr ''[stack] '') s))"

subsection \<open>Numbers are printed in decimal\<close>

definition decimal :: "u8 list \<Rightarrow> nat" where
  "decimal ds = foldl (\<lambda>n d. 10 * n + (unat d - 48)) 0 ds"

definition is_digit :: "u8 \<Rightarrow> bool" where
  "is_digit d \<longleftrightarrow> 48 \<le> unat d \<and> unat d \<le> 57"

fun rev_value :: "u8 list \<Rightarrow> nat" where
  "rev_value [] = 0"
| "rev_value (d # ds) = (unat d - 48) + 10 * rev_value ds"

lemma decimal_snoc: "decimal (ds @ [d]) = 10 * decimal ds + (unat d - 48)"
  by (simp add: decimal_def)

lemma decimal_rev: "decimal (rev ds) = rev_value ds"
  by (induction ds) (simp_all add: decimal_snoc, simp add: decimal_def)

lemma digit_unat: "unat (48 + ucast ((v :: u32) mod 10) :: u8) = 48 + unat v mod 10"
proof -
  have "unat v mod 10 < 10" by simp
  then have small: "unat v mod 10 < 2 ^ 8" by (rule less_le_trans) simp
  have "unat (ucast (v mod 10) :: u8) = unat v mod 10"
    using small by (simp add: unsigned_ucast_eq unat_mod_distrib take_bit_nat_eq_self_iff)
  then show ?thesis
    using \<open>unat v mod 10 < 10\<close> by (simp add: unat_word_ariths)
qed

text \<open>The loop, with the digits already produced kept aside.\<close>

lemma dbg_digits_unfold:
  "dbg_digits v acc = (if v div 10 \<noteq> 0 then dbg_digits (v div 10) (acc @ [48 + ucast (v mod 10)])
                       else acc @ [48 + ucast (v mod 10)])"
  by (subst dbg_digits.simps) (simp add: Let_def)

lemma dbg_digits_acc: "dbg_digits v acc = acc @ dbg_digits v []"
proof (induction "unat v" arbitrary: v acc rule: less_induct)
  case less
  let ?d = "48 + ucast (v mod 10)"
  show ?case
  proof (cases "v div 10 = 0")
    case True
    then show ?thesis by (simp add: dbg_digits_unfold [of v])
  next
    case False
    note IH = less [OF u32_div10_less [OF False]]
    have "dbg_digits v acc = dbg_digits (v div 10) (acc @ [?d])"
      "dbg_digits v [] = dbg_digits (v div 10) [?d]"
      using False by (simp_all add: dbg_digits_unfold [of v])
    then show ?thesis using IH [of "acc @ [?d]"] IH [of "[?d]"] by simp
  qed
qed

lemma dbg_digits_Cons:
  "dbg_digits v [] = (48 + ucast (v mod 10)) # (if v div 10 \<noteq> 0 then dbg_digits (v div 10) [] else [])"
  using dbg_digits_acc [of "v div 10" "[48 + ucast (v mod 10)]"]
  by (simp add: dbg_digits_unfold [of v])

lemma dbg_digits_nonempty: "dbg_digits v [] \<noteq> []"
  by (subst dbg_digits_Cons) simp

lemma dbg_text_u32_rev: "dbg_text_u32 v = rev (dbg_digits v [])"
  by (rule nth_equalityI) (simp_all add: dbg_text_u32_def Let_def rev_nth)

lemma unat_div10: "unat ((v :: u32) div 10) = unat v div 10"
  by (simp add: unat_div_distrib)

lemma dbg_digits_value: "rev_value (dbg_digits v []) = unat v"
proof (induction "unat v" arbitrary: v rule: less_induct)
  case less
  show ?case
  proof (cases "v div 10 = 0")
    case True
    then have "unat v div 10 = 0" by (simp flip: unat_div10)
    then show ?thesis using True by (subst dbg_digits_Cons) (simp add: digit_unat)
  next
    case False
    then show ?thesis
      using less [OF u32_div10_less [OF False]]
      by (subst dbg_digits_Cons) (simp add: digit_unat unat_div10)
  qed
qed

lemma dbg_digits_all: "\<forall>d\<in>set (dbg_digits v []). is_digit d"
proof (induction "unat v" arbitrary: v rule: less_induct)
  case less
  show ?case
    using less [OF u32_div10_less [of v]]
    by (subst dbg_digits_Cons) (auto simp: is_digit_def digit_unat)
qed

text \<open>The most significant digit is the last one produced; it is zero only for zero itself.\<close>

lemma dbg_digits_last: "v \<noteq> 0 \<Longrightarrow> last (dbg_digits v []) \<noteq> 48"
proof (induction "unat v" arbitrary: v rule: less_induct)
  case less
  show ?case
  proof (cases "v div 10 = 0")
    case True
    have "unat v div 10 = 0" using True by (simp flip: unat_div10)
    then have "unat v mod 10 \<noteq> 0" using less(2) by (simp add: unat_eq_zero)
    then have "unat (48 + ucast (v mod 10) :: u8) \<noteq> unat (48 :: u8)" by (simp add: digit_unat)
    then show ?thesis using True by (subst dbg_digits_Cons) auto
  next
    case False
    then show ?thesis
      using less(1) [OF u32_div10_less [OF False] False]
      by (subst dbg_digits_Cons) (simp add: dbg_digits_nonempty)
  qed
qed

lemma dbg_digits_length: "unat v < 10 ^ n \<Longrightarrow> 0 < n \<Longrightarrow> length (dbg_digits v []) \<le> n"
proof (induction n arbitrary: v)
  case (Suc n)
  show ?case
  proof (cases "v div 10 = 0")
    case True
    then show ?thesis by (subst dbg_digits_Cons) simp
  next
    case False
    have less: "unat (v div 10) < 10 ^ n" using Suc.prems(1) by (simp add: unat_div10 less_mult_imp_div_less)
    have "0 < n"
    proof (rule ccontr)
      assume "\<not> 0 < n"
      then show False using less False by (simp add: unat_eq_zero)
    qed
    then show ?thesis using False Suc.IH [OF less] by (subst dbg_digits_Cons) simp
  qed
qed simp

text \<open>Ten bytes are enough for any 32-bit value.\<close>

lemma dbg_text_u32_length: "length (dbg_text_u32 v) \<le> 10"
proof -
  have "unat v < 10 ^ 10" using unat_u32_less [of v] by simp
  from dbg_digits_length [OF this] show ?thesis by (simp add: dbg_text_u32_rev)
qed

lemma dbg_text_u32_decimal: "decimal (dbg_text_u32 v) = unat v"
  by (simp add: dbg_text_u32_rev decimal_rev dbg_digits_value)

subsection \<open>veda_supervisor.c\<close>

text \<open>The local variables of the supervising loop.\<close>

record supervisor =
  sup_next_log :: u32
  sup_next_blink :: u32
  sup_last_tick_count :: u32

definition CRLF :: "u8 list" where "CRLF = [CR, LF]"

definition veda_supervisor_banner :: "master \<Rightarrow> master" where
  "veda_supervisor_banner s =
     dbg_print (cstr ''B'' @ CRLF @ CRLF) (dbg_print_u32 19
       (dbg_print (cstr ''B / uplink = '') (dbg_print_u32 27
         (dbg_print (cstr '' ms/channel'' @ CRLF @ cstr '' downlink    = '')
           (dbg_print_u32 HEARTBEAT_INTERVAL_MSEC
             (dbg_print (cstr '')'' @ CRLF @ cstr '' heartbeat   = '')
               (dbg_print_u32 (ucast RPI_CHANNEL_ID_BASE)
                 (dbg_print (cstr '' (rpi channel_id base = '')
                   (dbg_print_u32 (ucast CHANNEL_COUNT)
                     (dbg_print (cstr '' channels    = '')
                       (dbg_print (CRLF @ cstr ''=== VEDA MASTER READY ==='' @ CRLF) s)))))))))))"

definition veda_supervisor_entry :: "master \<Rightarrow> supervisor \<times> master" where
  "veda_supervisor_entry s =
     (let now = osKernelGetTickCount s
      in (\<lparr> sup_next_log = now + SUPERVISOR_LOG_INTERVAL_MSEC, sup_next_blink = now,
            sup_last_tick_count = 0 \<rparr>, veda_supervisor_banner s))"

definition downlink_age :: "u32 \<Rightarrow> master \<Rightarrow> u32" where
  "downlink_age at s =
     (if last_downlink_tick s = 0 then LINK_IDLE_WARN_MSEC else at - last_downlink_tick s)"

text \<open>The timer comparison: has \<open>t\<close> been reached, as a signed distance.\<close>

definition tick_reached :: "u32 \<Rightarrow> u32 \<Rightarrow> bool" where
  "tick_reached at t \<longleftrightarrow> at - t < 0x80000000"

definition supervisor_blink :: "supervisor \<Rightarrow> master \<Rightarrow> supervisor \<times> master" where
  "supervisor_blink l s =
     (let now = osKernelGetTickCount s; age = downlink_age now s
      in if tick_reached now (sup_next_blink l)
         then (l\<lparr> sup_next_blink := now + (if age \<ge> LINK_IDLE_WARN_MSEC then LD2_BLINK_IDLE_MSEC
                                           else LD2_BLINK_ALIVE_MSEC) \<rparr>,
               emit (PinToggle LD2_Pin) s)
         else (l, s))"

text \<open>The counters of the statistics line, in the order printed, before and after the tick count.\<close>

definition stat_line_1 :: "veda_stats \<Rightarrow> (string \<times> u32) list" where
  "stat_line_1 t = [(''ok'', stat_frames_ok t), (''bad'', stat_frames_bad t),
     (''bad_ch'', stat_bad_channel t), (''last_bad_ch'', stat_last_bad_channel t),
     (''bad_risk'', stat_bad_risk t), (''last_bad_risk'', stat_last_bad_risk t),
     (''rx_drop'', stat_rx_bytes_dropped t), (''cmd_drop'', stat_cmd_dropped t),
     (''coalesce'', stat_cmd_coalesced t), (''retry'', stat_sched_retry t),
     (''refresh'', stat_sched_refresh t), (''lat_max'', stat_lat_max t),
     (''lat_dgr'', stat_lat_danger_max t)]"

definition stat_line_2 :: "veda_stats \<Rightarrow> (string \<times> u32) list" where
  "stat_line_2 t = [(''485_fail'', stat_rs485_tx_fail t), (''ack_ok'', stat_ack_ok t),
     (''ack_bad'', stat_ack_bad t), (''ack_to'', stat_ack_timeout t),
     (''ack_mis'', stat_ack_mismatch t), (''up_tx'', stat_uplink_sent t),
     (''up_fail'', stat_uplink_tx_fail t), (''up_drop'', stat_uplink_dropped t)]"

definition print_stats :: "(string \<times> u32) list \<Rightarrow> master \<Rightarrow> master" where
  "print_stats xs s = fold (\<lambda>(label, value). dbg_print_stat label value) xs s"

definition supervisor_log :: "(string \<Rightarrow> u32 option) \<Rightarrow> supervisor \<Rightarrow> master \<Rightarrow> supervisor \<times> master" where
  "supervisor_log watermark l s =
     (let now = osKernelGetTickCount s; age = downlink_age now s
      in if tick_reached now (sup_next_log l)
         then
           let s1 = print_stats (stat_line_1 (stats s)) (dbg_print (cstr ''[stat] '') s);
               ticks_now = stat_sched_ticks (stats s1);
               s2 = dbg_print_stat ''tick5s'' (ticks_now - sup_last_tick_count l) s1;
               s3 = print_stats (stat_line_2 (stats s2)) s2;
               s4 = dbg_print (cstr ''dl_age='') s3;
               s5 = (if last_downlink_tick s4 = 0 then dbg_print (cstr ''never'') s4
                     else dbg_print (cstr ''ms'') (dbg_print_u32 age s4));
               s6 = dbg_print_stack_line watermark (dbg_print CRLF s5)
           in (l\<lparr> sup_last_tick_count := ticks_now,
                  sup_next_log := now + SUPERVISOR_LOG_INTERVAL_MSEC \<rparr>, s6)
         else (l, s))"

text \<open>One turn of the endless loop, after the delay.\<close>

definition veda_supervisor_iter :: "(string \<Rightarrow> u32 option) \<Rightarrow> supervisor \<times> master \<Rightarrow> supervisor \<times> master" where
  "veda_supervisor_iter watermark ls =
     (let (l, s) = ls; (l1, s1) = supervisor_blink l s in supervisor_log watermark l1 s1)"

subsection \<open>The supervisor only talks\<close>

definition talk_only :: "master \<Rightarrow> master \<Rightarrow> bool" where
  "talk_only s t \<longleftrightarrow> (\<exists>xs r. t = s\<lparr> out := out s @ xs, tx_results := r \<rparr>)"

lemma talk_only_refl [simp]: "talk_only s s"
  unfolding talk_only_def by (rule exI [of _ "[]"], rule exI [of _ "tx_results s"]) simp

lemma talk_only_trans: "talk_only s t \<Longrightarrow> talk_only t u \<Longrightarrow> talk_only s u"
  by (auto simp: talk_only_def) blast

lemma talk_only_intro: "t = s\<lparr> out := out s @ xs, tx_results := r \<rparr> \<Longrightarrow> talk_only s t"
  by (auto simp: talk_only_def)

lemma talk_only_transmit:
  assumes "u \<noteq> USART1"
  shows "talk_only s (snd (HAL_UART_Transmit u bs t s))"
  by (rule talk_only_intro [where xs = "[UartTx u bs t (fst (HAL_UART_Transmit u bs t s))]"
        and r = "tl (tx_results s)"])
    (use assms in \<open>simp add: HAL_UART_Transmit_def emit_def split: list.split\<close>)

lemma talk_only_emit: "talk_only s (emit x s)"
  unfolding talk_only_def emit_def by (rule exI [of _ "[x]"], rule exI [of _ "tx_results s"]) simp

lemma talk_only_print: "talk_only s (dbg_print text s)" "talk_only s (dbg_print_u32 v s)"
  by (simp_all add: dbg_print_def dbg_print_u32_def talk_only_transmit)

lemma talk_only_stat: "talk_only s (dbg_print_stat label v s)"
  unfolding dbg_print_stat_def by (intro talk_only_trans [OF _ talk_only_print(1)]
      talk_only_trans [OF _ talk_only_print(2)] talk_only_refl)

lemma talk_only_fold: "(\<And>x s. talk_only s (f x s)) \<Longrightarrow> talk_only s (fold f xs s)"
  by (induction xs arbitrary: s) (auto intro: talk_only_trans)

lemma talk_only_print_stats: "talk_only s (print_stats xs s)"
  unfolding print_stats_def by (rule talk_only_fold) (auto simp: talk_only_stat)

lemma talk_only_stack: "talk_only s (dbg_print_stack_line w s)"
  unfolding dbg_print_stack_line_def
  by (rule talk_only_trans [OF _ talk_only_print(1)], rule talk_only_trans [OF talk_only_print(1)],
      rule talk_only_fold) (simp add: dbg_print_stack_free_def talk_only_stat split: option.split)

lemma talk_only_supervisor: "talk_only (snd ls) (snd (veda_supervisor_iter w ls))"
proof -
  have blink: "talk_only s (snd (supervisor_blink l s))" for l s
    by (simp add: supervisor_blink_def Let_def talk_only_emit)
  have log: "talk_only s (snd (supervisor_log w l s))" for l s
    by (auto simp: supervisor_log_def Let_def
        intro!: talk_only_trans [OF _ talk_only_stack] talk_only_trans [OF _ talk_only_print(1)]
          talk_only_trans [OF _ talk_only_print(2)] talk_only_trans [OF _ talk_only_stat]
          talk_only_trans [OF _ talk_only_print_stats])
  show ?thesis
    using blink log talk_only_trans by (auto simp: veda_supervisor_iter_def split: prod.split) (metis snd_conv)
qed

end
