(* ===== verification/Master_Boot.thy ===== *)
theory Master_Boot
  imports Master_Supervisor
begin

text \<open>Booting the master: main.c, stm32f4xx_hal_msp.c and veda_rpi.c. What the hardware and the RTOS
  answer (oscillator, clock, UARTs, heap, mutex, threads) are parameters of the boot; the boot either
  stops in Error_Handler or ends with a configured board and the initial state in which the tasks
  start. The lemmas say exactly when it succeeds and that the initial state satisfies the
  invariant.\<close>

subsection \<open>What the boot depends on\<close>

record boot_env =
  osc_ok :: bool
  clk_ok :: bool
  uart_ok :: "uart \<Rightarrow> bool"
  mutex_ok :: bool
  rpi_queue_ok :: bool
  cmd_queue_ok :: bool
  uplink_queue_ok :: bool
  ack_queue_ok :: bool
  thread_ok :: "string \<Rightarrow> bool"

subsection \<open>Board configuration\<close>

definition MX_GPIO_Init :: "board \<Rightarrow> board" where
  "MX_GPIO_Init b =
     HAL_GPIO_Init GPIOA [8] Mode_Output_PP
       (HAL_GPIO_Init GPIOA [0, 5] Mode_Output_PP
         (HAL_GPIO_Init GPIOC [13] Mode_IT_Falling
           (HAL_GPIO_WritePin GPIOA [0, 5, 8] False b)))"

definition HAL_UART_MspInit :: "uart \<Rightarrow> board \<Rightarrow> board" where
  "HAL_UART_MspInit u b =
     (case u of
        USART1 \<Rightarrow> HAL_NVIC_Enable USART1 5
                    (HAL_GPIO_Init GPIOA [10] (Mode_AF_PP 7) (HAL_GPIO_Init GPIOA [9] (Mode_AF_PP 7) b))
      | USART2 \<Rightarrow> HAL_GPIO_Init GPIOA [2, 3] (Mode_AF_PP 7) b
      | USART6 \<Rightarrow> b)"

definition HAL_UART_MspDeInit :: "uart \<Rightarrow> board \<Rightarrow> board" where
  "HAL_UART_MspDeInit u b =
     (case u of
        USART1 \<Rightarrow> HAL_GPIO_Init GPIOA [9, 10] Mode_Input b
      | USART2 \<Rightarrow> HAL_GPIO_Init GPIOA [2, 3] Mode_Input b
      | USART6 \<Rightarrow> b)"

definition MX_USART1_UART_Init :: "boot_env \<Rightarrow> board \<Rightarrow> boot_error + board" where
  "MX_USART1_UART_Init e b = HAL_UART_Init (uart_ok e USART1) HAL_UART_MspInit USART1 uart_115200_8n1 b"

definition MX_USART2_UART_Init :: "boot_env \<Rightarrow> board \<Rightarrow> boot_error + board" where
  "MX_USART2_UART_Init e b = HAL_UART_Init (uart_ok e USART2) HAL_UART_MspInit USART2 uart_115200_8n1 b"

definition veda_rpi_uart_init :: "boot_env \<Rightarrow> board \<Rightarrow> boot_error + board" where
  "veda_rpi_uart_init e b =
     bind_boot (HAL_UART_Init (uart_ok e USART6) HAL_UART_MspInit USART6 uart_115200_8n1
                  (HAL_GPIO_Init GPIOC [6, 7] (Mode_AF_PP 8) b))
       (\<lambda>b. Inr (HAL_NVIC_Enable USART6 5 b))"

subsection \<open>State\<close>

text \<open>Memory after reset: every static variable is zero and no queue exists yet; what the outside will
  do is given.\<close>

definition zero_stats :: veda_stats where
  "zero_stats = \<lparr> stat_rx_bytes_dropped = 0, stat_frames_ok = 0, stat_frames_bad = 0,
     stat_bad_channel = 0, stat_last_bad_channel = 0, stat_bad_risk = 0, stat_last_bad_risk = 0,
     stat_cmd_dropped = 0, stat_rs485_tx_fail = 0, stat_uplink_tx_fail = 0, stat_uplink_dropped = 0,
     stat_uplink_sent = 0, stat_ack_ok = 0, stat_ack_bad = 0, stat_ack_timeout = 0,
     stat_ack_mismatch = 0, stat_cmd_coalesced = 0, stat_sched_retry = 0, stat_lat_max = 0,
     stat_lat_danger_max = 0, stat_sched_ticks = 0, stat_sched_refresh = 0 \<rparr>"

definition master_memory :: "u32 \<Rightarrow> (hal_status \<times> nat) list \<Rightarrow> (nat \<times> stimulus) list \<Rightarrow> master" where
  "master_memory t results ag = \<lparr> channel_status = replicate 4 blank_status,
     channel_ctrl = replicate 4 blank_ctrl, downlink_state = DL_WAIT_START,
     downlink_payload = replicate 24 0, downlink_payload_index = 0, downlink_rx_checksum = 0,
     rpi_rx_queue = prvInitialiseNewQueue 0, cmd_queue = prvInitialiseNewQueue 0,
     uplink_queue = prvInitialiseNewQueue 0, ack_queue = prvInitialiseNewQueue 0,
     ack_line = replicate 16 0, ack_line_length = 0, ack_line_overflow = 0, sched_cursor = 0,
     ms_clock_last_tick = 0, ms_clock_wrap_count = 0, stats = zero_stats, last_downlink_tick = 0,
     now = t, tx_results = results, agenda = ag, out = [] \<rparr>"

definition veda_channel_mutex_create :: "boot_env \<Rightarrow> u8" where
  "veda_channel_mutex_create e = of_flag (mutex_ok e)"

text \<open>The four queues of RTOS_QUEUES: all of them must be created.\<close>

definition create_queues :: "boot_env \<Rightarrow> master \<Rightarrow> boot_error + master" where
  "create_queues e s =
     (case (veda_downlink_queue_create (rpi_queue_ok e), veda_tasks_queue_create (cmd_queue_ok e),
            veda_uplink_queue_create (uplink_queue_ok e), veda_rs485_queue_create (ack_queue_ok e)) of
        (Some q1, Some q2, Some q3, Some q4) \<Rightarrow>
          Inr (s\<lparr> rpi_rx_queue := q1, cmd_queue := q2, uplink_queue := q3, ack_queue := q4 \<rparr>)
      | _ \<Rightarrow> Error_Handler Err_Queues)"

definition veda_tasks_create :: "boot_env \<Rightarrow> u8" where
  "veda_tasks_create e =
     of_flag (list_all (thread_ok e) [''rxTask'', ''ctrlTask'', ''schedTask'', ''txTask'', ''hbTask''])"

definition master_main :: "boot_env \<Rightarrow> u32 \<Rightarrow> (hal_status \<times> nat) list \<Rightarrow> (nat \<times> stimulus) list
    \<Rightarrow> boot_error + (board \<times> master)" where
  "master_main e t results ag =
     bind_boot (SystemClock_Config (osc_ok e) (clk_ok e) board_reset) (\<lambda>b.
     bind_boot (MX_USART1_UART_Init e (MX_GPIO_Init b)) (\<lambda>b.
     bind_boot (MX_USART2_UART_Init e b) (\<lambda>b.
     bind_boot (veda_rpi_uart_init e b) (\<lambda>b.
     (let s = channel_boot_state_init (master_memory t results ag)
      in bind_boot (require (veda_channel_mutex_create e \<noteq> 0) Err_Mutex s) (\<lambda>s.
         bind_boot (create_queues e s) (\<lambda>s.
         require (thread_ok e ''defaultTask'' \<and> veda_tasks_create e \<noteq> 0) Err_Threads (b, s))))))))"

subsection \<open>When the boot succeeds, and with what\<close>

definition all_ok :: boot_env where
  "all_ok = \<lparr> osc_ok = True, clk_ok = True, uart_ok = (\<lambda>_. True), mutex_ok = True,
     rpi_queue_ok = True, cmd_queue_ok = True, uplink_queue_ok = True, ack_queue_ok = True,
     thread_ok = (\<lambda>_. True) \<rparr>"

definition boot_sane :: "boot_env \<Rightarrow> bool" where
  "boot_sane e \<longleftrightarrow> osc_ok e \<and> clk_ok e \<and> (\<forall>u. uart_ok e u) \<and> mutex_ok e \<and> rpi_queue_ok e
     \<and> cmd_queue_ok e \<and> uplink_queue_ok e \<and> ack_queue_ok e
     \<and> list_all (thread_ok e)
         [''defaultTask'', ''rxTask'', ''ctrlTask'', ''schedTask'', ''txTask'', ''hbTask'']"

definition master_boot_state :: "u32 \<Rightarrow> (hal_status \<times> nat) list \<Rightarrow> (nat \<times> stimulus) list \<Rightarrow> master" where
  "master_boot_state t results ag =
     (channel_boot_state_init (master_memory t results ag))
       \<lparr> rpi_rx_queue := prvInitialiseNewQueue RPI_RX_QUEUE_DEPTH,
         cmd_queue := prvInitialiseNewQueue CMD_QUEUE_DEPTH,
         uplink_queue := prvInitialiseNewQueue UPLINK_QUEUE_DEPTH,
         ack_queue := prvInitialiseNewQueue ACK_QUEUE_DEPTH \<rparr>"

lemmas queue_create_defs = veda_downlink_queue_create_def veda_tasks_queue_create_def
  veda_uplink_queue_create_def veda_rs485_queue_create_def osMessageQueueNew_def

lemma create_queues_ok:
  "rpi_queue_ok e \<Longrightarrow> cmd_queue_ok e \<Longrightarrow> uplink_queue_ok e \<Longrightarrow> ack_queue_ok e \<Longrightarrow>
     create_queues e s = Inr (s\<lparr> rpi_rx_queue := prvInitialiseNewQueue RPI_RX_QUEUE_DEPTH,
         cmd_queue := prvInitialiseNewQueue CMD_QUEUE_DEPTH,
         uplink_queue := prvInitialiseNewQueue UPLINK_QUEUE_DEPTH,
         ack_queue := prvInitialiseNewQueue ACK_QUEUE_DEPTH \<rparr>)"
  by (simp add: create_queues_def queue_create_defs)

lemma create_queues_fails:
  "\<not> (rpi_queue_ok e \<and> cmd_queue_ok e \<and> uplink_queue_ok e \<and> ack_queue_ok e) \<Longrightarrow>
     create_queues e s = Inl Err_Queues"
  by (auto simp: create_queues_def queue_create_defs Error_Handler_def)

lemma master_memory_init:
  "channel_boot_state_init (master_memory t results ag) = (master_memory t results ag)
     \<lparr> channel_ctrl := replicate 4 (blank_ctrl\<lparr> applied_risk := SCHED_RISK_UNKNOWN \<rparr>) \<rparr>"
  by (simp add: channel_boot_state_init_unfold master_memory_def)

lemma master_boot_state_wf: "master_wf (master_boot_state t results ag)"
  by (simp add: master_boot_state_def master_memory_init)
    (simp add: master_memory_def master_wf_defs honest_channel_def blank_ctrl_def)

lemma all_uarts: "(\<forall>u. P u) \<longleftrightarrow> P USART1 \<and> P USART2 \<and> P USART6"
  using uart.exhaust by metis

lemmas master_main_defs = master_main_def SystemClock_Config_def MX_USART1_UART_Init_def
  MX_USART2_UART_Init_def veda_rpi_uart_init_def HAL_UART_Init_def veda_channel_mutex_create_def
  veda_tasks_create_def Let_def

text \<open>The board a successful boot leaves behind.\<close>

definition master_board :: board where
  "master_board = \<lparr> pin_mode_of = (\<lambda>p. if p = (GPIOA, 9) \<or> p = (GPIOA, 10) then Mode_AF_PP 7
       else if p = (GPIOA, 2) \<or> p = (GPIOA, 3) then Mode_AF_PP 7
       else if p = (GPIOC, 6) \<or> p = (GPIOC, 7) then Mode_AF_PP 8
       else if p = (GPIOA, 0) \<or> p = (GPIOA, 5) \<or> p = (GPIOA, 8) then Mode_Output_PP
       else if p = (GPIOC, 13) then Mode_IT_Falling else Mode_Input),
     pin_level = (\<lambda>_. False), osc = Some osc_config, clk = Some clk_config,
     uart_cfg = (\<lambda>_. Some uart_115200_8n1),
     irq_prio = (\<lambda>u. if u = USART2 then None else Some 5) \<rparr>"

lemma uart_fun_eq: "(\<lambda>u. f u) = g \<longleftrightarrow> f USART1 = g USART1 \<and> f USART2 = g USART2 \<and> f USART6 = g USART6"
  using all_uarts [of "\<lambda>u. f u = g u"] by (simp add: fun_eq_iff)

lemma boot_sane_unfold:
  "boot_sane e \<longleftrightarrow> osc_ok e \<and> clk_ok e \<and> uart_ok e USART1 \<and> uart_ok e USART2 \<and> uart_ok e USART6
     \<and> mutex_ok e \<and> (rpi_queue_ok e \<and> cmd_queue_ok e \<and> uplink_queue_ok e \<and> ack_queue_ok e)
     \<and> thread_ok e ''defaultTask''
     \<and> list_all (thread_ok e) [''rxTask'', ''ctrlTask'', ''schedTask'', ''txTask'', ''hbTask'']"
  by (auto simp: boot_sane_def all_uarts)

lemma create_queues_split:
  "create_queues e s = (if rpi_queue_ok e \<and> cmd_queue_ok e \<and> uplink_queue_ok e \<and> ack_queue_ok e
     then Inr (s\<lparr> rpi_rx_queue := prvInitialiseNewQueue RPI_RX_QUEUE_DEPTH,
         cmd_queue := prvInitialiseNewQueue CMD_QUEUE_DEPTH,
         uplink_queue := prvInitialiseNewQueue UPLINK_QUEUE_DEPTH,
         ack_queue := prvInitialiseNewQueue ACK_QUEUE_DEPTH \<rparr>)
     else Inl Err_Queues)"
  using create_queues_ok create_queues_fails by simp

lemma board_config:
  "HAL_NVIC_Enable USART6 5
     ((HAL_UART_MspInit USART6 (HAL_GPIO_Init GPIOC [6, 7] (Mode_AF_PP 8)
        ((HAL_UART_MspInit USART2
           ((HAL_UART_MspInit USART1 (MX_GPIO_Init
               (board_reset\<lparr> osc := Some osc_config, clk := Some clk_config \<rparr>)))
             \<lparr> uart_cfg := Map.empty(USART1 \<mapsto> uart_115200_8n1) \<rparr>))
          \<lparr> uart_cfg := Map.empty(USART1 \<mapsto> uart_115200_8n1, USART2 \<mapsto> uart_115200_8n1) \<rparr>)))
      \<lparr> uart_cfg := Map.empty(USART1 \<mapsto> uart_115200_8n1, USART2 \<mapsto> uart_115200_8n1,
          USART6 \<mapsto> uart_115200_8n1) \<rparr>) = master_board"
  by (simp add: HAL_NVIC_Enable_def HAL_UART_MspInit_def HAL_GPIO_Init_def HAL_GPIO_WritePin_def
      MX_GPIO_Init_def board_reset_def master_board_def uart_fun_eq) (auto simp: fun_eq_iff)

lemma master_main_unfold:
  "master_main e t results ag =
     (if \<not> osc_ok e then Inl Err_Osc else if \<not> clk_ok e then Inl Err_Clock
      else if \<not> uart_ok e USART1 then Inl (Err_Uart USART1)
      else if \<not> uart_ok e USART2 then Inl (Err_Uart USART2)
      else if \<not> uart_ok e USART6 then Inl (Err_Uart USART6)
      else if \<not> mutex_ok e then Inl Err_Mutex
      else if \<not> (rpi_queue_ok e \<and> cmd_queue_ok e \<and> uplink_queue_ok e \<and> ack_queue_ok e)
        then Inl Err_Queues
      else if \<not> boot_sane e then Inl Err_Threads
      else Inr (master_board, master_boot_state t results ag))"
proof -
  have cfg: "uart_cfg (HAL_UART_MspInit u b) = uart_cfg b" "uart_cfg (MX_GPIO_Init b) = uart_cfg b"
    "uart_cfg (HAL_GPIO_Init p ns m b) = uart_cfg b" for u b p ns m
    by (simp_all add: HAL_UART_MspInit_def HAL_NVIC_Enable_def HAL_GPIO_Init_def MX_GPIO_Init_def
        HAL_GPIO_WritePin_def split: uart.split)
  have reset: "uart_cfg board_reset = Map.empty" by (simp add: board_reset_def)
  show ?thesis
    using board_config
    by (simp add: master_main_defs cfg reset boot_sane_unfold create_queues_split
        master_boot_state_def require_def Error_Handler_def bind_boot_def)
qed

end
