(* ===== verification/Master_Run.thy ===== *)
theory Master_Run
  imports Master_Boot
begin

text \<open>The running master as a step relation: from a successful boot, any interrupt, any turn of a
  queue task, any turn of the scheduler task and any turn of the supervisor, in any order. The
  invariant holds of every reachable state.\<close>

record running =
  run_tick :: u32
  run_sup :: supervisor
  run_state :: master

inductive master_step :: "running \<Rightarrow> running \<Rightarrow> bool" where
  step_input: "master_step r (r\<lparr> run_state := run_input i (run_state r) \<rparr>)"
| step_sched: "StartSchedTask_iter (run_tick r, run_state r) = (t, s) \<Longrightarrow>
     master_step r (r\<lparr> run_tick := t, run_state := s \<rparr>)"
| step_supervisor: "veda_supervisor_iter w (run_sup r, run_state r) = (l, s) \<Longrightarrow>
     master_step r (r\<lparr> run_sup := l, run_state := s \<rparr>)"
| step_outside: "master_step r (r\<lparr> run_state := (run_state r)\<lparr> agenda := ag, tx_results := res \<rparr> \<rparr>)"

text \<open>The last step lets the outside change its plans: which inputs will come, and how the UARTs will
  answer, is not fixed in advance.\<close>

inductive_cases master_stepE: "master_step r r'"

definition master_start :: "u32 \<Rightarrow> (hal_status \<times> nat) list \<Rightarrow> (nat \<times> stimulus) list \<Rightarrow> running" where
  "master_start t res ag =
     (let s0 = master_boot_state t res ag;
          s1 = StartRxTask_entry s0;
          (tick, s2) = StartSchedTask_entry s1;
          (l, s3) = veda_supervisor_entry s2
      in \<lparr> run_tick = tick, run_sup = l, run_state = s3 \<rparr>)"

inductive master_reachable :: "running \<Rightarrow> bool" where
  reach_start: "master_reachable (master_start t res ag)"
| reach_step: "master_reachable r \<Longrightarrow> master_step r r' \<Longrightarrow> master_reachable r'"

lemma talk_only_wf: "talk_only s t \<Longrightarrow> master_wf s \<Longrightarrow> master_wf t"
  by (auto simp: talk_only_def master_wf_defs)

lemma results_wf [simp]: "master_wf (s\<lparr> agenda := ag, tx_results := res \<rparr>) = master_wf s"
  by (simp add: master_wf_defs)

lemma banner_wf: "master_wf s \<Longrightarrow> master_wf (veda_supervisor_banner s)"
  by (simp add: veda_supervisor_banner_def dbg_print_def dbg_print_u32_def)

lemma master_start_wf: "master_wf (run_state (master_start t res ag))"
  by (simp add: master_start_def Let_def StartSchedTask_entry_def veda_supervisor_entry_def
      StartRxTask_entry_def veda_downlink_rx_arm_def veda_rs485_rx_arm_def rs485_de_init_def
      banner_wf master_boot_state_wf)

lemma master_step_wf: "master_step r r' \<Longrightarrow> master_wf (run_state r) \<Longrightarrow> master_wf (run_state r')"
proof (induction rule: master_step.induct)
  case (step_input r i)
  then show ?case by (simp add: run_input_wf)
next
  case (step_sched r t s)
  then show ?case using StartSchedTask_iter_wf [of "(run_tick r, run_state r)"] by simp
next
  case (step_supervisor w r l s)
  then show ?case
    using talk_only_wf [OF talk_only_supervisor [of "(run_sup r, run_state r)" w]] by simp
next
  case (step_outside r ag res)
  then show ?case by simp
qed

lemma master_reachable_wf: "master_reachable r \<Longrightarrow> master_wf (run_state r)"
  by (induction rule: master_reachable.induct) (auto simp: master_start_wf intro: master_step_wf)

end
