(* ===== verification/Master_Bus.thy ===== *)
theory Master_Bus
  imports Master_Run
begin

text \<open>What goes out on the RS485 bus: the frames handed to USART1, in order. The scheduler task is the
  only one that transmits there, one frame per exchange; the interrupts and the other tasks that run
  while it waits never do.\<close>

subsection \<open>The frames on the bus\<close>

fun bus_frames :: "effect list \<Rightarrow> u8 list list" where
  "bus_frames [] = []"
| "bus_frames (UartTx u bytes timeout st # es) =
     (if u = USART1 then bytes # bus_frames es else bus_frames es)"
| "bus_frames (x # es) = bus_frames es"

lemma bus_frames_append [simp]: "bus_frames (xs @ ys) = bus_frames xs @ bus_frames ys"
  by (induction xs rule: bus_frames.induct) simp_all

definition on_bus :: "master \<Rightarrow> u8 list list" where
  "on_bus s = bus_frames (out s)"

lemma on_bus_frame [simp]:
  "on_bus (s\<lparr> agenda := ag \<rparr>) = on_bus s" "on_bus (s\<lparr> sched_cursor := c \<rparr>) = on_bus s"
  "on_bus (pass_time d s) = on_bus s" "on_bus (upd_stats f s) = on_bus s" "on_bus (upd_ctrl ch g s) = on_bus s"
  by (simp_all add: on_bus_def pass_time_def)

subsection \<open>Nobody else sends\<close>

lemma run_input_bus [simp]: "on_bus (run_input i s) = on_bus s"
  by (cases i)
    (simp_all add: on_bus_def run_input_def HAL_UART_ErrorCallback_def HAL_UART_RxCpltCallback_def
      rpi_put_unfold Let_def StartRxTask_iter_def StartCtrlTask_iter_def StartTxTask_iter_def
      StartHeartbeatTask_iter_unfold veda_downlink_queue_get_def veda_uplink_queue_get_def split_def
      frame_simps cmd_put_unfold veda_downlink_resync_def count_frames_bad_def veda_rs485_ack_line_reset_def
      uplink_send_def split: option.split)

lemma ack_block_bus [simp]: "on_bus (ack_block ag n s) = on_bus s"
  by (induction ag n s rule: ack_block.induct) (simp_all add: Let_def)

lemma ack_queue_poll_bus [simp]: "on_bus (snd (ack_queue_poll s)) = on_bus s"
  by (simp add: on_bus_def ack_queue_poll_def split_def Let_def)

lemma ack_queue_take_bus [simp]: "on_bus (snd (ack_queue_take t s)) = on_bus s"
  by (simp add: ack_queue_take_def)

lemma take_bus_pair: "ack_queue_take t s = (a, s1) \<Longrightarrow> on_bus s1 = on_bus s"
  using ack_queue_take_bus [of t s] by simp

lemma drain_bus [simp]: "on_bus (drain_ack_queue s) = on_bus s"
proof (induction s rule: drain_ack_queue.induct)
  case (1 s)
  then show ?case
    by (subst drain_ack_queue.simps) (auto split: prod.split option.split dest: take_bus_pair)
qed

lemma ack_wait_bus: "on_bus (snd (ack_wait_loop start ch r s)) = on_bus s"
proof (induction start ch r s rule: ack_wait_loop.induct)
  case (1 start ch r s)
  then show ?case
    by (subst ack_wait_loop.simps)
      (auto simp: Let_def count_ack_timeout_def count_ack_mismatch_def split: prod.split option.split
        dest: take_bus_pair)
qed

subsection \<open>One frame per exchange\<close>

lemma idle_bus [simp]: "on_bus (idle ag n s) = on_bus s"
  by (induction ag n s rule: idle.induct) simp_all

lemma send_channel_command_bus:
  "on_bus (snd (send_channel_command ch r s)) = on_bus s @ [command_frame ch r]"
proof -
  have pin: "on_bus (emit (PinWrite p v) t) = on_bus t" for p v t by (simp add: on_bus_def)
  have "on_bus (send_start ch r s) = on_bus s @ [command_frame ch r]"
    by (simp add: on_bus_def send_start_def frame_simps)
  then show ?thesis by (simp add: send_channel_command_unfold pin)
qed

lemma dispatch_exchange_bus:
  "on_bus (snd (dispatch_exchange ch r s)) = on_bus s @ [command_frame ch r]"
  by (simp add: dispatch_exchange_def Let_def split_def wait_for_slave_ack_def ack_wait_bus
      send_channel_command_bus)

lemma dispatch_channel_bus: "on_bus (dispatch_channel ch r f s) = on_bus s @ [command_frame ch r]"
  using dispatch_exchange_bus [of ch r s] by (simp add: on_bus_def dispatch_channel_frame)

text \<open>Frames for different channels differ.\<close>

lemma command_frame_channel: "command_frame ch r = command_frame ch' r' \<Longrightarrow> ch = ch'"
  by (simp add: command_frame_def Let_def)

end
