(* ===== verification/Master_Properties.thy ===== *)
theory Master_Properties
  imports Master_Bus
begin

text \<open>The properties of the master: what its scheduler, its receivers and its reports guarantee. Each
  property stands after the text that states it, followed by a witness that applies it to a concrete
  run.\<close>

subsection \<open>One tick of the scheduler, seen from outside\<close>

definition tick_start :: "master \<Rightarrow> master" where
  "tick_start s =
     (let ch = sched_choice s;
          refresh = desired_risk (ctrl s ch) = applied_risk (ctrl s ch)
      in (if refresh then upd_stats (\<lambda>t. t\<lparr> stat_sched_refresh := stat_sched_refresh t + 1 \<rparr>) s else s)
           \<lparr> sched_cursor := (ch + 1) mod 4 \<rparr>)"

lemma sched_tick_dispatch:
  "sched_choice s \<noteq> SCHED_NO_CHANNEL \<Longrightarrow> sched_tick s =
     dispatch_channel (sched_choice s) (desired_risk (ctrl s (sched_choice s)))
       (of_flag (desired_risk (ctrl s (sched_choice s)) = applied_risk (ctrl s (sched_choice s))))
       (tick_start s)"
  by (simp add: sched_tick_choice tick_start_def Let_def)

lemma sched_tick_idle: "sched_choice s = SCHED_NO_CHANNEL \<Longrightarrow> sched_tick s = s"
  by (simp add: sched_tick_choice)

lemma tick_start_frame [simp]:
  "channel_ctrl (tick_start s) = channel_ctrl s" "channel_status (tick_start s) = channel_status s"
  "agenda (tick_start s) = agenda s" "ack_line_view (tick_start s) = ack_line_view s"
  "now (tick_start s) = now s" "ack_queue (tick_start s) = ack_queue s"
  "sched_cursor (tick_start s) = (sched_choice s + 1) mod 4"
  by (simp_all add: tick_start_def Let_def ack_line_view_def)

lemma tick_start_wf: "master_wf s \<Longrightarrow> master_wf (tick_start s)"
  by (simp add: tick_start_def Let_def cursor_wf mod4_less)

lemma sched_tick_bus:
  "on_bus (sched_tick s) = on_bus s @
     (if sched_choice s = SCHED_NO_CHANNEL then []
      else [command_frame (sched_choice s) (desired_risk (ctrl s (sched_choice s)))])"
  by (simp add: sched_tick_idle sched_tick_dispatch dispatch_channel_bus tick_start_def Let_def)

text \<open>The exchange a tick performs, and its effect on the control blocks.\<close>

definition tick_exchange :: "master \<Rightarrow> u8 \<times> master" where
  "tick_exchange s =
     dispatch_exchange (sched_choice s) (desired_risk (ctrl s (sched_choice s))) (tick_start s)"

lemma tick_exchange_facts:
  assumes wf: "master_wf s" and ch: "sched_choice s \<noteq> SCHED_NO_CHANNEL"
  shows "unat (sched_choice s) < 4" "desired_risk (ctrl s (sched_choice s)) \<le> 2"
    "length (channel_ctrl (snd (tick_exchange s))) = 4"
    "sched_core (snd (tick_exchange s)) = sched_core (tick_start s)"
    "master_wf (snd (tick_exchange s))"
proof -
  have cur: "sched_cursor s < 4" using wf by (simp add: master_wf_def)
  show c: "unat (sched_choice s) < 4"
    using sched_choice_less4 [OF cur ch] by (simp add: word_less_nat_alt)
  show "desired_risk (ctrl s (sched_choice s)) \<le> 2"
    using wf c by (simp add: master_wf_def channels_wf_def ctrl_def)
  show core: "sched_core (snd (tick_exchange s)) = sched_core (tick_start s)"
    and "master_wf (snd (tick_exchange s))"
    using dispatch_exchange_wf [OF tick_start_wf [OF wf]] by (simp_all add: tick_exchange_def)
  then show "length (channel_ctrl (snd (tick_exchange s))) = 4"
    by (simp add: master_wf_def channels_wf_def)
qed

lemma sched_tick_ctrl:
  assumes wf: "master_wf s" and ch: "sched_choice s \<noteq> SCHED_NO_CHANNEL"
  shows "channel_ctrl (sched_tick s) =
    (channel_ctrl (snd (tick_exchange s)))[unat (sched_choice s) :=
       settled (fst (tick_exchange s)) (desired_risk (ctrl s (sched_choice s)))
         (now (snd (tick_exchange s))) (channel_ctrl (snd (tick_exchange s)) ! unat (sched_choice s))]"
  using tick_exchange_facts [OF wf ch]
  by (simp add: sched_tick_dispatch [OF ch] dispatch_channel_ctrl tick_exchange_def Let_def)

lemma sched_tick_applied:
  assumes wf: "master_wf s" and i: "i < 4"
  shows "applied_risk (channel_ctrl (sched_tick s) ! i) =
    (if sched_choice s \<noteq> SCHED_NO_CHANNEL \<and> i = unat (sched_choice s) \<and> fst (tick_exchange s) \<noteq> 0
     then desired_risk (ctrl s (sched_choice s)) else applied_risk (channel_ctrl s ! i))"
proof (cases "sched_choice s = SCHED_NO_CHANNEL")
  case True
  then show ?thesis by (simp add: sched_tick_idle)
next
  case False
  note f = tick_exchange_facts [OF wf False]
  have len: "length (channel_ctrl s) = 4" using wf by (simp add: master_wf_def channels_wf_def)
  have "applied_risk (channel_ctrl (snd (tick_exchange s)) ! i) = applied_risk (channel_ctrl s ! i)"
    using sched_core_eqD(4) [OF f(4), of i] i len by simp
  then show ?thesis
    using f False i by (auto simp: sched_tick_ctrl [OF wf False] nth_list_update)
qed

subsection \<open>Confirmation\<close>

text \<open>C1: The master changes what it takes to be applied on a channel only after a complete
  acknowledgement line for exactly that channel and that level went over the bus during the wait;
  timeouts, transmission errors, acknowledgements for other channels and everything the other tasks
  do in the meantime cannot change it.\<close>

theorem applied_needs_ack:
  assumes "master_wf s" and "ack_line_view s = view_of 16 acc" and "i < 4"
    and "applied_risk (channel_ctrl (sched_tick s) ! i) \<noteq> applied_risk (channel_ctrl s ! i)"
  shows "\<exists>l\<in>set (bus_lines acc (map snd (agenda s))). \<exists>a. parse_ack l = Some a
           \<and> unat (ack_channel a) = i + 1
           \<and> ack_risk_level a = applied_risk (channel_ctrl (sched_tick s) ! i)"
proof -
  from assms(4) have hit: "sched_choice s \<noteq> SCHED_NO_CHANNEL" "i = unat (sched_choice s)"
    "fst (tick_exchange s) \<noteq> 0"
    and new: "applied_risk (channel_ctrl (sched_tick s) ! i) = desired_risk (ctrl s (sched_choice s))"
    by (auto simp: sched_tick_applied [OF assms(1,3)] split: if_splits)
  have "unat (sched_choice s + 1) = i + 1"
    using assms(3) hit(2) by (simp add: unat_word_ariths)
  then show ?thesis
    using dispatch_exchange_line [OF tick_start_wf [OF assms(1)], of acc "sched_choice s"
        "desired_risk (ctrl s (sched_choice s))"] assms(2) hit(3) new
    by (fastforce simp: tick_exchange_def)
qed

definition witness_agenda :: "(nat \<times> stimulus) list" where
  "witness_agenda = map (\<lambda>b. (1, Rs485Byte b)) (ack_bytes 1 1 0 @ [LF])"

definition witness_state :: master where
  "witness_state = master_boot_state 0 [(HAL_OK, 1)] witness_agenda"

lemma witness_state_wf: "master_wf witness_state"
  by (simp add: witness_state_def master_boot_state_wf)

lemma witness_state_view: "ack_line_view witness_state = view_of 16 []"
  by (simp add: witness_state_def master_boot_state_def master_memory_init)
    (simp add: master_memory_def ack_line_view_def view_of_def)

theorem applied_needs_ack_witness:
  "\<exists>l\<in>set (bus_lines [] (map snd (agenda witness_state))). \<exists>a. parse_ack l = Some a
     \<and> unat (ack_channel a) = 0 + 1
     \<and> ack_risk_level a = applied_risk (channel_ctrl (sched_tick witness_state) ! 0)"
proof (rule applied_needs_ack [OF witness_state_wf witness_state_view])
  show "(0 :: nat) < 4" by simp
  show "applied_risk (channel_ctrl (sched_tick witness_state) ! 0)
      \<noteq> applied_risk (channel_ctrl witness_state ! 0)"
    by code_simp
qed

subsection \<open>Honest reports\<close>

text \<open>C2: In every reachable state of the master, what it reports about each channel is blank until a
  slave has confirmed a level, and afterwards exactly the picture of the confirmed level: the siren on
  for warning and danger, the buzzer on for danger alone, one lamp per level, so that the control
  server reads the confirmed level back from the lamps. What the master asks for is always one of the
  three levels. (veda_types.h says the buzzer is always reported as 0; the code reports the slave's
  buzzer, as veda_channel.h describes.)\<close>

theorem reported_status_honest:
  assumes "master_reachable r" and "i < 4"
  shows "desired_risk (channel_ctrl (run_state r) ! i) \<le> 2 \<and>
     (let a = applied_risk (channel_ctrl (run_state r) ! i); st = channel_status (run_state r) ! i in
      if a = SCHED_RISK_UNKNOWN then st = blank_status
      else a \<le> 2 \<and> st = risk_to_status a \<and> decode_leds st = a
        \<and> st = \<lparr> cs_risk_level = a, cs_siren_on = of_flag (a \<noteq> VEDA_RISK_NONE),
                 cs_buzzer_on = of_flag (a = VEDA_RISK_DANGER), cs_led_red = of_flag (a = VEDA_RISK_DANGER),
                 cs_led_yellow = of_flag (a = VEDA_RISK_WARNING), cs_led_green = of_flag (a = VEDA_RISK_NONE) \<rparr>)"
proof -
  have w: "channels_wf (run_state r)"
    using master_reachable_wf [OF assms(1)] by (simp add: master_wf_def)
  then have "desired_risk (channel_ctrl (run_state r) ! i) \<le> 2"
    and h: "honest_channel (channel_ctrl (run_state r) ! i) (channel_status (run_state r) ! i)"
    using assms(2) by (simp_all add: channels_wf_def)
  moreover have "decode_leds (risk_to_status a) = a" if "a \<le> 2" for a
    using that by (simp add: decode_risk_to_status del: risk_to_status_risk)
  ultimately show ?thesis
    using risk_to_status_picture by (auto simp: honest_channel_def Let_def split: if_splits)
qed

theorem reported_status_honest_witness:
  "desired_risk (channel_ctrl (run_state (master_start 0 [] [])) ! 3) \<le> 2"
  using reported_status_honest [OF reach_start, of 3 0 "[]" "[]"] by simp

subsection \<open>Memory\<close>

text \<open>C3: In every reachable state of the master the write positions of both receive buffers are
  inside them whenever a byte may be stored, no queue holds more than its depth, the scheduling
  cursor names a channel, and every acknowledgement waiting in the queue is a well-formed one.\<close>

theorem master_buffers_safe:
  assumes "master_reachable r"
  shows "(downlink_state (run_state r) \<noteq> DL_READ_PAYLOAD
           \<or> unat (downlink_payload_index (run_state r)) < length (downlink_payload (run_state r)))
     \<and> unat (ack_line_length (run_state r)) \<le> length (ack_line (run_state r))
     \<and> length (q_items (rpi_rx_queue (run_state r))) \<le> RPI_RX_QUEUE_DEPTH
     \<and> length (q_items (cmd_queue (run_state r))) \<le> CMD_QUEUE_DEPTH
     \<and> length (q_items (uplink_queue (run_state r))) \<le> UPLINK_QUEUE_DEPTH
     \<and> length (q_items (ack_queue (run_state r))) \<le> ACK_QUEUE_DEPTH
     \<and> unat (sched_cursor (run_state r)) < length (channel_ctrl (run_state r))
     \<and> list_all valid_ack (q_items (ack_queue (run_state r)))"
  using master_reachable_wf [OF assms]
    ring.bounded [of "rpi_rx_queue (run_state r)"] ring.bounded [of "cmd_queue (run_state r)"]
    ring.bounded [of "uplink_queue (run_state r)"] ring.bounded [of "ack_queue (run_state r)"]
  by (auto simp: master_wf_defs word_less_nat_alt word_le_nat_alt list_all_iff)

theorem master_buffers_safe_witness:
  "unat (ack_line_length (run_state (master_start 7 [] witness_agenda)))
     \<le> length (ack_line (run_state (master_start 7 [] witness_agenda)))"
  using master_buffers_safe [OF reach_start, of 7 "[]" witness_agenda] by simp

subsection \<open>The wait\<close>

lemma ack_wait_loop_flag: "fst (ack_wait_loop st c x t) = 0 \<or> fst (ack_wait_loop st c x t) = 1"
proof (induction st c x t rule: ack_wait_loop.induct)
  case (1 start ch r s)
  then show ?case
    by (subst (1 2) ack_wait_loop.simps) (auto simp: Let_def split: option.splits prod.splits)
qed

text \<open>C4: Waiting for a slave returns after at most 100 milliseconds of the tick counter, wherever the
  counter stands and whatever arrives in between, with success or failure and nothing else, and it
  leaves the scheduling fields of every channel as they were.\<close>

theorem wait_is_bounded:
  assumes "master_wf s"
  shows "(fst (wait_for_slave_ack ch r s) = 0 \<or> fst (wait_for_slave_ack ch r s) = 1)
     \<and> (\<exists>e. e \<le> 100 \<and> now (snd (wait_for_slave_ack ch r s)) = now s + word_of_nat e)
     \<and> map sched_fields (channel_ctrl (snd (wait_for_slave_ack ch r s)))
         = map sched_fields (channel_ctrl s)"
  using wait_later [OF assms, of ch r] ack_wait_loop_flag
  by (auto simp: wait_for_slave_ack_def later_def sched_core_def)

text \<open>The tick counter wraps during this wait: a mismatching acknowledgement arrives, then silence.\<close>

definition wrap_state :: master where
  "wrap_state = master_boot_state (- 10) [] (map (\<lambda>b. (3, Rs485Byte b)) (ack_bytes 1 2 1 @ [LF]))"

theorem wait_is_bounded_witness:
  "(\<exists>e. e \<le> 100 \<and> now (snd (wait_for_slave_ack 0 2 wrap_state)) = now wrap_state + word_of_nat e)
     \<and> wait_for_slave_ack 0 2 wrap_state = (0, snd (wait_for_slave_ack 0 2 wrap_state))
     \<and> now (snd (wait_for_slave_ack 0 2 wrap_state)) = 90"
proof -
  have "master_wf wrap_state" by (simp add: wrap_state_def master_boot_state_wf)
  note b = wait_is_bounded [OF this, of 0 2]
  have "fst (wait_for_slave_ack 0 2 wrap_state) = 0" by code_simp
  moreover have "now (snd (wait_for_slave_ack 0 2 wrap_state)) = 90" by code_simp
  ultimately show ?thesis using b by (simp add: prod_eq_iff)
qed

subsection \<open>What a dispatch does\<close>

lemma sched_tick_other:
  assumes wf: "master_wf s" and i: "i < 4" and other: "i \<noteq> unat (sched_choice s)"
  shows "sched_fields (channel_ctrl (sched_tick s) ! i) = sched_fields (channel_ctrl s ! i)"
proof (cases "sched_choice s = SCHED_NO_CHANNEL")
  case True
  then show ?thesis by (simp add: sched_tick_idle)
next
  case False
  note f = tick_exchange_facts [OF wf False]
  have len: "length (channel_ctrl s) = 4" using wf by (simp add: master_wf_def channels_wf_def)
  have "sched_fields (channel_ctrl (snd (tick_exchange s)) ! i) = sched_fields (channel_ctrl s ! i)"
    using sched_core_eqD(4,5,6) [OF f(4), of i] i len by (simp add: sched_fields_def)
  then show ?thesis
    using f i other by (simp add: sched_tick_ctrl [OF wf False])
qed

lemma sched_tick_chosen:
  assumes wf: "master_wf s" and ch: "sched_choice s \<noteq> SCHED_NO_CHANNEL"
  defines "c \<equiv> ctrl s (sched_choice s)" and "c' \<equiv> ctrl (sched_tick s) (sched_choice s)"
  shows "last_tx_tick c' = now (sched_tick s)"
    and "fst (tick_exchange s) \<noteq> 0 \<Longrightarrow> applied_risk c' = desired_risk c \<and> retry c' = 0"
    and "fst (tick_exchange s) = 0 \<Longrightarrow> applied_risk c' = applied_risk c \<and> retry c' = retry c + 1"
proof -
  note f = tick_exchange_facts [OF wf ch]
  have len: "length (channel_ctrl s) = 4" using wf by (simp add: master_wf_def channels_wf_def)
  have same: "applied_risk (ctrl (snd (tick_exchange s)) (sched_choice s)) = applied_risk c"
    "retry (ctrl (snd (tick_exchange s)) (sched_choice s)) = retry c"
    using sched_core_eqD(4,5,6) [OF f(4), of "unat (sched_choice s)"] f(1) len by (simp_all add: ctrl_def c_def)
  have now: "now (sched_tick s) = now (snd (tick_exchange s))"
    by (simp add: sched_tick_dispatch [OF ch] dispatch_channel_frame tick_exchange_def)
  have c': "c' = settled (fst (tick_exchange s)) (desired_risk c) (now (snd (tick_exchange s)))
      (ctrl (snd (tick_exchange s)) (sched_choice s))"
    using f by (simp add: c'_def c_def ctrl_def sched_tick_ctrl [OF wf ch])
  show "last_tx_tick c' = now (sched_tick s)" by (simp add: c' now)
  show "fst (tick_exchange s) \<noteq> 0 \<Longrightarrow> applied_risk c' = desired_risk c \<and> retry c' = 0"
    by (simp add: c')
  show "fst (tick_exchange s) = 0 \<Longrightarrow> applied_risk c' = applied_risk c \<and> retry c' = retry c + 1"
    by (simp add: c' same)
qed

lemma sched_tick_status:
  assumes wf: "master_wf s" and ch: "sched_choice s \<noteq> SCHED_NO_CHANNEL"
  shows "channel_status (sched_tick s) =
    (if fst (tick_exchange s) \<noteq> 0
     then (channel_status s)[unat (sched_choice s) := risk_to_status (desired_risk (ctrl s (sched_choice s)))]
     else channel_status s)"
  using sched_core_eqD(1) [OF tick_exchange_facts(4) [OF wf ch]]
  by (simp add: sched_tick_dispatch [OF ch] dispatch_channel_status tick_exchange_def Let_def)

lemma sched_tick_cursor:
  assumes "master_wf s" and "sched_choice s \<noteq> SCHED_NO_CHANNEL"
  shows "sched_cursor (sched_tick s) = (sched_choice s + 1) mod 4"
  using sched_core_eqD(2) [OF tick_exchange_facts(4) [OF assms]]
  by (simp add: sched_tick_dispatch [OF assms(2)] dispatch_channel_frame tick_exchange_def)

text \<open>C5: A tick that picks a channel stamps it with the time the exchange ended. If the exchange was
  confirmed, the channel's confirmed level becomes the requested one, its failure count is cleared
  and its reported status is that level's picture; if not, the confirmed level and the reported
  status stay what they were and the failure count grows by one. No other channel's confirmed level,
  failure count, time stamp or status changes, and the cursor moves behind the channel picked.\<close>

theorem tick_outcome:
  assumes "master_wf s" and "sched_choice s \<noteq> SCHED_NO_CHANNEL"
  shows "let ch = sched_choice s; c = ctrl s ch; t = sched_tick s; c' = ctrl t ch in
       ch < 4 \<and> last_tx_tick c' = now t \<and> sched_cursor t = (ch + 1) mod 4
     \<and> (if fst (tick_exchange s) = 0
        then applied_risk c' = applied_risk c \<and> retry c' = retry c + 1
             \<and> channel_status t = channel_status s
        else applied_risk c' = desired_risk c \<and> retry c' = 0
             \<and> channel_status t = (channel_status s)[unat ch := risk_to_status (desired_risk c)])
     \<and> map sched_fields (take (unat ch) (channel_ctrl t) @ drop (unat ch + 1) (channel_ctrl t))
         = map sched_fields (take (unat ch) (channel_ctrl s) @ drop (unat ch + 1) (channel_ctrl s))"
proof -
  note chosen = sched_tick_chosen [OF assms]
  have ch: "sched_choice s < 4" using tick_exchange_facts(1) [OF assms] by (simp add: word_less_nat_alt)
  have len: "length (channel_ctrl s) = 4" "length (channel_ctrl (sched_tick s)) = 4"
    using assms(1) sched_tick_wf [OF assms(1)] by (simp_all add: master_wf_def channels_wf_def)
  have others: "map sched_fields (take n (channel_ctrl (sched_tick s)) @ drop (n + 1) (channel_ctrl (sched_tick s)))
      = map sched_fields (take n (channel_ctrl s) @ drop (n + 1) (channel_ctrl s))"
    if "n = unat (sched_choice s)" for n
    by (rule nth_equalityI) (use len that in \<open>auto simp: nth_append sched_tick_other [OF assms(1)]\<close>)
  show ?thesis
    using chosen ch sched_tick_cursor [OF assms] others sched_tick_status [OF assms] by (simp add: Let_def)
qed

theorem tick_outcome_witness:
  "applied_risk (ctrl (sched_tick witness_state) 0) = 0 \<and> retry (ctrl (sched_tick witness_state) 0) = 0
     \<and> channel_status (sched_tick witness_state) = (channel_status witness_state)[0 := risk_to_status 0]"
proof -
  have ch: "sched_choice witness_state = 0" by code_simp
  have ok: "fst (tick_exchange witness_state) = 1" by code_simp
  have "desired_risk (ctrl witness_state 0) = 0" by code_simp
  then show ?thesis
    using tick_outcome [OF witness_state_wf] by (simp add: ch ok Let_def)
qed

subsection \<open>The choice of the channel\<close>

lemma master_cursor: "master_wf s \<Longrightarrow> sched_cursor s < 4"
  by (simp add: master_wf_def)

lemma danger_choice:
  assumes "master_wf s" and "ch < 4" and "passes 1 s ch"
  shows "sched_choice s < 4" "sched_choice s \<noteq> SCHED_NO_CHANNEL" "passes 1 s (sched_choice s)"
proof -
  have some: "pick_pending 1 s \<noteq> SCHED_NO_CHANNEL"
    using pick_pending_none [OF master_cursor [OF assms(1)], of 1] assms(2,3) by blast
  then show "sched_choice s < 4" "sched_choice s \<noteq> SCHED_NO_CHANNEL" "passes 1 s (sched_choice s)"
    using pick_pending_nearest(1) [OF master_cursor [OF assms(1)] some] by (simp_all add: sched_choice_def)
qed

text \<open>C6: A pending alarm goes first: when some channel is asked to show danger, has not confirmed it
  and is not backing off from a failure, then the one frame the tick sends on the bus commands danger,
  for a channel that was itself asked to show danger and had not confirmed it, and the cursor moves
  behind that channel.\<close>

theorem danger_goes_first:
  assumes "master_wf s" and "ch < 4"
    and "desired_risk (ctrl s ch) = VEDA_RISK_DANGER" and "applied_risk (ctrl s ch) \<noteq> VEDA_RISK_DANGER"
    and "retry (ctrl s ch) = 0 \<or> now s - last_tx_tick (ctrl s ch) \<ge> SCHED_RETRY_BACKOFF_MSEC"
  shows "\<exists>c<4. desired_risk (ctrl s c) = VEDA_RISK_DANGER \<and> applied_risk (ctrl s c) \<noteq> VEDA_RISK_DANGER
           \<and> on_bus (sched_tick s) = on_bus s @ [command_frame c VEDA_RISK_DANGER]
           \<and> sched_cursor (sched_tick s) = (c + 1) mod CHANNEL_COUNT"
proof -
  have "passes 1 s ch" using assms(3-5) by (simp add: passes_1_danger)
  note c = danger_choice [OF assms(1,2) this]
  show ?thesis
    using c by (intro exI [of _ "sched_choice s"])
      (simp add: passes_1_danger sched_tick_bus sched_tick_cursor [OF assms(1)])
qed

definition alarm_state :: master where
  "alarm_state = ctrl_event \<lparr> ev_channel_id = 2, ev_risk_level = 2, ev_reserved0 = replicate 6 0,
     ev_timestamp_ms = 0, ev_dist_mm = 0xFFFF, ev_reserved1 = replicate 6 0 \<rparr> (master_boot_state 100 [] [])"

lemma alarm_state_wf: "master_wf alarm_state"
  by (simp add: alarm_state_def ctrl_event_wf master_boot_state_wf)

theorem danger_goes_first_witness:
  "\<exists>c<4. desired_risk (ctrl alarm_state c) = VEDA_RISK_DANGER
     \<and> applied_risk (ctrl alarm_state c) \<noteq> VEDA_RISK_DANGER
     \<and> on_bus (sched_tick alarm_state) = on_bus alarm_state @ [command_frame c VEDA_RISK_DANGER]
     \<and> sched_cursor (sched_tick alarm_state) = (c + 1) mod CHANNEL_COUNT"
proof (rule danger_goes_first [OF alarm_state_wf])
  show "(2 :: u8) < 4" by simp
  show "desired_risk (ctrl alarm_state 2) = VEDA_RISK_DANGER" by code_simp
  show "applied_risk (ctrl alarm_state 2) \<noteq> VEDA_RISK_DANGER" by code_simp
  show "retry (ctrl alarm_state 2) = 0
      \<or> now alarm_state - last_tx_tick (ctrl alarm_state 2) \<ge> SCHED_RETRY_BACKOFF_MSEC" by code_simp
qed

lemma dist_step:
  assumes "cu < 4" "c < 4" "d < (4 :: nat)" "(c + 4 - cu) mod 4 \<le> (d + 4 - cu) mod 4" "c \<noteq> d"
  shows "(d + 4 - (c + 1) mod 4) mod 4 < (d + 4 - cu) mod 4"
  using assms by (simp add: nat_less_4) (elim disjE; simp)

text \<open>C7: The channels take turns: among the channels eligible in the pass that decides, the one picked
  is the nearest behind the cursor, and every other eligible channel is strictly nearer to the cursor
  after the tick. So an eligible channel waits for at most three others of its pass.\<close>

theorem channels_take_turns:
  assumes "master_wf s" and "ch < 4"
    and "passes (if pick_pending 1 s = SCHED_NO_CHANNEL then 0 else 1) s ch"
  shows "dist s (sched_choice s) \<le> dist s ch \<and> dist s ch < 4
     \<and> (sched_choice s = ch \<or> dist (sched_tick s) ch < dist s ch)"
proof -
  let ?d = "if pick_pending 1 s = SCHED_NO_CHANNEL then 0 else 1 :: u8"
  note cur = master_cursor [OF assms(1)]
  have choice: "sched_choice s = pick_pending ?d s" by (simp add: sched_choice_def)
  have some: "pick_pending ?d s \<noteq> SCHED_NO_CHANNEL"
    using pick_pending_none [OF cur, of ?d] assms(2,3) by blast
  have near: "dist s (sched_choice s) \<le> dist s ch" and c4: "sched_choice s < 4"
    using pick_pending_nearest [OF cur some] assms(2,3) unfolding choice by auto
  have cursor: "sched_cursor (sched_tick s) = (sched_choice s + 1) mod 4"
    using sched_tick_cursor [OF assms(1)] some unfolding choice by simp
  have un: "unat ((sched_choice s + 1) mod 4) = (unat (sched_choice s) + 1) mod 4"
    using c4 by (simp add: unat_mod_distrib unat_word_ariths word_less_nat_alt)
  have "sched_choice s \<noteq> ch \<Longrightarrow> dist (sched_tick s) ch < dist s ch"
    unfolding dist_def cursor un
    by (rule dist_step) (use near cur c4 assms(2) in \<open>auto simp: dist_def word_less_nat_alt word_unat_eq_iff\<close>)
  moreover have "dist s ch < 4" by (simp add: dist_def)
  ultimately show ?thesis using near by blast
qed

theorem channels_take_turns_witness:
  "dist witness_state (sched_choice witness_state) \<le> dist witness_state 3 \<and> dist witness_state 3 < 4
     \<and> (sched_choice witness_state = 3 \<or> dist (sched_tick witness_state) 3 < dist witness_state 3)"
proof (rule channels_take_turns [OF witness_state_wf])
  show "(3 :: u8) < 4" by simp
  show "passes (if pick_pending 1 witness_state = SCHED_NO_CHANNEL then 0 else 1) witness_state 3"
    by code_simp
qed

lemma passes_weaken: "passes 1 s ch \<Longrightarrow> passes 0 s ch"
  by (auto simp: passes_1_danger passes_0)

lemma choice_passes:
  assumes "master_wf s" and "sched_choice s \<noteq> SCHED_NO_CHANNEL"
  shows "passes 0 s (sched_choice s)"
proof (cases "pick_pending 1 s = SCHED_NO_CHANNEL")
  case True
  then show ?thesis
    using assms(2) pick_pending_nearest(1) [OF master_cursor [OF assms(1)], of 0] by (simp add: sched_choice_def)
next
  case False
  then show ?thesis
    using pick_pending_nearest(1) [OF master_cursor [OF assms(1)], of 1]
    by (simp add: sched_choice_def passes_weaken)
qed

text \<open>Whether a channel has nothing to be sent: it either shows what was asked and was sent to less than
  two seconds ago, or has failed and is backing off since less than half a second.\<close>

definition settled_channel :: "master \<Rightarrow> u8 \<Rightarrow> bool" where
  "settled_channel s ch \<longleftrightarrow>
     (if desired_risk (ctrl s ch) = applied_risk (ctrl s ch)
      then now s - last_tx_tick (ctrl s ch) < SCHED_REFRESH_MSEC
      else retry (ctrl s ch) \<noteq> 0 \<and> now s - last_tx_tick (ctrl s ch) < SCHED_RETRY_BACKOFF_MSEC)"

lemma no_choice_settled:
  assumes "master_wf s"
  shows "sched_choice s = SCHED_NO_CHANNEL \<longleftrightarrow> (\<forall>ch. ch < 4 \<longrightarrow> settled_channel s ch)"
proof -
  note cur = master_cursor [OF assms]
  have "sched_choice s = SCHED_NO_CHANNEL \<longleftrightarrow> (\<forall>ch. ch < 4 \<longrightarrow> \<not> passes 0 s ch)"
    using pick_pending_none [OF cur, of 0] pick_pending_none [OF cur, of 1] passes_weaken [of s]
    by (auto simp: sched_choice_def)
  also have "\<dots> \<longleftrightarrow> (\<forall>ch. ch < 4 \<longrightarrow> settled_channel s ch)"
    by (simp add: passes_0 settled_channel_def not_le conj_commute)
  finally show ?thesis .
qed

text \<open>C8: A tick leaves the bus alone exactly when there is nothing to do: every channel either shows
  what was asked and was sent to less than two seconds ago, or has failed and is backing off since
  less than half a second. It then changes nothing at all; otherwise it sends exactly one frame, the
  command of the requested level to a channel that is not settled.\<close>

theorem idle_iff_settled:
  assumes "master_wf s"
  shows "(on_bus (sched_tick s) = on_bus s \<longleftrightarrow>
       (\<forall>ch. ch < 4 \<longrightarrow> settled_channel s ch))
     \<and> (sched_tick s = s \<or>
        (\<exists>c<4. \<not> settled_channel s c
           \<and> on_bus (sched_tick s) = on_bus s @ [command_frame c (desired_risk (ctrl s c))]))"
proof -
  have bus: "on_bus (sched_tick s) = on_bus s \<longleftrightarrow> sched_choice s = SCHED_NO_CHANNEL"
    by (simp add: sched_tick_bus)
  have "sched_tick s = s \<or> (\<exists>c<4. \<not> settled_channel s c
      \<and> on_bus (sched_tick s) = on_bus s @ [command_frame c (desired_risk (ctrl s c))])"
  proof (cases "sched_choice s = SCHED_NO_CHANNEL")
    case False
    have "\<not> settled_channel s (sched_choice s)"
      using choice_passes [OF assms False] by (auto simp: passes_0 settled_channel_def split: if_splits)
    then show ?thesis
      using False sched_choice_less4 [OF master_cursor [OF assms] False] by (auto simp: sched_tick_bus)
  qed (simp add: sched_tick_idle)
  then show ?thesis using no_choice_settled [OF assms] unfolding bus by blast
qed

theorem idle_iff_settled_witness:
  "(on_bus (sched_tick witness_state) = on_bus witness_state \<longleftrightarrow>
       (\<forall>ch. ch < 4 \<longrightarrow> settled_channel witness_state ch))
     \<and> (sched_tick witness_state = witness_state \<or>
        (\<exists>c<4. \<not> settled_channel witness_state c
           \<and> on_bus (sched_tick witness_state)
               = on_bus witness_state @ [command_frame c (desired_risk (ctrl witness_state c))]))"
  by (rule idle_iff_settled [OF witness_state_wf])

lemma failed_channel_waits:
  assumes "master_wf s" and "sched_choice s \<noteq> SCHED_NO_CHANNEL" and "fst (tick_exchange s) = 0"
    and "retry (ctrl s (sched_choice s)) \<noteq> 0xFFFF"
    and "sched_fields (ctrl t (sched_choice s)) = sched_fields (ctrl (sched_tick s) (sched_choice s))"
    and "now t = now (sched_tick s) + word_of_nat n" and "n < 500"
  shows "\<not> passes 0 t (sched_choice s)" "\<not> passes 1 t (sched_choice s)"
proof -
  note c = sched_tick_chosen [OF assms(1,2)]
  have f: "applied_risk (ctrl t (sched_choice s)) = applied_risk (ctrl s (sched_choice s))"
    "retry (ctrl t (sched_choice s)) = retry (ctrl s (sched_choice s)) + 1"
    "last_tx_tick (ctrl t (sched_choice s)) = now (sched_tick s)"
    using assms(5) c(1) c(3) [OF assms(3)] by (simp_all add: sched_fields_def)
  have "retry (ctrl s (sched_choice s)) + 1 \<noteq> 0"
    using assms(4) by (simp only: minus_one_u16 flip: eq_neg_iff_add_eq_0) simp
  moreover have "now t - now (sched_tick s) = word_of_nat n" using assms(6) by simp
  then have "now t - now (sched_tick s) < 500" "now t - now (sched_tick s) < 2000"
    using assms(7) by (simp_all add: word_less_nat_alt unat_of_nat take_bit_nat_eq_self_iff)
  ultimately show "\<not> passes 0 t (sched_choice s)" "\<not> passes 1 t (sched_choice s)"
    by (auto simp: passes_0 passes_1_danger f not_le)
qed

text \<open>C9: A channel whose exchange failed, a refresh included, stands back: in whatever state the
  master is less than half a second later - another level may have been asked for, other channels
  served - the next tick sends that channel nothing and leaves its confirmed level, failure count and
  time stamp alone, so it cannot hold the bus against the others. The one exception is a failure
  count that just wrapped to zero.\<close>

theorem failed_channel_stands_back:
  assumes "master_wf s" and "sched_choice s \<noteq> SCHED_NO_CHANNEL" and "fst (tick_exchange s) = 0"
    and "retry (ctrl s (sched_choice s)) \<noteq> 0xFFFF"
    and "master_wf t"
    and "sched_fields (ctrl t (sched_choice s)) = sched_fields (ctrl (sched_tick s) (sched_choice s))"
    and "now t = now (sched_tick s) + word_of_nat n" and "n < 500"
  shows "\<exists>frames. on_bus (sched_tick t) = on_bus t @ frames
           \<and> (\<forall>r. command_frame (sched_choice s) r \<notin> set frames)
           \<and> sched_fields (ctrl (sched_tick t) (sched_choice s)) = sched_fields (ctrl t (sched_choice s))"
proof -
  note c = tick_exchange_facts(1) [OF assms(1,2)]
  have "\<not> passes 0 t (sched_choice s)" "\<not> passes 1 t (sched_choice s)"
    using failed_channel_waits [OF assms(1-4,6-8)] by blast+
  then have ne: "sched_choice t \<noteq> SCHED_NO_CHANNEL \<Longrightarrow> sched_choice s \<noteq> sched_choice t"
    using choice_passes [OF assms(5)] by auto
  moreover have "sched_choice t = SCHED_NO_CHANNEL \<Longrightarrow> sched_choice s \<noteq> sched_choice t"
    using c by auto
  ultimately have other: "unat (sched_choice s) \<noteq> unat (sched_choice t)"
    by (metis word_unat_eq_iff)
  show ?thesis
    using ne sched_tick_other [OF assms(5) c other]
    by (auto simp: sched_tick_bus ctrl_def dest: command_frame_channel)
qed

text \<open>The first channel's slave is silent: the exchange fails, and the channel stands back while its
  neighbour is served.\<close>

definition silent_state :: master where
  "silent_state = master_boot_state 1000 [] []"

lemma silent_state_wf: "master_wf silent_state"
  by (simp add: silent_state_def master_boot_state_wf)

theorem failed_channel_stands_back_witness:
  "\<exists>frames. on_bus (sched_tick (sched_tick silent_state)) = on_bus (sched_tick silent_state) @ frames
     \<and> (\<forall>r. command_frame 0 r \<notin> set frames)
     \<and> sched_fields (ctrl (sched_tick (sched_tick silent_state)) 0)
         = sched_fields (ctrl (sched_tick silent_state) 0)"
proof -
  have ch: "sched_choice silent_state = 0" by code_simp
  have fail: "fst (tick_exchange silent_state) = 0" by code_simp
  have "retry (ctrl silent_state 0) \<noteq> 0xFFFF" by code_simp
  then show ?thesis
    using failed_channel_stands_back [OF silent_state_wf _ fail _ sched_tick_wf [OF silent_state_wf], of 0]
    by (simp add: ch)
qed

subsection \<open>Reporting\<close>

lemma tick_uplink:
  assumes wf: "master_wf s" and ch: "sched_choice s \<noteq> SCHED_NO_CHANNEL"
  defines "u \<equiv> uplink_queue (snd (tick_exchange s))"
  shows "q_items (uplink_queue (sched_tick s)) = q_items u
    @ (if desired_risk (ctrl s (sched_choice s)) \<noteq> applied_risk (ctrl s (sched_choice s))
          \<and> length (q_items u) < UPLINK_QUEUE_DEPTH
       then [last (q_items (uplink_queue (sched_tick s)))] else [])"
    and "desired_risk (ctrl s (sched_choice s)) \<noteq> applied_risk (ctrl s (sched_choice s)) \<Longrightarrow>
      length (q_items u) < UPLINK_QUEUE_DEPTH \<Longrightarrow>
      (let p = last (q_items (uplink_queue (sched_tick s)))
       in up_channel_id p = sched_choice s \<and> up_reason p = VEDA_UPLINK_REASON_ACK
          \<and> packet_status p = status_fields (channel_status (sched_tick s) ! unat (sched_choice s)))"
proof -
  let ?ch = "sched_choice s"
  let ?x = "tick_exchange s"
  let ?s2 = "upd_ctrl ?ch (\<lambda>c. c\<lparr> last_tx_tick := osKernelGetTickCount (snd ?x) \<rparr>) (snd ?x)"
  define s3 where "s3 = (if fst ?x \<noteq> 0 then dispatch_success ?ch (desired_risk (ctrl s ?ch)) ?s2
                         else dispatch_failure ?ch ?s2)"
  have s3: "uplink_queue s3 = u"
    by (simp add: s3_def u_def dispatch_success_def dispatch_failure_def Let_def)
  have q: "wf_queue (uplink_queue s3)" "uxLength (uplink_queue s3) = 12"
    using tick_exchange_facts(5) [OF wf ch] by (simp_all add: s3 u_def master_wf_defs)
  have t: "sched_tick s = (if desired_risk (ctrl s ?ch) \<noteq> applied_risk (ctrl s ?ch)
      then enqueue_uplink ?ch VEDA_UPLINK_REASON_ACK s3 else s3)"
    by (simp add: sched_tick_dispatch [OF ch] dispatch_channel_def tick_exchange_def s3_def
        split_def Let_def)
  note e = enqueue_uplink_items(2) [OF q(1), of ?ch VEDA_UPLINK_REASON_ACK]
  show "q_items (uplink_queue (sched_tick s)) = q_items u
    @ (if desired_risk (ctrl s ?ch) \<noteq> applied_risk (ctrl s ?ch) \<and> length (q_items u) < UPLINK_QUEUE_DEPTH
       then [last (q_items (uplink_queue (sched_tick s)))] else [])"
    using e q(2) by (simp add: t s3)
  show "desired_risk (ctrl s ?ch) \<noteq> applied_risk (ctrl s ?ch) \<Longrightarrow>
      length (q_items u) < UPLINK_QUEUE_DEPTH \<Longrightarrow>
      (let p = last (q_items (uplink_queue (sched_tick s)))
       in up_channel_id p = ?ch \<and> up_reason p = VEDA_UPLINK_REASON_ACK
          \<and> packet_status p = status_fields (channel_status (sched_tick s) ! unat ?ch))"
    using e q(2) by (simp add: t s3 frame_simps Let_def)
      (simp add: uplink_packet_for_def Let_def)
qed

text \<open>C10: After trying a channel whose level was still to be confirmed, the master queues exactly one
  acknowledgement packet for that channel, if the uplink queue has room, carrying the status reported
  after the exchange - the new level if it was confirmed, the old status if not; a mere refresh queues
  nothing.\<close>

theorem tick_reports:
  assumes "master_wf s" and "sched_choice s \<noteq> SCHED_NO_CHANNEL"
  shows "let before = q_items (uplink_queue (snd (tick_exchange s)));
           after = q_items (uplink_queue (sched_tick s));
           ch = sched_choice s
       in if desired_risk (ctrl s ch) \<noteq> applied_risk (ctrl s ch) \<and> length before < UPLINK_QUEUE_DEPTH
          then \<exists>p. after = before @ [p] \<and> up_channel_id p = ch \<and> up_reason p = VEDA_UPLINK_REASON_ACK
                 \<and> packet_status p = status_fields (channel_status (sched_tick s) ! unat ch)
          else after = before"
  using tick_uplink [OF assms] by (auto simp: Let_def split: if_splits)

theorem tick_reports_witness:
  "\<exists>p. q_items (uplink_queue (sched_tick witness_state)) = [p] \<and> up_channel_id p = 0
     \<and> up_reason p = VEDA_UPLINK_REASON_ACK \<and> packet_status p = (0, 0, 0, 0, 1)"
proof -
  have ch: "sched_choice witness_state = 0" by code_simp
  have before: "q_items (uplink_queue (snd (tick_exchange witness_state))) = []" by code_simp
  have pending: "desired_risk (ctrl witness_state 0) \<noteq> applied_risk (ctrl witness_state 0)" by code_simp
  have status: "status_fields (channel_status (sched_tick witness_state) ! 0) = (0, 0, 0, 0, 1)"
    by code_simp
  show ?thesis
    using tick_reports [OF witness_state_wf] pending status by (simp add: ch before Let_def)
qed

end
