(* ===== verification/Link_Properties.thy ===== *)
theory Link_Properties
  imports Master_Run
begin

text \<open>The properties of the master's links: the frames from and to the Raspberry Pi, the
  acknowledgement lines of the bus, the queues between tasks, the clock, the debug numbers and the
  boot.\<close>

subsection \<open>Frames from the Raspberry Pi\<close>

text \<open>C11: The downlink parser accepts nothing but frames: whatever bytes came before, when it accepts
  an event, the bytes read last are exactly a frame of that event, with start byte, 24 payload bytes,
  the XOR checksum and the end byte.\<close>

theorem downlink_sound:
  assumes "dl_wf s" and "downlink_state s = DL_WAIT_START"
    and "fst (downlink_feed_byte b (snd (downlink_feed_all bs s))) = Some e"
  shows "wf_event e \<and> (\<exists>pre. bs @ [b] = pre @ downlink_frame_bytes (valid_frame e))"
proof -
  have "dl_remembers s []" using assms(1,2) by (simp add: dl_remembers_def)
  from feed_all_remembers [OF this, of bs] have "dl_remembers (snd (downlink_feed_all bs s)) bs"
    by simp
  from feed_accept_frame [OF this assms(3)] show ?thesis .
qed

definition sample_event :: veda_risk_event_t where
  "sample_event = \<lparr> ev_channel_id = 2, ev_risk_level = 2, ev_reserved0 = replicate 6 0,
     ev_timestamp_ms = 0x0102030405060708, ev_dist_mm = 0xFFFF, ev_reserved1 = replicate 6 0 \<rparr>"

definition fresh :: master where
  "fresh = master_boot_state 0 [] []"

lemma wf_sample_event: "wf_event sample_event"
  by (simp add: sample_event_def wf_event_def)

lemma fresh_simps [simp]: "downlink_state fresh = DL_WAIT_START" "length (downlink_payload fresh) = 24"
  "dl_wf fresh"
  using master_boot_state_wf [of 0 "[]" "[]"]
  by (simp_all add: fresh_def master_wf_defs)
    (simp add: master_boot_state_def master_memory_init, simp add: master_memory_def)

theorem downlink_sound_witness:
  "wf_event sample_event \<and> (\<exists>pre. butlast (downlink_frame_bytes (valid_frame sample_event)) @ [VEDA_END_BYTE]
      = pre @ downlink_frame_bytes (valid_frame sample_event))"
proof (rule downlink_sound [OF fresh_simps(3,1)])
  show "fst (downlink_feed_byte VEDA_END_BYTE
      (snd (downlink_feed_all (butlast (downlink_frame_bytes (valid_frame sample_event))) fresh))) = Some sample_event"
    by code_simp
qed

lemma feed_valid_frames:
  "downlink_state s = DL_WAIT_START \<Longrightarrow> length (downlink_payload s) = 24 \<Longrightarrow> list_all wf_event es \<Longrightarrow>
    fst (downlink_feed_all (concat (map (downlink_frame_bytes \<circ> valid_frame) es)) s) = es
    \<and> downlink_state (snd (downlink_feed_all (concat (map (downlink_frame_bytes \<circ> valid_frame) es)) s)) = DL_WAIT_START"
proof (induction es arbitrary: s)
  case (Cons e es)
  then have wf: "wf_event e" by simp
  note f = feed_valid_frame [OF Cons.prems(1,2) wf]
  show ?case
    using Cons.IH [of "snd (downlink_feed_all (downlink_frame_bytes (valid_frame e)) s)"] Cons.prems wf
    by (simp add: feed_all_append f Let_def split_def)
qed simp

text \<open>C12: Nothing that was sent is lost by the parser: after any noise without a start byte, a sequence
  of correct frames is accepted event by event, in order, completely, and the parser waits for the
  next frame.\<close>

theorem downlink_complete:
  assumes "downlink_state s = DL_WAIT_START" and "length (downlink_payload s) = 24"
    and "VEDA_START_BYTE \<notin> set noise" and "list_all wf_event es"
  shows "fst (downlink_feed_all (noise @ concat (map (downlink_frame_bytes \<circ> valid_frame) es)) s) = es
    \<and> downlink_state (snd (downlink_feed_all (noise @ concat (map (downlink_frame_bytes \<circ> valid_frame) es)) s))
        = DL_WAIT_START"
  using feed_valid_frames [OF assms(1,2,4)] feed_garbage [OF assms(1,3)]
  by (simp add: feed_all_append split_def Let_def)

theorem downlink_complete_witness:
  "fst (downlink_feed_all ([1, 2, 0x45] @ concat (map (downlink_frame_bytes \<circ> valid_frame)
      [sample_event, sample_event])) fresh) = [sample_event, sample_event]"
  using downlink_complete [OF fresh_simps(1,2), of "[1, 2, 0x45]" "[sample_event, sample_event]"]
    wf_sample_event by simp

text \<open>C13: One corrupted byte anywhere behind the start byte of a frame, in the payload, the checksum or
  the end byte, makes the parser reject the whole frame: no event, one more bad frame counted, and
  the parser is waiting for the next start byte.\<close>

theorem downlink_corruption_detected:
  assumes "downlink_state s = DL_WAIT_START" and "length (downlink_payload s) = 24" and "wf_event e"
    and "1 \<le> i" and "i < 27" and "b \<noteq> downlink_frame_bytes (valid_frame e) ! i"
  shows "let r = downlink_feed_all ((downlink_frame_bytes (valid_frame e))[i := b]) s
     in fst r = [] \<and> downlink_state (snd r) = DL_WAIT_START
        \<and> stat_frames_bad (stats (snd r)) = stat_frames_bad (stats s) + 1"
proof -
  let ?p = "event_bytes e"
  have len: "length ?p = 24" using assms(3) by simp
  have frame: "downlink_frame_bytes (valid_frame e)
      = [VEDA_START_BYTE] @ ?p @ [xor_list ?p, VEDA_END_BYTE]"
    using len by (simp add: downlink_frame_bytes_def valid_frame_def veda_downlink_checksum_def
        veda_checksum_full)
  consider "i \<le> 24" | "i = 25" | "i = 26" using assms(5) by linarith
  then obtain p c x where bad: "(downlink_frame_bytes (valid_frame e))[i := b]
      = [VEDA_START_BYTE] @ p @ [c, x]" "length p = 24" "\<not> (x = VEDA_END_BYTE \<and> xor_list p = c)"
  proof cases
    case 1
    have "i - 1 < 24" using 1 assms(4) by linarith
    then have "?p ! (i - 1) \<noteq> b" using assms(4,6) len by (auto simp: frame nth_Cons' nth_append)
    then have "xor_list (?p[i - 1 := b]) \<noteq> xor_list ?p"
      using xor_list_update_neq [of "i - 1" ?p b] 1 assms(4) len by auto
    then show ?thesis
      using that [of "?p[i - 1 := b]" "xor_list ?p" VEDA_END_BYTE] 1 assms(4) len
      by (simp add: frame list_update_append split: nat.split)
  next
    case 2
    then have "b \<noteq> xor_list ?p" using assms(6) len by (auto simp: frame nth_append)
    then show ?thesis
      using that [of ?p b VEDA_END_BYTE] 2 len by (simp add: frame list_update_append)
  next
    case 3
    then have "b \<noteq> VEDA_END_BYTE" using assms(6) len by (auto simp: frame nth_append)
    then show ?thesis
      using that [of ?p "xor_list ?p" b] 3 len by (simp add: frame list_update_append)
  qed
  show ?thesis
    unfolding bad(1) feed_any_frame [OF assms(1,2) bad(2)] Let_def
    using bad(3) assms(1) by (simp add: count_frames_bad_def)
qed

theorem downlink_corruption_detected_witness:
  "let r = downlink_feed_all ((downlink_frame_bytes (valid_frame sample_event))[3 := 0x40]) fresh
     in fst r = [] \<and> downlink_state (snd r) = DL_WAIT_START
        \<and> stat_frames_bad (stats (snd r)) = stat_frames_bad (stats fresh) + 1"
proof (rule downlink_corruption_detected [OF fresh_simps(1,2) wf_sample_event])
  show "(1 :: nat) \<le> 3" "(3 :: nat) < 27" by simp_all
  show "(0x40 :: u8) \<noteq> downlink_frame_bytes (valid_frame sample_event) ! 3" by code_simp
qed

subsection \<open>Acknowledgement lines\<close>

text \<open>The acknowledgements contained in a stream of bytes: its complete lines that fit the buffer and
  read \<open>A<slave>:CH<channel>:R<level>\<close>.\<close>

definition acks_in :: "u8 list \<Rightarrow> rs485_ack_t list" where
  "acks_in bs = concat (map (\<lambda>l. case parse_ack l of None \<Rightarrow> [] | Some a \<Rightarrow> [a]) (assembled 16 bs))"

lemma parse_ack_not_S: "parse_ack l = Some a \<Longrightarrow> \<not> (l \<noteq> [] \<and> hd l = ascii CHR ''S'')"
  by (auto simp: parse_ack_iff ack_bytes_def)

lemma ack_line_act_put:
  assumes "length l \<le> 16"
  shows "ack_queue (ack_line_act l s) = ring.put_all
    (case parse_ack l of None \<Rightarrow> [] | Some a \<Rightarrow> [a]) (ack_queue s)"
  using assms parse_ack_not_S [of l]
  by (auto simp: ack_feed_line_parse count_ack_bad_def ack_accept_def ack_queue_put_def
      osMessageQueuePut_ISR_eq osMessageQueuePut_rtos ring.put_all_def split: option.splits)

lemma fold_ack_line_act_put:
  "list_all (deliverable 16) ls \<Longrightarrow> ack_queue (fold ack_line_act ls s) =
     ring.put_all (concat (map (\<lambda>l. case parse_ack l of None \<Rightarrow> [] | Some a \<Rightarrow> [a]) ls)) (ack_queue s)"
  by (induction ls arbitrary: s) (simp_all add: ack_line_act_put deliverable_def ring.put_all_def)

lemma ack_stream_queue:
  assumes "master_wf s" and "ack_line_view s = ([], False)"
  shows "q_items (ack_queue (fold ack_feed_byte bs s)) =
     q_items (ack_queue s) @ take (8 - length (q_items (ack_queue s))) (acks_in bs)"
proof -
  have line: "ack_line_wf s" and q: "wf_queue (ack_queue s)" "uxLength (ack_queue s) = 8"
    using assms(1) by (simp_all add: master_wf_def queues_wf_def)
  have blank: "ack_queue (ack_line_blank t) = ack_queue t" for t by (simp add: ack_line_blank_def)
  have "ack_line_blank (fold ack_feed_byte bs s) = fold ack_line_act (assembled 16 bs) (ack_line_blank s)"
    using ack_asm.feed_stream [OF line assms(2)] .
  then have "ack_queue (fold ack_feed_byte bs s) = ack_queue (fold ack_line_act (assembled 16 bs) (ack_line_blank s))"
    by (metis blank)
  also have "\<dots> = ring.put_all (acks_in bs) (ack_queue s)"
    by (subst fold_ack_line_act_put) (simp_all add: acks_in_def blank assembled_def list_all_iff)
  finally show ?thesis by (simp add: ring.put_all_items [OF q(1)] q(2))
qed

text \<open>C14: The receive interrupt turns any stream of bus bytes, cut into lines of any length by any mix
  of carriage returns and line feeds, into exactly the well-formed acknowledgements it contains, in
  order; when the queue of eight is full the later ones are dropped. Echoed commands, empty lines,
  overlong lines and garbage produce nothing.\<close>

theorem ack_stream_parsed:
  assumes "master_wf s" and "ack_line_view s = ([], False)"
  shows "q_items (ack_queue (fold ack_feed_byte bs s)) =
     q_items (ack_queue s) @ take (8 - length (q_items (ack_queue s))) (acks_in bs)"
  using assms by (rule ack_stream_queue)

theorem ack_stream_parsed_witness:
  "q_items (ack_queue (fold ack_feed_byte (cstr ''S1:CH1:R2'' @ [LF] @ cstr ''A1:CH1:R2'' @ [CR, LF]
      @ cstr ''A1:CH1:R3'' @ [LF] @ cstr ''A2:CH4:R0'' @ [LF]) fresh)) =
   [\<lparr> ack_slave = 1, ack_channel = 1, ack_risk_level = 2 \<rparr>,
    \<lparr> ack_slave = 2, ack_channel = 4, ack_risk_level = 0 \<rparr>]"
proof -
  have "master_wf fresh" by (simp add: fresh_def master_boot_state_wf)
  moreover have "ack_line_view fresh = ([], False)" by code_simp
  moreover have "q_items (ack_queue fresh) = []" by code_simp
  moreover have "acks_in (cstr ''S1:CH1:R2'' @ [LF] @ cstr ''A1:CH1:R2'' @ [CR, LF]
      @ cstr ''A1:CH1:R3'' @ [LF] @ cstr ''A2:CH4:R0'' @ [LF]) =
    [\<lparr> ack_slave = 1, ack_channel = 1, ack_risk_level = 2 \<rparr>,
     \<lparr> ack_slave = 2, ack_channel = 4, ack_risk_level = 0 \<rparr>]" by code_simp
  ultimately show ?thesis by (simp only: ack_stream_parsed) simp
qed

subsection \<open>Commands\<close>

text \<open>C15: A command for one of the four channels makes the commanded level the requested one, levels
  other than warning and danger counting as none, and touches nothing the scheduler has confirmed; a
  repeated command changes nothing at all in the channel, so repetitions never pile up; a command for
  any other channel number is counted and changes no channel.\<close>

theorem command_latest_wins:
  assumes "length (channel_ctrl s) = 4"
  shows "let ch = ev_channel_id e; r = level_of (ev_risk_level e); t = ctrl_event e s in
     if ch < 4
     then desired_risk (ctrl t ch) = r \<and> sched_fields (ctrl t ch) = sched_fields (ctrl s ch)
        \<and> channel_ctrl t = (channel_ctrl s)[unat ch := ctrl t ch]
        \<and> (if desired_risk (ctrl s ch) = r then ctrl t ch = ctrl s ch
           else if applied_risk (ctrl s ch) = r then lat_pending (ctrl t ch) = 0
           else lat_pending (ctrl t ch) = 1 \<and> lat_risk (ctrl t ch) = r \<and> desired_tick (ctrl t ch) = now s)
     else channel_ctrl t = channel_ctrl s
        \<and> stat_bad_channel (stats t) = stat_bad_channel (stats s) + 1
        \<and> stat_last_bad_channel (stats t) = ucast ch"
proof (cases "ev_channel_id e < 4")
  case True
  then have "unat (ev_channel_id e) < length (channel_ctrl s)"
    using assms by (simp add: word_less_nat_alt)
  then show ?thesis
    using True by (simp add: Let_def ctrl_event_ctrl [OF True assms] ctrl_def ctrl_after_def sched_fields_def)
next
  case False
  then have "4 \<le> ev_channel_id e" by simp
  then show ?thesis
    using False by (simp add: ctrl_event_bad_channel count_bad_channel_def Let_def)
qed

theorem command_latest_wins_witness:
  "desired_risk (ctrl (ctrl_event sample_event fresh) 2) = 2"
proof -
  have "length (channel_ctrl fresh) = 4" by code_simp
  moreover have "ev_channel_id sample_event = 2" "ev_risk_level sample_event = 2"
    by (simp_all add: sample_event_def)
  ultimately show ?thesis
    using command_latest_wins [of fresh sample_event] by (simp add: Let_def level_of_def)
qed

subsection \<open>Packets to the Raspberry Pi\<close>

text \<open>C16: What the transmit task puts on the wire for a queued packet is one 19-byte frame that a
  receiver checking start byte, end byte and checksum decodes to exactly that packet; the packet
  leaves the queue whether or not the driver succeeds, and the matching counter goes up.\<close>

theorem uplink_frame_roundtrip:
  assumes "wf_queue (uplink_queue s)" and "q_items (uplink_queue s) = p # ps"
  shows "\<exists>bytes st. out (StartTxTask_iter s) = out s @ [UartTx USART6 bytes UPLINK_TX_TIMEOUT_MSEC st]
     \<and> length bytes = 19 \<and> uplink_parse bytes = Some p
     \<and> q_items (uplink_queue (StartTxTask_iter s)) = ps
     \<and> (if st = HAL_OK
        then stat_uplink_sent (stats (StartTxTask_iter s)) = stat_uplink_sent (stats s) + 1
        else stat_uplink_tx_fail (stats (StartTxTask_iter s)) = stat_uplink_tx_fail (stats s) + 1)"
proof -
  let ?s = "s\<lparr> uplink_queue := snd (osMessageQueueGet (uplink_queue s)) \<rparr>"
  have get: "fst (osMessageQueueGet (uplink_queue s)) = Some p"
    "q_items (snd (osMessageQueueGet (uplink_queue s))) = ps"
    using ring.get_some [OF assms(1)] ring.get_items [OF assms(1)] assms(2) by auto
  have "StartTxTask_iter s = uplink_send p ?s"
    by (simp add: StartTxTask_iter_def veda_uplink_queue_get_def split_def Let_def get(1))
  then show ?thesis
    using get(2) uplink_parse_frame [of p]
    by (auto simp: uplink_send_def Let_def split_def frame_simps
        intro!: exI [of _ "uplink_frame_bytes (uplink_frame p)"])
qed

definition beating :: master where
  "beating = StartHeartbeatTask_iter fresh"

theorem uplink_frame_roundtrip_witness:
  "\<exists>bytes st. out (StartTxTask_iter beating) = out beating @ [UartTx USART6 bytes UPLINK_TX_TIMEOUT_MSEC st]
     \<and> length bytes = 19 \<and> uplink_parse bytes = Some (hd (q_items (uplink_queue beating)))"
proof -
  have "master_wf beating" by (simp add: beating_def fresh_def master_boot_state_wf StartHeartbeatTask_iter_wf)
  then have q: "wf_queue (uplink_queue beating)" by (simp add: master_wf_def queues_wf_def)
  have "length (q_items (uplink_queue beating)) = 4" by code_simp
  then obtain p ps where "q_items (uplink_queue beating) = p # ps"
    by (cases "q_items (uplink_queue beating)") auto
  then show ?thesis using uplink_frame_roundtrip [OF q, of p ps] by auto
qed

lemma enqueue_uplink_room:
  assumes "wf_queue (uplink_queue s)" "length (q_items (uplink_queue s)) < uxLength (uplink_queue s)"
  shows "q_items (uplink_queue (enqueue_uplink ch r s)) = q_items (uplink_queue s) @ [uplink_packet_for ch r s]"
    and "wf_queue (uplink_queue (enqueue_uplink ch r s))"
    and "uxLength (uplink_queue (enqueue_uplink ch r s)) = uxLength (uplink_queue s)"
  using enqueue_uplink_items [OF assms(1), of ch r] assms(2) by simp_all

lemma beat_packet [simp]:
  "up_channel_id (uplink_packet_for ch r s) = ch" "up_reason (uplink_packet_for ch r s) = r"
  by (simp_all add: uplink_packet_for_def Let_def)

text \<open>A heartbeat with room in the queue adds one packet for each of the four channels, in channel
  order, marked as heartbeat and carrying that channel's reported status.\<close>

theorem heartbeat_covers_all:
  assumes "wf_queue (uplink_queue s)"
    and "length (q_items (uplink_queue s)) + 4 \<le> uxLength (uplink_queue s)"
  shows "\<exists>ps. q_items (uplink_queue (StartHeartbeatTask_iter s)) = q_items (uplink_queue s) @ ps
     \<and> map up_channel_id ps = [0, 1, 2, 3]
     \<and> (\<forall>p. p \<in> set ps \<longrightarrow> up_reason p = VEDA_UPLINK_REASON_HEARTBEAT)
     \<and> map packet_status ps = map (\<lambda>i. status_fields (channel_status s ! i)) [0, 1, 2, 3]"
proof -
  note s1 = enqueue_uplink_room [OF assms(1), of 0 1]
  let ?s1 = "enqueue_uplink 0 1 s"
  note s2 = enqueue_uplink_room [of ?s1 1 1]
  let ?s2 = "enqueue_uplink 1 1 ?s1"
  note s3 = enqueue_uplink_room [of ?s2 2 1]
  let ?s3 = "enqueue_uplink 2 1 ?s2"
  note s4 = enqueue_uplink_room [of ?s3 3 1]
  let ?ps = "[uplink_packet_for 0 1 s, uplink_packet_for 1 1 ?s1, uplink_packet_for 2 1 ?s2,
      uplink_packet_for 3 1 ?s3]"
  have "q_items (uplink_queue (StartHeartbeatTask_iter s)) = q_items (uplink_queue s) @ ?ps"
    using s1 s2 s3 s4 assms by (simp add: StartHeartbeatTask_iter_unfold del: length_q_items)
  then show ?thesis
    by (intro exI [of _ ?ps]) (auto simp: frame_simps)
qed

theorem heartbeat_covers_all_witness:
  "\<exists>ps. q_items (uplink_queue (StartHeartbeatTask_iter fresh)) = q_items (uplink_queue fresh) @ ps
     \<and> map up_channel_id ps = [0, 1, 2, 3]"
proof -
  have "master_wf fresh" by (simp add: fresh_def master_boot_state_wf)
  then have q: "wf_queue (uplink_queue fresh)" by (simp add: master_wf_def queues_wf_def)
  have room: "length (q_items (uplink_queue fresh)) + 4 \<le> uxLength (uplink_queue fresh)" by code_simp
  from heartbeat_covers_all [OF q room] obtain ps where
    "q_items (uplink_queue (StartHeartbeatTask_iter fresh)) = q_items (uplink_queue fresh) @ ps"
    "map up_channel_id ps = [0, 1, 2, 3]"
    by (elim exE conjE)
  then show ?thesis by (intro exI conjI)
qed

subsection \<open>Queues\<close>

text \<open>C17: A message queue created with depth n is a first-in first-out queue of at most n messages:
  over any course of sends from tasks and interrupts and of receives, however often its ring wraps, it
  gives the answers and holds the messages of a list that takes a message at its end while it has
  fewer than n, refuses it with an error otherwise, and gives its messages out from the front.\<close>

theorem queue_is_fifo:
  assumes "osMessageQueueNew irq heap n sz = Some q"
  shows "fst (run_ops rtos_op ps q) = fst (run_ops (fifo_op n) ps [])
     \<and> q_items (snd (run_ops rtos_op ps q)) = snd (run_ops (fifo_op n) ps [])
     \<and> length (q_items (snd (run_ops rtos_op ps q))) \<le> n"
proof -
  have "0 < n" "q = prvInitialiseNewQueue n"
    using assms by (auto simp: osMessageQueueNew_def split: if_splits)
  then have "wf_queue q" "q_items q = []" "uxLength q = n" by simp_all
  then show ?thesis using rtos_run_sim [of q ps] by simp
qed

text \<open>A queue of two messages that refuses one, wraps, and runs empty.\<close>

theorem queue_is_fifo_witness:
  "fst (run_ops rtos_op [Send 5, SendFromISR 6, Send 7, Receive, Send 8, Receive, Receive, Receive]
       (prvInitialiseNewQueue 2))
     = [Sent osOK, Sent osOK, Sent osErrorResource, Received (Some (5 :: u8)), Sent osOK, Received (Some 6),
        Received (Some 8), Received None]"
proof -
  have "osMessageQueueNew False True 2 1 = Some (prvInitialiseNewQueue 2 :: u8 Queue_t)"
    by (simp add: osMessageQueueNew_def)
  from queue_is_fifo [OF this, of "[Send 5, SendFromISR 6, Send 7, Receive, Send 8, Receive, Receive, Receive]"]
  show ?thesis by simp
qed

subsection \<open>Time\<close>

text \<open>C18: The 64-bit millisecond clock is exact: if at most one wrap of the 32-bit tick (49.7 days) has
  passed since it was read last, a reading returns the true number of milliseconds and leaves the
  clock in step with it; the heartbeat task alone reads it every half second.\<close>

theorem clock_is_exact:
  assumes "now s = word_of_nat t" and "t < 2 ^ 64"
    and "clock_value s \<le> t" and "t < clock_value s + 2 ^ 32"
  shows "unat (fst (veda_now_ms s)) = t \<and> clock_value (snd (veda_now_ms s)) = t"
  using veda_now_ms_exact [OF assms] by simp

theorem clock_is_exact_witness:
  "unat (fst (veda_now_ms (fresh\<lparr> ms_clock_last_tick := 0xFFFFFF00, ms_clock_wrap_count := 2, now := 0x10 \<rparr>)))
     = 3 * 2 ^ 32 + 16"
  using clock_is_exact [of "fresh\<lparr> ms_clock_last_tick := 0xFFFFFF00, ms_clock_wrap_count := 2, now := 0x10 \<rparr>"
      "3 * 2 ^ 32 + 16"] by (simp add: clock_value_def)

subsection \<open>Debug numbers\<close>

text \<open>Printing a 32-bit number sends its decimal representation: digits only, at most the ten the
  buffer holds, no leading zero unless the number is zero, and reading them back gives the number.\<close>

theorem number_printed_in_decimal:
  "\<exists>text st. out (dbg_print_u32 v s) = out s @ [UartTx USART2 text 100 st]
     \<and> decimal text = unat v \<and> list_all is_digit text
     \<and> length text \<le> 10 \<and> text \<noteq> [] \<and> (hd text = 48 \<longleftrightarrow> v = 0)"
proof -
  have zero: "v = 0 \<Longrightarrow> hd (dbg_text_u32 v) = 48"
    by (simp add: dbg_text_u32_rev dbg_digits_Cons [of 0])
  have digits: "dbg_text_u32 v \<noteq> []" "list_all is_digit (dbg_text_u32 v)"
    "v \<noteq> 0 \<Longrightarrow> hd (dbg_text_u32 v) \<noteq> 48"
    using dbg_digits_nonempty [of v] dbg_digits_all [of v] dbg_digits_last [of v]
    by (simp_all add: dbg_text_u32_rev hd_rev list_all_iff)
  show ?thesis
    using digits zero dbg_text_u32_length [of v] dbg_text_u32_decimal [of v]
    by (auto simp: dbg_print_u32_def frame_simps)
qed

subsection \<open>Boot\<close>

text \<open>C19: Booting the master ends in the running system exactly when every oscillator, clock, UART,
  mutex, queue and thread could be set up, and in Error_Handler otherwise. A successful boot has the
  invariant, knows no level of any channel, has 84 MHz system and bus clocks, both serial links at
  115200 baud 8N1 with interrupts at the priority FreeRTOS manages, and drives the relay, lamp and
  former strip pins low.\<close>

theorem boot_outcome:
  "(\<exists>b s. master_main e t res ag = Inr (b, s)) = boot_sane e
   \<and> (case master_main e t res ag of Inl _ \<Rightarrow> True
      | Inr (b, s) \<Rightarrow> master_wf s \<and> map applied_risk (channel_ctrl s) = replicate 4 SCHED_RISK_UNKNOWN
          \<and> channel_status s = replicate 4 blank_status
          \<and> map_option sysclk_hz (osc b) = Some 84000000
          \<and> uart_cfg b USART1 = Some uart_115200_8n1 \<and> uart_cfg b USART6 = Some uart_115200_8n1
          \<and> irq_prio b USART1 = Some 5 \<and> irq_prio b USART6 = Some 5
          \<and> map (drives b) [(GPIOA, 0), (GPIOA, 5), (GPIOA, 8)] = replicate 3 (Some False))"
proof -
  have "map applied_risk (channel_ctrl (master_boot_state t res ag)) = replicate 4 SCHED_RISK_UNKNOWN"
    "channel_status (master_boot_state t res ag) = replicate 4 blank_status"
    by (simp_all add: master_boot_state_def master_memory_init) (simp add: master_memory_def)
  moreover have "map (drives master_board) [(GPIOA, 0), (GPIOA, 5), (GPIOA, 8)] = replicate 3 (Some False)"
    "map_option sysclk_hz (osc master_board) = Some 84000000"
    by (simp_all add: drives_def master_board_def clock_tree numeral_3_eq_3)
  ultimately show ?thesis
    by (auto simp: master_main_unfold boot_sane_unfold master_boot_state_wf master_board_def)
qed

end
