(* ===== verification/Slave_State.thy ===== *)
theory Slave_State
  imports Protocol Board Line_Assembly
begin

text \<open>Configuration, tables and global state of the slave firmware (driver/Rs485_receive_demo and
  driver/rs485_receive_2, which differ in MY_SLAVE_ID alone): veda_config.h, veda_channel.h, the
  static variables of the modules and the registers the strip driver owns, with the surroundings:
  what the interrupt brings while the task is blocked, how the UART answers, and what the DMA
  reports.\<close>

subsection \<open>veda_config.h, veda_rs485.h\<close>

definition SLAVE_CHANNELS :: u8 where "SLAVE_CHANNELS = 2"
definition RS485_LINE_BUFFER_SIZE :: u8 where "RS485_LINE_BUFFER_SIZE = 16"
definition RS485_IDLE_RESET_MSEC :: u32 where "RS485_IDLE_RESET_MSEC = 50"
definition SLAVE_ID_BLINK_MSEC :: nat where "SLAVE_ID_BLINK_MSEC = 250"
definition RS485_ACK_BUFFER_SIZE :: nat where "RS485_ACK_BUFFER_SIZE = 16"
definition RS485_ACK_TX_TIMEOUT_MSEC :: u32 where "RS485_ACK_TX_TIMEOUT_MSEC = 50"
definition BUZZER_LEVEL_ON :: bool where "BUZZER_LEVEL_ON = True"
definition BUZZER_LEVEL_OFF :: bool where "BUZZER_LEVEL_OFF = False"
definition NEOPIXEL_NONE_RGB :: "u8 \<times> u8 \<times> u8" where "NEOPIXEL_NONE_RGB = (0, 255, 0)"
definition NEOPIXEL_WARNING_RGB :: "u8 \<times> u8 \<times> u8" where "NEOPIXEL_WARNING_RGB = (255, 130, 0)"
definition NEOPIXEL_DANGER_RGB :: "u8 \<times> u8 \<times> u8" where "NEOPIXEL_DANGER_RGB = (255, 0, 0)"
definition CHANNEL_OUTPUT_NONE :: u8 where "CHANNEL_OUTPUT_NONE = 0xFF"
definition VERDICT_APPLIED :: u8 where "VERDICT_APPLIED = 0"
definition VERDICT_BAD_FORMAT :: u8 where "VERDICT_BAD_FORMAT = 1"
definition VERDICT_OTHER_SLAVE :: u8 where "VERDICT_OTHER_SLAVE = 2"
definition VERDICT_BAD_RISK :: u8 where "VERDICT_BAD_RISK = 3"
definition VERDICT_OTHER_CHAN :: u8 where "VERDICT_OTHER_CHAN = 4"
definition VERDICT_COUNT :: u8 where "VERDICT_COUNT = 5"

definition MY_FIRST_CHANNEL :: "u8 \<Rightarrow> u8" where
  "MY_FIRST_CHANNEL my_slave_id = (my_slave_id - 1) * SLAVE_CHANNELS + 1"

definition MY_LAST_CHANNEL :: "u8 \<Rightarrow> u8" where
  "MY_LAST_CHANNEL my_slave_id = MY_FIRST_CHANNEL my_slave_id + SLAVE_CHANNELS - 1"

lemmas slave_config [simp] = SLAVE_CHANNELS_def RS485_LINE_BUFFER_SIZE_def RS485_IDLE_RESET_MSEC_def
  SLAVE_ID_BLINK_MSEC_def RS485_ACK_BUFFER_SIZE_def RS485_ACK_TX_TIMEOUT_MSEC_def
  BUZZER_LEVEL_ON_def BUZZER_LEVEL_OFF_def NEOPIXEL_NONE_RGB_def NEOPIXEL_WARNING_RGB_def
  NEOPIXEL_DANGER_RGB_def CHANNEL_OUTPUT_NONE_def VERDICT_APPLIED_def VERDICT_BAD_FORMAT_def
  VERDICT_OTHER_SLAVE_def VERDICT_BAD_RISK_def VERDICT_OTHER_CHAN_def VERDICT_COUNT_def
  MY_FIRST_CHANNEL_def MY_LAST_CHANNEL_def

subsection \<open>veda_channel.h and the table of veda_channel.c\<close>

datatype neopixel_channel_t = NEOPIXEL_CH_A | NEOPIXEL_CH_B

definition strip_index :: "neopixel_channel_t \<Rightarrow> nat" where
  "strip_index c = (case c of NEOPIXEL_CH_A \<Rightarrow> 0 | NEOPIXEL_CH_B \<Rightarrow> 1)"

record channel_output_t =
  co_channel :: u8
  co_relay :: "gpio_port \<times> nat"
  co_buzzer :: "gpio_port \<times> nat"
  co_strip :: neopixel_channel_t
  co_set_name :: string
  co_wiring :: string

definition LD2 :: "gpio_port \<times> nat" where "LD2 = (GPIOA, 5)"
definition RELAY_A :: "gpio_port \<times> nat" where "RELAY_A = (GPIOA, 0)"
definition RELAY_B :: "gpio_port \<times> nat" where "RELAY_B = (GPIOA, 1)"
definition BUZZER_A :: "gpio_port \<times> nat" where "BUZZER_A = (GPIOB, 5)"
definition BUZZER_B :: "gpio_port \<times> nat" where "BUZZER_B = (GPIOA, 8)"
definition RS485_DE :: "gpio_port \<times> nat" where "RS485_DE = (GPIOA, 4)"

lemmas slave_pins [simp] = LD2_def RELAY_A_def RELAY_B_def BUZZER_A_def BUZZER_B_def RS485_DE_def

text \<open>The table selected by the preprocessor for this MY_SLAVE_ID (any other identifier does not
  compile: an empty table here).\<close>

definition channel_output :: "u8 \<Rightarrow> channel_output_t list" where
  "channel_output my_slave_id =
     (if my_slave_id = 1 then
        [\<lparr> co_channel = 1, co_relay = RELAY_A, co_buzzer = BUZZER_A, co_strip = NEOPIXEL_CH_A,
           co_set_name = ''A'', co_wiring = ''PA0/PB5/PA6'' \<rparr>,
         \<lparr> co_channel = 2, co_relay = RELAY_B, co_buzzer = BUZZER_B, co_strip = NEOPIXEL_CH_B,
           co_set_name = ''B'', co_wiring = ''PA1/PA8/PA7'' \<rparr>]
      else if my_slave_id = 2 then
        [\<lparr> co_channel = 3, co_relay = RELAY_A, co_buzzer = BUZZER_A, co_strip = NEOPIXEL_CH_A,
           co_set_name = ''A'', co_wiring = ''PA0/PB5/PA6'' \<rparr>,
         \<lparr> co_channel = 4, co_relay = RELAY_B, co_buzzer = BUZZER_B, co_strip = NEOPIXEL_CH_B,
           co_set_name = ''B'', co_wiring = ''PA1/PA8/PA7'' \<rparr>]
      else [])"

definition buildable :: "u8 \<Rightarrow> bool" where
  "buildable my_slave_id \<longleftrightarrow> my_slave_id = 1 \<or> my_slave_id = 2"

subsection \<open>Registers of the strip driver\<close>

text \<open>TIM3, the two DMA1 streams and the half of the DMA status register that belongs to them. \<open>EN\<close> may
  stay set for some reads of CR after it was cleared (\<open>sx_lag\<close>): the burst under way is finished
  first.\<close>

record tim_regs =
  tim_CR1 :: u32
  tim_CR2 :: u32
  tim_SMCR :: u32
  tim_DIER :: u32
  tim_SR :: u32
  tim_CCMR1 :: u32
  tim_CCER :: u32
  tim_CNT :: u32
  tim_PSC :: u32
  tim_ARR :: u32
  tim_CCR1 :: u32
  tim_CCR2 :: u32

datatype ccr_reg = CCR1 | CCR2

datatype bus_addr = Addr_None | Addr_CCR ccr_reg | Addr_pwm_data

record dma_stream =
  sx_CR :: u32
  sx_NDTR :: u32
  sx_PAR :: bus_addr
  sx_M0AR :: bus_addr
  sx_FCR :: u32
  sx_lag :: nat

datatype stream_id = DMA1_Stream4 | DMA1_Stream5

subsection \<open>Surroundings\<close>

text \<open>What the receive interrupt of the bus brings.\<close>

datatype slave_irq = Bus_Byte u8 | Bus_Error

text \<open>What the slave does to the outside: bytes handed to a UART with the timeout, the driver's answer
  and the level of the DE pin at that moment; a frame that went out to a strip completely, with the
  answer of the strip driver; and a frame that was broken off, of which only a leading part, possibly
  nothing, went out.\<close>

datatype slave_effect =
    SlaveTx uart "u8 list" u32 hal_status bool
  | StripFrame neopixel_channel_t "u16 list" hal_status
  | StripCut neopixel_channel_t "u16 list" hal_status

text \<open>One look at the DMA flags while a frame is sent: the flags raised since the last look, the
  milliseconds and the interrupts that follow before the next look. \<open>sl_calls\<close> holds, for each coming
  blocking call, the driver's answer and the interrupts during it, each with the milliseconds since
  the one before; \<open>sl_polls\<close> the looks of each coming frame; \<open>sl_lags\<close> for how many reads EN stays
  set after each coming switch-off. Exhausted lists mean success, silence and no lag.\<close>

record poll =
  poll_raised :: u32
  poll_ms :: nat
  poll_irqs :: "slave_irq list"

subsection \<open>The state\<close>

record slave =
  my_slave_id :: u8
  sl_board :: board
  channel_risk :: "u8 list"
  rs485_line :: "u8 list"
  rs485_line_length :: u8
  rs485_line_overflow :: u8
  rs485_last_rx_msec :: u32
  rx_armed :: bool
  ack_pending :: u8
  ack_channel_slot :: u8
  ack_risk_slot :: u8
  strip_update_pending :: "u8 list"
  strip_shown_risk :: "u8 list"
  debug_line :: "u8 list"
  debug_verdict :: u8
  debug_ready :: u8
  loop_count :: u32
  loop_report_msec :: u32
  tim3 :: tim_regs
  dma1 :: "stream_id \<Rightarrow> dma_stream"
  dma_HISR :: u32
  pwm_data :: "u16 list"
  channel_ready :: "u8 list"
  sl_tick :: u32
  sl_calls :: "(hal_status \<times> (nat \<times> slave_irq) list) list"
  sl_polls :: "poll list list"
  sl_lags :: "nat list"
  sl_out :: "slave_effect list"

definition HAL_GetTick :: "slave \<Rightarrow> u32" where
  "HAL_GetTick s = sl_tick s"

definition slave_pass :: "nat \<Rightarrow> slave \<Rightarrow> slave" where
  "slave_pass n s = s\<lparr> sl_tick := sl_tick s + word_of_nat n \<rparr>"

definition on_board :: "(board \<Rightarrow> board) \<Rightarrow> slave \<Rightarrow> slave" where
  "on_board f s = s\<lparr> sl_board := f (sl_board s) \<rparr>"

definition write_pin :: "gpio_port \<times> nat \<Rightarrow> bool \<Rightarrow> slave \<Rightarrow> slave" where
  "write_pin p v = on_board (HAL_GPIO_WritePin (fst p) [snd p] v)"

definition slave_emit :: "slave_effect \<Rightarrow> slave \<Rightarrow> slave" where
  "slave_emit x s = s\<lparr> sl_out := sl_out s @ [x] \<rparr>"

end
