(* ===== verification/Slave_Channel.thy ===== *)
theory Slave_Channel
  imports Slave_State
begin

text \<open>veda_channel.c of the slave: looking a channel up in the table, configuring its pins, and
  applying a level to the relay, the buzzer, the strip request and the board LED. The lemmas say
  what each pin shows after an application and that the pins always show the recorded levels.\<close>

definition channel_output_count :: "u8 \<Rightarrow> nat" where
  "channel_output_count my = length (channel_output my)"

fun channel_scan :: "channel_output_t list \<Rightarrow> u8 \<Rightarrow> u8 \<Rightarrow> u8" where
  "channel_scan [] index channel = CHANNEL_OUTPUT_NONE"
| "channel_scan (co # cos) index channel =
     (if co_channel co = channel then index else channel_scan cos (index + 1) channel)"

definition channel_output_index :: "u8 \<Rightarrow> u8 \<Rightarrow> u8" where
  "channel_output_index my channel = channel_scan (channel_output my) 0 channel"

definition channel_hardware_init :: "slave \<Rightarrow> slave" where
  "channel_hardware_init s =
     fold (\<lambda>co s.
        let s1 = write_pin (co_relay co) False s;
            s2 = on_board (HAL_GPIO_Init (fst (co_relay co)) [snd (co_relay co)] Mode_Output_PP) s1;
            s3 = write_pin (co_buzzer co) BUZZER_LEVEL_OFF s2
        in on_board (HAL_GPIO_Init (fst (co_buzzer co)) [snd (co_buzzer co)] Mode_Output_PP) s3)
       (channel_output (my_slave_id s)) s"

text \<open>veda_strip.c: a level change asks for the strip to be redrawn.\<close>

definition veda_strip_request :: "u8 \<Rightarrow> slave \<Rightarrow> slave" where
  "veda_strip_request index s =
     s\<lparr> strip_update_pending := (strip_update_pending s)[unat index := 1] \<rparr>"

definition apply_channel_state :: "u8 \<Rightarrow> u8 \<Rightarrow> slave \<Rightarrow> slave" where
  "apply_channel_state channel risk_level s =
     (let light_on = (risk_level \<noteq> VEDA_RISK_NONE);
          index = channel_output_index (my_slave_id s) channel;
          buzzer_on = (risk_level = VEDA_RISK_DANGER)
      in if index = CHANNEL_OUTPUT_NONE then s
         else
           let co = channel_output (my_slave_id s) ! unat index;
               s1 = write_pin (co_relay co) light_on s;
               s2 = s1\<lparr> channel_risk := (channel_risk s1)[unat index := risk_level] \<rparr>;
               s3 = write_pin (co_buzzer co) (if buzzer_on then BUZZER_LEVEL_ON else BUZZER_LEVEL_OFF) s2;
               s4 = veda_strip_request index s3;
               any_on = list_ex (\<lambda>scan. channel_risk s4 ! scan \<noteq> VEDA_RISK_NONE)
                          [0..<channel_output_count (my_slave_id s4)]
           in write_pin LD2 any_on s4)"

subsection \<open>The table\<close>

lemma channel_output_count [simp]: "buildable my \<Longrightarrow> channel_output_count my = 2"
  by (auto simp: buildable_def channel_output_count_def channel_output_def)

lemma channel_output_index_1:
    "channel_output_index 1 c = (if c = 1 then 0 else if c = 2 then 1 else CHANNEL_OUTPUT_NONE)"
  and channel_output_index_2:
    "channel_output_index 2 c = (if c = 3 then 0 else if c = 4 then 1 else CHANNEL_OUTPUT_NONE)"
  by (simp_all add: channel_output_index_def channel_output_def)

lemma buildable_cases:
  assumes "buildable my"
  obtains "my = 1" | "my = 2"
  using assms by (auto simp: buildable_def)

lemma channel_output_index_cases:
  assumes "buildable my"
  shows "channel_output_index my c =
    (if c = 2 * my - 1 then 0 else if c = 2 * my then 1 else CHANNEL_OUTPUT_NONE)"
  using assms
proof (cases rule: buildable_cases)
  case 1
  show ?thesis unfolding 1 channel_output_index_1 by simp
next
  case 2
  show ?thesis unfolding 2 channel_output_index_2 by simp
qed

lemma between_two:
  assumes "unat (b :: u8) = unat a + 1"
  shows "a \<le> c \<and> c \<le> b \<longleftrightarrow> c = a \<or> c = b"
  using assms unfolding word_le_nat_alt word_unat_eq_iff by linarith

lemma channel_output_range:
  assumes "buildable my"
  shows "channel_output_index my c \<noteq> CHANNEL_OUTPUT_NONE \<longleftrightarrow> MY_FIRST_CHANNEL my \<le> c \<and> c \<le> MY_LAST_CHANNEL my"
  using assms
proof (cases rule: buildable_cases)
  case 1
  show ?thesis unfolding 1 channel_output_index_1 using between_two [of 2 1 c] by simp
next
  case 2
  show ?thesis unfolding 2 channel_output_index_2 using between_two [of 4 3 c] by simp
qed

definition relay_of :: "nat \<Rightarrow> gpio_port \<times> nat" where
  "relay_of i = (if i = 0 then RELAY_A else RELAY_B)"

definition buzzer_of :: "nat \<Rightarrow> gpio_port \<times> nat" where
  "buzzer_of i = (if i = 0 then BUZZER_A else BUZZER_B)"

lemma channel_output_pins:
  assumes "buildable my" "i < 2"
  shows "co_relay (channel_output my ! i) = relay_of i" "co_buzzer (channel_output my ! i) = buzzer_of i"
    "co_strip (channel_output my ! i) = (if i = 0 then NEOPIXEL_CH_A else NEOPIXEL_CH_B)"
  using assms by (auto simp: buildable_def channel_output_def relay_of_def buzzer_of_def less_2_cases_iff)

subsection \<open>Pins\<close>

lemma all_less_two: "(\<forall>i<2. P i) \<longleftrightarrow> P 0 \<and> P (1 :: nat)"
  and ex_less_two: "(\<exists>i<2. P i) \<longleftrightarrow> P 0 \<or> P (1 :: nat)"
  by (auto simp: less_2_cases_iff)

definition pin_shows :: "slave \<Rightarrow> gpio_port \<times> nat \<Rightarrow> bool option" where
  "pin_shows s p = drives (sl_board s) p"

lemma pin_shows_write_pin [simp]:
  "pin_shows (write_pin p v s) q = (if q = p \<and> pin_shows s q \<noteq> None then Some v else pin_shows s q)"
  by (cases p; cases q) (simp add: pin_shows_def write_pin_def on_board_def drives_def HAL_GPIO_WritePin_def)

lemma pin_shows_upd [simp]:
  "pin_shows (s\<lparr> channel_risk := a \<rparr>) p = pin_shows s p" "pin_shows (s\<lparr> strip_update_pending := b \<rparr>) p = pin_shows s p"
  by (simp_all add: pin_shows_def)

lemma pin_shows_request [simp]: "pin_shows (veda_strip_request i s) p = pin_shows s p"
  by (simp add: veda_strip_request_def)

text \<open>Pins and recorded levels agree.\<close>

definition outputs_ok :: "slave \<Rightarrow> bool" where
  "outputs_ok s \<longleftrightarrow>
     (\<forall>i<2. pin_shows s (relay_of i) = Some (channel_risk s ! i \<noteq> 0)
          \<and> pin_shows s (buzzer_of i) = Some (channel_risk s ! i = 2))
     \<and> pin_shows s LD2 = Some (\<exists>i<2. channel_risk s ! i \<noteq> 0)"

text \<open>What one accepted command does.\<close>

definition applied_to :: "nat \<Rightarrow> u8 \<Rightarrow> slave \<Rightarrow> slave" where
  "applied_to i risk s =
     (let rs = (channel_risk s)[i := risk]
      in write_pin LD2 (rs ! 0 \<noteq> 0 \<or> rs ! 1 \<noteq> 0)
           ((write_pin (buzzer_of i) (risk = 2) (write_pin (relay_of i) (risk \<noteq> 0) s))
              \<lparr> channel_risk := rs, strip_update_pending := (strip_update_pending s)[i := 1] \<rparr>))"

lemma write_pin_fields [simp]:
  "my_slave_id (write_pin p v s) = my_slave_id s" "channel_risk (write_pin p v s) = channel_risk s"
  "strip_update_pending (write_pin p v s) = strip_update_pending s"
  by (simp_all add: write_pin_def on_board_def)

lemma apply_channel_state_eq:
  assumes "buildable (my_slave_id s)"
  shows "apply_channel_state c risk s =
    (if c = 2 * my_slave_id s - 1 then applied_to 0 risk s
     else if c = 2 * my_slave_id s then applied_to 1 risk s else s)"
proof -
  have two: "[0..<2] = [0, 1 :: nat]" by (simp add: upt_rec)
  have upd: "(write_pin p v s)\<lparr> channel_risk := r \<rparr> = write_pin p v (s\<lparr> channel_risk := r \<rparr>)"
    "(write_pin p v s)\<lparr> strip_update_pending := q \<rparr> = write_pin p v (s\<lparr> strip_update_pending := q \<rparr>)"
    for p v s r q by (simp_all add: write_pin_def on_board_def)
  consider "c = 2 * my_slave_id s - 1" | "c \<noteq> 2 * my_slave_id s - 1" "c = 2 * my_slave_id s"
    | "c \<noteq> 2 * my_slave_id s - 1" "c \<noteq> 2 * my_slave_id s" by blast
  then show ?thesis
  proof cases
    case 1
    then show ?thesis
      using channel_output_pins [OF assms, of 0] channel_output_index_cases [OF assms, of c] assms
      by (simp add: apply_channel_state_def applied_to_def Let_def veda_strip_request_def two upd)
  next
    case 2
    then show ?thesis
      using channel_output_pins [OF assms, of 1] channel_output_index_cases [OF assms, of c] assms
      by (simp add: apply_channel_state_def applied_to_def Let_def veda_strip_request_def two upd)
  next
    case 3
    then show ?thesis
      using channel_output_index_cases [OF assms, of c] by (simp add: apply_channel_state_def)
  qed
qed

lemma outputs_ok_unfold:
  "outputs_ok s \<longleftrightarrow>
     pin_shows s (GPIOA, 0) = Some (channel_risk s ! 0 \<noteq> 0)
     \<and> pin_shows s (GPIOB, 5) = Some (channel_risk s ! 0 = 2)
     \<and> pin_shows s (GPIOA, 1) = Some (channel_risk s ! 1 \<noteq> 0)
     \<and> pin_shows s (GPIOA, 8) = Some (channel_risk s ! 1 = 2)
     \<and> pin_shows s (GPIOA, 5) = Some (channel_risk s ! 0 \<noteq> 0 \<or> channel_risk s ! 1 \<noteq> 0)"
  by (simp add: outputs_ok_def all_less_two ex_less_two relay_of_def buzzer_of_def conj_assoc)

lemma applied_to_ok:
  assumes "outputs_ok s" "i < 2" "length (channel_risk s) = 2"
  shows "outputs_ok (applied_to i risk s)"
proof (cases "i = 0")
  case True
  show ?thesis
    using assms(1,3) unfolding outputs_ok_unfold
    by (simp add: True applied_to_def Let_def relay_of_def buzzer_of_def)
next
  case False
  then have i: "i = 1" using assms(2) by simp
  show ?thesis
    using assms(1,3) unfolding outputs_ok_unfold
    by (simp add: i applied_to_def Let_def relay_of_def buzzer_of_def)
qed

end
