(* ===== verification/Slave_Rs485.thy ===== *)
theory Slave_Rs485
  imports Slave_Channel
begin

text \<open>The interrupt side of the slave: veda_rs485.c (reading commands, offering the acknowledgement,
  dropping a half-received line after silence), the line offered to the debug log (veda_debug.c) and
  the UART callbacks (veda_isr.c). The lemmas give the meaning of a line (\<open>read_command\<close>) and
  interpret the line-assembly contract.\<close>

definition veda_rs485_ack_offer :: "u8 \<Rightarrow> u8 \<Rightarrow> slave \<Rightarrow> slave" where
  "veda_rs485_ack_offer channel risk_level s =
     (if ack_pending s = 0
      then s\<lparr> ack_channel_slot := channel, ack_risk_slot := risk_level, ack_pending := 1 \<rparr>
      else s)"

definition process_rs485_line :: "u8 list \<Rightarrow> u8 \<Rightarrow> slave \<Rightarrow> u8 \<times> slave" where
  "process_rs485_line line len s =
     (if len \<noteq> 9 \<or> line ! 0 \<noteq> ascii CHR ''S'' \<or> line ! 2 \<noteq> ascii CHR '':''
         \<or> line ! 3 \<noteq> ascii CHR ''C'' \<or> line ! 4 \<noteq> ascii CHR ''H''
         \<or> line ! 6 \<noteq> ascii CHR '':'' \<or> line ! 7 \<noteq> ascii CHR ''R'' then (VERDICT_BAD_FORMAT, s)
      else if (line ! 1 < ascii CHR ''1'' \<or> line ! 1 > ascii CHR ''9'')
           \<or> (line ! 5 < ascii CHR ''1'' \<or> line ! 5 > ascii CHR ''9'') then (VERDICT_BAD_FORMAT, s)
      else if line ! 1 - ascii CHR ''0'' \<noteq> my_slave_id s then (VERDICT_OTHER_SLAVE, s)
      else if line ! 8 < ascii CHR ''0'' \<or> line ! 8 > ascii CHR ''2'' then (VERDICT_BAD_RISK, s)
      else
        let risk_level = line ! 8 - ascii CHR ''0'';
            channel = line ! 5 - ascii CHR ''0''
        in if channel_output_index (my_slave_id s) channel = CHANNEL_OUTPUT_NONE
           then (VERDICT_OTHER_CHAN, s)
           else (VERDICT_APPLIED,
                 veda_rs485_ack_offer channel risk_level (apply_channel_state channel risk_level s)))"

definition veda_debug_line_offer :: "u8 list \<Rightarrow> u8 \<Rightarrow> u8 \<Rightarrow> slave \<Rightarrow> slave" where
  "veda_debug_line_offer line len verdict s =
     (if debug_ready s \<noteq> 0 \<or> len > RS485_LINE_BUFFER_SIZE then s
      else s\<lparr> debug_line := take (unat len) line @ [0] @ drop (unat len + 1) (debug_line s),
              debug_verdict := verdict, debug_ready := 1 \<rparr>)"

definition process_rs485_byte :: "u8 \<Rightarrow> slave \<Rightarrow> slave" where
  "process_rs485_byte byte s =
     (if byte = CR \<or> byte = LF then
        (let s1 = (if rs485_line_overflow s = 0 \<and> rs485_line_length s \<noteq> 0 then
                     (let (verdict, t) = process_rs485_line (rs485_line s) (rs485_line_length s) s
                      in veda_debug_line_offer (rs485_line t) (rs485_line_length t) verdict t)
                   else s)
         in s1\<lparr> rs485_line_length := 0, rs485_line_overflow := 0 \<rparr>)
      else if rs485_line_length s \<ge> RS485_LINE_BUFFER_SIZE then s\<lparr> rs485_line_overflow := 1 \<rparr>
      else s\<lparr> rs485_line := (rs485_line s)[unat (rs485_line_length s) := byte],
              rs485_line_length := rs485_line_length s + 1 \<rparr>)"

definition veda_rs485_line_reset :: "slave \<Rightarrow> slave" where
  "veda_rs485_line_reset s = s\<lparr> rs485_line_length := 0, rs485_line_overflow := 0 \<rparr>"

definition veda_rs485_mark_rx :: "slave \<Rightarrow> slave" where
  "veda_rs485_mark_rx s = s\<lparr> rs485_last_rx_msec := HAL_GetTick s \<rparr>"

definition veda_rs485_idle_service :: "slave \<Rightarrow> slave" where
  "veda_rs485_idle_service s =
     (if (rs485_line_length s \<noteq> 0 \<or> rs485_line_overflow s \<noteq> 0)
         \<and> HAL_GetTick s - rs485_last_rx_msec s \<ge> RS485_IDLE_RESET_MSEC
      then s\<lparr> rs485_line_length := 0, rs485_line_overflow := 0 \<rparr> else s)"

definition veda_rs485_rx_arm_slave :: "slave \<Rightarrow> slave" where
  "veda_rs485_rx_arm_slave s = s\<lparr> rx_armed := True \<rparr>"

definition rs485_de_init_slave :: "slave \<Rightarrow> slave" where
  "rs485_de_init_slave s =
     on_board (HAL_GPIO_Init (fst RS485_DE) [snd RS485_DE] Mode_Output_PP) (write_pin RS485_DE False s)"

subsection \<open>veda_isr.c\<close>

text \<open>A byte or an error on USART1 reaches the callback only while reception is armed; the driver disarms
  it first and the callback arms it again.\<close>

definition HAL_UART_RxCpltCallback_slave :: "u8 \<Rightarrow> slave \<Rightarrow> slave" where
  "HAL_UART_RxCpltCallback_slave byte s =
     veda_rs485_rx_arm_slave (veda_rs485_mark_rx (process_rs485_byte byte s))"

definition HAL_UART_ErrorCallback_slave :: "slave \<Rightarrow> slave" where
  "HAL_UART_ErrorCallback_slave s = veda_rs485_rx_arm_slave (veda_rs485_line_reset s)"

definition USART1_IRQHandler :: "slave_irq \<Rightarrow> slave \<Rightarrow> slave" where
  "USART1_IRQHandler irq s =
     (if \<not> rx_armed s then s
      else case irq of
             Bus_Byte b \<Rightarrow> HAL_UART_RxCpltCallback_slave b (s\<lparr> rx_armed := False \<rparr>)
           | Bus_Error \<Rightarrow> HAL_UART_ErrorCallback_slave (s\<lparr> rx_armed := False \<rparr>))"

subsection \<open>The meaning of a line\<close>

record command =
  cmd_slave :: u8
  cmd_channel :: u8
  cmd_risk :: u8

definition command_bytes :: "u8 \<Rightarrow> u8 \<Rightarrow> u8 \<Rightarrow> u8 list" where
  "command_bytes slave channel risk =
     [ascii CHR ''S'', ascii CHR ''0'' + slave, ascii CHR '':'', ascii CHR ''C'', ascii CHR ''H'',
      ascii CHR ''0'' + channel, ascii CHR '':'', ascii CHR ''R'', ascii CHR ''0'' + risk]"

definition digit19 :: "u8 \<Rightarrow> bool" where
  "digit19 n \<longleftrightarrow> 1 \<le> n \<and> n \<le> 9"

text \<open>A line in the form \<open>S<digit>:CH<digit>:R<any>\<close>, and what it says.\<close>

definition read_command :: "u8 list \<Rightarrow> command option" where
  "read_command l =
     (let c = \<lparr> cmd_slave = l ! 1 - 48, cmd_channel = l ! 5 - 48, cmd_risk = l ! 8 - 48 \<rparr>
      in if length l = 9 \<and> digit19 (cmd_slave c) \<and> digit19 (cmd_channel c)
            \<and> l = command_bytes (cmd_slave c) (cmd_channel c) (cmd_risk c)
         then Some c else None)"

definition verdict_of :: "u8 \<Rightarrow> u8 list \<Rightarrow> u8" where
  "verdict_of my l =
     (case read_command l of
        None \<Rightarrow> VERDICT_BAD_FORMAT
      | Some c \<Rightarrow> if cmd_slave c \<noteq> my then VERDICT_OTHER_SLAVE
                  else if \<not> cmd_risk c \<le> 2 then VERDICT_BAD_RISK
                  else if \<not> (MY_FIRST_CHANNEL my \<le> cmd_channel c \<and> cmd_channel c \<le> MY_LAST_CHANNEL my)
                       then VERDICT_OTHER_CHAN
                  else VERDICT_APPLIED)"

definition obey :: "command \<Rightarrow> slave \<Rightarrow> slave" where
  "obey c s = veda_rs485_ack_offer (cmd_channel c) (cmd_risk c)
                (apply_channel_state (cmd_channel c) (cmd_risk c) s)"

text \<open>What a complete line does to a slave.\<close>

definition line_effect :: "u8 list \<Rightarrow> slave \<Rightarrow> slave" where
  "line_effect l s =
     (if verdict_of (my_slave_id s) l = VERDICT_APPLIED then obey (the (read_command l)) s else s)"

lemma read_command_iff:
  "read_command l = Some c \<longleftrightarrow> digit19 (cmd_slave c) \<and> digit19 (cmd_channel c)
     \<and> l = command_bytes (cmd_slave c) (cmd_channel c) (cmd_risk c)"
  by (cases c) (auto simp: read_command_def Let_def command_bytes_def)

lemma digit19_test: "(c :: u8) < 49 \<or> 57 < c \<longleftrightarrow> \<not> digit19 (c - 48)"
  unfolding digit19_def by (simp add: word_less_nat_alt word_le_nat_alt unat_sub_if', arith?)

lemma digit02_test: "(c :: u8) < 48 \<or> 50 < c \<longleftrightarrow> \<not> c - 48 \<le> 2"
  by (simp add: word_less_nat_alt word_le_nat_alt unat_sub_if', arith)

lemma process_rs485_line_spec:
  assumes "buildable (my_slave_id s)" "length l = unat len"
  shows "process_rs485_line l len s = (verdict_of (my_slave_id s) l, line_effect l s)"
proof (cases "length l = 9")
  case True
  then have len: "len = 9" using assms(2) by (simp add: word_unat_eq_iff)
  from True obtain c0 c1 c2 c3 c4 c5 c6 c7 c8 where l: "l = [c0, c1, c2, c3, c4, c5, c6, c7, c8]"
    by (auto simp: numeral_eq_Suc length_Suc_conv)
  let ?c = "\<lparr> cmd_slave = c1 - 48, cmd_channel = c5 - 48, cmd_risk = c8 - 48 \<rparr>"
  let ?form = "c0 = 83 \<and> c2 = 58 \<and> c3 = 67 \<and> c4 = 72 \<and> c6 = 58 \<and> c7 = 82"
  let ?digits = "digit19 (c1 - 48) \<and> digit19 (c5 - 48)"
  have read: "read_command l = (if ?form \<and> ?digits then Some ?c else None)"
    by (auto simp: l read_command_def command_bytes_def Let_def)
  have lhs: "process_rs485_line l len s =
     (if \<not> ?form then (VERDICT_BAD_FORMAT, s) else if \<not> ?digits then (VERDICT_BAD_FORMAT, s)
      else if c1 - 48 \<noteq> my_slave_id s then (VERDICT_OTHER_SLAVE, s)
      else if \<not> c8 - 48 \<le> 2 then (VERDICT_BAD_RISK, s)
      else if \<not> (MY_FIRST_CHANNEL (my_slave_id s) \<le> c5 - 48 \<and> c5 - 48 \<le> MY_LAST_CHANNEL (my_slave_id s))
        then (VERDICT_OTHER_CHAN, s)
      else (VERDICT_APPLIED, obey ?c s))"
    unfolding channel_output_range [OF assms(1), symmetric]
    by (simp add: process_rs485_line_def l len digit02_test digit19_test obey_def Let_def
        del: slave_config not_le not_less)
  show ?thesis
    unfolding lhs line_effect_def verdict_of_def read by simp
next
  case False
  then have "len \<noteq> 9" using assms(2) by auto
  moreover have "read_command l = None" using False by (simp add: read_command_def Let_def)
  ultimately show ?thesis
    by (simp add: process_rs485_line_def line_effect_def verdict_of_def)
qed

lemma process_rs485_line_take:
  assumes "length buf = 16" "len \<le> 16"
  shows "process_rs485_line buf len s = process_rs485_line (take (unat len) buf) len s"
  using assms by (cases "len = 9") (simp_all add: process_rs485_line_def)

end
