(* ===== verification/Slave_Line.thy ===== *)
theory Slave_Line
  imports Slave_Rs485
begin

text \<open>The slave's receive path as an instance of the line-assembly contract, and what the interrupt
  leaves alone.\<close>

definition slave_line_view :: "slave \<Rightarrow> u8 list \<times> bool" where
  "slave_line_view s = (take (unat (rs485_line_length s)) (rs485_line s), rs485_line_overflow s \<noteq> 0)"

definition slave_line_blank :: "slave \<Rightarrow> slave" where
  "slave_line_blank s = s\<lparr> rs485_line := [], rs485_line_length := 0, rs485_line_overflow := 0 \<rparr>"

definition slave_line_act :: "u8 list \<Rightarrow> slave \<Rightarrow> slave" where
  "slave_line_act l s =
     veda_debug_line_offer l (word_of_nat (length l)) (verdict_of (my_slave_id s) l) (line_effect l s)"

definition slave_line_wf :: "slave \<Rightarrow> bool" where
  "slave_line_wf s \<longleftrightarrow> buildable (my_slave_id s) \<and> length (rs485_line s) = 16 \<and> rs485_line_length s \<le> 16"

subsection \<open>Frames\<close>

lemma apply_channel_state_line [simp]:
  "rs485_line (apply_channel_state c r s) = rs485_line s"
  "rs485_line_length (apply_channel_state c r s) = rs485_line_length s"
  "rs485_line_overflow (apply_channel_state c r s) = rs485_line_overflow s"
  "my_slave_id (apply_channel_state c r s) = my_slave_id s"
  by (simp_all add: apply_channel_state_def Let_def write_pin_def on_board_def veda_strip_request_def)

lemma line_effect_line [simp]:
  "rs485_line (line_effect l s) = rs485_line s"
  "rs485_line_length (line_effect l s) = rs485_line_length s"
  "rs485_line_overflow (line_effect l s) = rs485_line_overflow s"
  "my_slave_id (line_effect l s) = my_slave_id s"
  by (simp_all add: line_effect_def obey_def veda_rs485_ack_offer_def)

lemma debug_offer_line [simp]:
  "rs485_line (veda_debug_line_offer l n v s) = rs485_line s"
  "rs485_line_length (veda_debug_line_offer l n v s) = rs485_line_length s"
  "rs485_line_overflow (veda_debug_line_offer l n v s) = rs485_line_overflow s"
  "my_slave_id (veda_debug_line_offer l n v s) = my_slave_id s"
  by (simp_all add: veda_debug_line_offer_def)

lemma slave_line_act_line [simp]:
  "rs485_line (slave_line_act l s) = rs485_line s"
  "rs485_line_length (slave_line_act l s) = rs485_line_length s"
  "rs485_line_overflow (slave_line_act l s) = rs485_line_overflow s"
  "my_slave_id (slave_line_act l s) = my_slave_id s"
  by (simp_all add: slave_line_act_def)

lemma slave_line_blank_apply:
  "slave_line_blank (apply_channel_state c r s) = apply_channel_state c r (slave_line_blank s)"
  by (simp add: apply_channel_state_def slave_line_blank_def Let_def write_pin_def on_board_def
      veda_strip_request_def)

lemma slave_line_blank_act: "slave_line_blank (slave_line_act l s) = slave_line_act l (slave_line_blank s)"
proof -
  have offer: "slave_line_blank (veda_debug_line_offer l n v t) = veda_debug_line_offer l n v (slave_line_blank t)"
    for n v t by (simp add: veda_debug_line_offer_def slave_line_blank_def)
  have ack: "slave_line_blank (veda_rs485_ack_offer c r t) = veda_rs485_ack_offer c r (slave_line_blank t)"
    for c r t by (simp add: veda_rs485_ack_offer_def slave_line_blank_def)
  have my: "my_slave_id (slave_line_blank s) = my_slave_id s" by (simp add: slave_line_blank_def)
  show ?thesis
    by (simp add: slave_line_act_def offer line_effect_def obey_def ack slave_line_blank_apply my)
qed

subsection \<open>One byte\<close>

lemma process_rs485_byte_cases:
  assumes "slave_line_wf s"
  shows "process_rs485_byte b s =
    (if is_eol b then
       (if snd (slave_line_view s) \<or> fst (slave_line_view s) = [] then s
        else slave_line_act (fst (slave_line_view s)) s)\<lparr> rs485_line_length := 0, rs485_line_overflow := 0 \<rparr>
     else if length (fst (slave_line_view s)) \<ge> 16 then s\<lparr> rs485_line_overflow := 1 \<rparr>
     else s\<lparr> rs485_line := (rs485_line s)[unat (rs485_line_length s) := b],
             rs485_line_length := rs485_line_length s + 1 \<rparr>)"
proof -
  let ?n = "rs485_line_length s" and ?buf = "rs485_line s"
  let ?l = "take (unat ?n) ?buf"
  have len: "length ?buf = 16" "?n \<le> 16" "buildable (my_slave_id s)"
    using assms by (simp_all add: slave_line_wf_def)
  have n: "length ?l = unat ?n" using len by (simp add: word_le_nat_alt)
  have empty: "?l = [] \<longleftrightarrow> ?n = 0" using n by (metis length_0_conv unat_eq_zero)
  have ge: "16 \<le> unat ?n \<longleftrightarrow> 16 \<le> ?n" by (simp add: word_le_nat_alt)
  have line: "process_rs485_line ?buf ?n s = (verdict_of (my_slave_id s) ?l, line_effect ?l s)"
    using process_rs485_line_spec [OF len(3) n] process_rs485_line_take [OF len(1,2)] by simp
  have offer: "veda_debug_line_offer ?buf ?n v t = veda_debug_line_offer ?l (word_of_nat (length ?l)) v t" for v t
  proof -
    have eq: "word_of_nat (length ?l) = ?n" unfolding n by simp
    show ?thesis unfolding eq by (simp add: veda_debug_line_offer_def)
  qed
  have act: "(let (verdict, t) = process_rs485_line ?buf ?n s
       in veda_debug_line_offer (rs485_line t) (rs485_line_length t) verdict t) = slave_line_act ?l s"
    by (simp add: line offer slave_line_act_def)
  show ?thesis
    unfolding process_rs485_byte_def act slave_line_view_def is_eol_def fst_conv snd_conv empty n ge
      RS485_LINE_BUFFER_SIZE_def
    by (cases "rs485_line_overflow s = 0"; cases "rs485_line_length s = 0") simp_all
qed

lemma slave_line_act_wf: "slave_line_wf s \<Longrightarrow> slave_line_wf (slave_line_act l s)"
  by (simp add: slave_line_wf_def)

lemma process_rs485_byte_wf:
  assumes "slave_line_wf s"
  shows "slave_line_wf (process_rs485_byte b s)"
proof -
  have "rs485_line_length s < 16 \<Longrightarrow> rs485_line_length s + 1 \<le> 16"
    by (simp add: inc_le)
  then show ?thesis
    using assms slave_line_act_wf [OF assms]
    by (auto simp: process_rs485_byte_cases slave_line_wf_def slave_line_view_def word_le_nat_alt
        word_less_nat_alt)
qed

lemma process_rs485_byte_view:
  assumes "slave_line_wf s"
  shows "slave_line_view (process_rs485_byte b s) = snd (asm_step 16 b (slave_line_view s))"
proof -
  have n: "length (rs485_line s) = 16" "unat (rs485_line_length s) \<le> 16"
    using assms by (simp_all add: slave_line_wf_def word_le_nat_alt)
  have inc: "unat (rs485_line_length s + 1) = unat (rs485_line_length s) + 1"
    if "unat (rs485_line_length s) < 16"
    using that by (simp add: unat_word_ariths)
  have take: "take (unat (rs485_line_length s) + 1) ((rs485_line s)[unat (rs485_line_length s) := b])
      = take (unat (rs485_line_length s)) (rs485_line s) @ [b]"
    if "unat (rs485_line_length s) < 16"
    using that n by (simp add: take_Suc_conv_app_nth)
  show ?thesis
    using n inc take
    by (auto simp: process_rs485_byte_cases [OF assms] slave_line_view_def asm_step_def Let_def)
qed

lemma process_rs485_byte_rest:
  assumes "slave_line_wf s"
  shows "slave_line_blank (process_rs485_byte b s) =
    (case fst (asm_step 16 b (slave_line_view s)) of None \<Rightarrow> slave_line_blank s
     | Some l \<Rightarrow> slave_line_act l (slave_line_blank s))"
proof -
  have drop: "slave_line_blank (t\<lparr> rs485_line_length := x, rs485_line_overflow := y \<rparr>) = slave_line_blank t"
    "slave_line_blank (t\<lparr> rs485_line_overflow := y \<rparr>) = slave_line_blank t"
    "slave_line_blank (t\<lparr> rs485_line_length := x \<rparr>) = slave_line_blank t"
    "slave_line_blank (t\<lparr> rs485_line := z \<rparr>) = slave_line_blank t"
    "slave_line_blank (t\<lparr> rs485_line := z, rs485_line_length := x \<rparr>) = slave_line_blank t" for t x y z
    by (simp_all add: slave_line_blank_def)
  show ?thesis
    by (cases "slave_line_view s")
      (simp add: process_rs485_byte_cases [OF assms] asm_step_def drop slave_line_blank_act)
qed

interpretation cmd_asm: line_assembler 16 process_rs485_byte slave_line_view slave_line_blank
    slave_line_act slave_line_wf
  by unfold_locales
    (rule process_rs485_byte_wf process_rs485_byte_view process_rs485_byte_rest, assumption)+

end
