(* ===== verification/Slave_Wait.thy ===== *)
theory Slave_Wait
  imports Slave_Line
begin

text \<open>The blocking calls of the slave's task. While one of them runs, time passes and the receive
  interrupt is served; the facts say which parts of the state the interrupt cannot touch.\<close>

definition wait_events :: "(nat \<times> slave_irq) list \<Rightarrow> slave \<Rightarrow> slave" where
  "wait_events evs = fold (\<lambda>(d, irq) s. USART1_IRQHandler irq (slave_pass d s)) evs"

definition next_call :: "slave \<Rightarrow> (hal_status \<times> (nat \<times> slave_irq) list) \<times> slave" where
  "next_call s = (case sl_calls s of [] \<Rightarrow> ((HAL_OK, []), s) | c # cs \<Rightarrow> (c, s\<lparr> sl_calls := cs \<rparr>))"

definition osDelay :: "nat \<Rightarrow> slave \<Rightarrow> slave" where
  "osDelay ticks s =
     (let ((_, evs), s1) = next_call s;
          s2 = wait_events evs s1
      in slave_pass (ticks - sum_list (map fst evs)) s2)"

text \<open>HAL_Delay adds one tick to guarantee the minimum wait.\<close>

definition HAL_Delay :: "nat \<Rightarrow> slave \<Rightarrow> slave" where
  "HAL_Delay ms s = osDelay (ms + 1) s"

definition HAL_UART_Transmit_slave :: "uart \<Rightarrow> u8 list \<Rightarrow> u32 \<Rightarrow> slave \<Rightarrow> hal_status \<times> slave" where
  "HAL_UART_Transmit_slave u bytes timeout s =
     (let ((st, evs), s1) = next_call s;
          s2 = slave_emit (SlaveTx u bytes timeout st (pin_shows s1 RS485_DE = Some True)) s1
      in (st, wait_events evs s2))"

subsection \<open>What an interrupt leaves alone\<close>

text \<open>The task's own data: the strip driver, the strip bookkeeping, the counters of the log, the DE pin,
  the plans of the surroundings and the log of effects.\<close>

definition task_data :: "slave \<Rightarrow> (u8 list \<times> u32 \<times> u32) \<times> (tim_regs \<times> (stream_id \<Rightarrow> dma_stream) \<times> u32 \<times> u16 list
    \<times> u8 list) \<times> (poll list list \<times> nat list \<times> slave_effect list \<times> bool option)" where
  "task_data s = ((strip_shown_risk s, loop_count s, loop_report_msec s),
     (tim3 s, dma1 s, dma_HISR s, pwm_data s, channel_ready s),
     (sl_polls s, sl_lags s, sl_out s, pin_shows s RS485_DE))"

lemma task_data_write_pin [simp]:
  "p \<noteq> RS485_DE \<Longrightarrow> task_data (write_pin p v s) = task_data s"
  by (simp add: task_data_def) (simp add: write_pin_def on_board_def)

lemma task_data_upd [simp]:
  "task_data (s\<lparr> channel_risk := a \<rparr>) = task_data s"
  "task_data (s\<lparr> strip_update_pending := a \<rparr>) = task_data s"
  "task_data (s\<lparr> rs485_line := l \<rparr>) = task_data s" "task_data (s\<lparr> rs485_line_length := n \<rparr>) = task_data s"
  "task_data (s\<lparr> rs485_line_overflow := n \<rparr>) = task_data s"
  "task_data (s\<lparr> rs485_last_rx_msec := t \<rparr>) = task_data s"
  "task_data (s\<lparr> rx_armed := b \<rparr>) = task_data s" "task_data (s\<lparr> ack_pending := n \<rparr>) = task_data s"
  "task_data (s\<lparr> ack_channel_slot := n \<rparr>) = task_data s"
  "task_data (s\<lparr> ack_risk_slot := n \<rparr>) = task_data s"
  "task_data (s\<lparr> debug_line := l \<rparr>) = task_data s" "task_data (s\<lparr> debug_verdict := n \<rparr>) = task_data s"
  "task_data (s\<lparr> debug_ready := n \<rparr>) = task_data s" "task_data (s\<lparr> sl_tick := t \<rparr>) = task_data s"
  "task_data (s\<lparr> sl_calls := c \<rparr>) = task_data s"
  by (simp_all add: task_data_def pin_shows_def)

lemma task_data_pass [simp]: "task_data (slave_pass n s) = task_data s"
  by (simp add: slave_pass_def)

lemma task_data_apply [simp]:
  assumes "buildable (my_slave_id s)"
  shows "task_data (apply_channel_state c r s) = task_data s"
  using assms by (simp add: apply_channel_state_eq applied_to_def Let_def relay_of_def buzzer_of_def)

lemma task_data_act [simp]: "buildable (my_slave_id s) \<Longrightarrow> task_data (slave_line_act l s) = task_data s"
  by (simp add: slave_line_act_def veda_debug_line_offer_def line_effect_def obey_def
      veda_rs485_ack_offer_def)

lemma task_data_byte: "slave_line_wf s \<Longrightarrow> task_data (process_rs485_byte b s) = task_data s"
  by (simp add: process_rs485_byte_cases) (simp add: slave_line_wf_def)

lemma USART1_IRQHandler_line:
  assumes "slave_line_wf s"
  shows "slave_line_wf (USART1_IRQHandler irq s)" "task_data (USART1_IRQHandler irq s) = task_data s"
proof -
  have upd: "slave_line_wf (t\<lparr> rx_armed := b \<rparr>) = slave_line_wf t"
    "slave_line_wf (t\<lparr> rs485_last_rx_msec := n \<rparr>) = slave_line_wf t"
    "slave_line_wf t \<Longrightarrow> slave_line_wf (t\<lparr> rs485_line_length := 0 \<rparr>)"
    "slave_line_wf (t\<lparr> rs485_line_overflow := v \<rparr>) = slave_line_wf t" for t b n v
    by (simp_all add: slave_line_wf_def)
  have byte: "slave_line_wf (process_rs485_byte b (s\<lparr> rx_armed := v \<rparr>))" for b v
    using process_rs485_byte_wf assms upd by simp
  have data: "task_data (process_rs485_byte b (s\<lparr> rx_armed := v \<rparr>)) = task_data s" for b v
    using task_data_byte [of "s\<lparr> rx_armed := v \<rparr>" b] assms upd by simp
  show "slave_line_wf (USART1_IRQHandler irq s)"
    using assms byte by (cases irq) (simp_all add: USART1_IRQHandler_def HAL_UART_RxCpltCallback_slave_def
        HAL_UART_ErrorCallback_slave_def veda_rs485_rx_arm_slave_def veda_rs485_mark_rx_def
        veda_rs485_line_reset_def upd)
  show "task_data (USART1_IRQHandler irq s) = task_data s"
    using data by (cases irq) (simp_all add: USART1_IRQHandler_def HAL_UART_RxCpltCallback_slave_def
        HAL_UART_ErrorCallback_slave_def veda_rs485_rx_arm_slave_def veda_rs485_mark_rx_def
        veda_rs485_line_reset_def)
qed

end
