(* ===== verification/Slave_Neopixel.thy ===== *)
theory Slave_Neopixel
  imports Slave_Wait
begin

text \<open>neopixel.c of the slaves: the timer and DMA driver of the two LED strips. Registers are words, a
  frame is what the DMA stream is set up to move when the timer starts, and every loop is a function
  with its termination.\<close>

subsection \<open>Constants\<close>

definition WS2812_BITS_PER_PIXEL :: nat where "WS2812_BITS_PER_PIXEL = 24"
definition WS2812_RESET_SLOT_COUNT :: u32 where "WS2812_RESET_SLOT_COUNT = 240"
definition WS2812_TIMER_ARR :: u32 where "WS2812_TIMER_ARR = 104"
definition WS2812_T0H_TICKS :: u16 where "WS2812_T0H_TICKS = 29"
definition WS2812_T1H_TICKS :: u16 where "WS2812_T1H_TICKS = 58"
definition WS2812_DMA_TIMEOUT_MS :: u32 where "WS2812_DMA_TIMEOUT_MS = 50"
definition WS2812_DMA_DISABLE_SPIN_LIMIT :: u32 where "WS2812_DMA_DISABLE_SPIN_LIMIT = 100000"
definition WS2812_TIMER_CLOCK_HZ :: u32 where "WS2812_TIMER_CLOCK_HZ = 84000000"
definition NEOPIXEL_PIXEL_COUNT :: u16 where "NEOPIXEL_PIXEL_COUNT = 9"
definition NEOPIXEL_MAX_PIXEL_COUNT :: u16 where "NEOPIXEL_MAX_PIXEL_COUNT = 9"
definition NEOPIXEL_CH_COUNT :: u32 where "NEOPIXEL_CH_COUNT = 2"

definition WS2812_DATA_SLOT_COUNT :: u32 where
  "WS2812_DATA_SLOT_COUNT = ucast NEOPIXEL_PIXEL_COUNT * word_of_nat WS2812_BITS_PER_PIXEL"

definition WS2812_DMA_BUFFER_SIZE :: u32 where
  "WS2812_DMA_BUFFER_SIZE = WS2812_RESET_SLOT_COUNT * 2 + WS2812_DATA_SLOT_COUNT"

definition WS2812_DATA_SLOT_FIRST :: u32 where "WS2812_DATA_SLOT_FIRST = WS2812_RESET_SLOT_COUNT"

lemma ws2812_config [simp]:
  "WS2812_BITS_PER_PIXEL = 24" "WS2812_RESET_SLOT_COUNT = 240" "WS2812_TIMER_ARR = 104"
  "WS2812_T0H_TICKS = 29" "WS2812_T1H_TICKS = 58" "WS2812_DMA_TIMEOUT_MS = 50"
  "WS2812_DMA_DISABLE_SPIN_LIMIT = 100000" "WS2812_TIMER_CLOCK_HZ = 84000000"
  "NEOPIXEL_PIXEL_COUNT = 9" "NEOPIXEL_MAX_PIXEL_COUNT = 9" "NEOPIXEL_CH_COUNT = 2"
  "WS2812_DATA_SLOT_COUNT = 216" "WS2812_DMA_BUFFER_SIZE = 696" "WS2812_DATA_SLOT_FIRST = 240"
  by code_simp+

text \<open>The bits of the register layout (CMSIS device header).\<close>

definition TIM_CR1_CEN :: u32 where "TIM_CR1_CEN = 0x1"
definition TIM_CR1_ARPE :: u32 where "TIM_CR1_ARPE = 0x80"
definition TIM_EGR_UG :: u32 where "TIM_EGR_UG = 0x1"
definition DMA_SxCR_EN :: u32 where "DMA_SxCR_EN = 0x1"
definition DMA_SxCR_DIR_0 :: u32 where "DMA_SxCR_DIR_0 = 0x40"
definition DMA_SxCR_MINC :: u32 where "DMA_SxCR_MINC = 0x400"
definition DMA_SxCR_PSIZE_0 :: u32 where "DMA_SxCR_PSIZE_0 = 0x800"
definition DMA_SxCR_MSIZE_0 :: u32 where "DMA_SxCR_MSIZE_0 = 0x2000"
definition DMA_SxCR_PL_1 :: u32 where "DMA_SxCR_PL_1 = 0x20000"

lemmas reg_bits = TIM_CR1_CEN_def TIM_CR1_ARPE_def TIM_EGR_UG_def DMA_SxCR_EN_def DMA_SxCR_DIR_0_def
  DMA_SxCR_MINC_def DMA_SxCR_PSIZE_0_def DMA_SxCR_MSIZE_0_def DMA_SxCR_PL_1_def

subsection \<open>The hardware table\<close>

record neopixel_hw_t =
  hw_ccmr_pwm_bits :: u32
  hw_ccer_enable :: u32
  hw_dier_dma :: u32
  hw_ccr :: ccr_reg
  hw_stream :: stream_id
  hw_dma_chsel :: u32
  hw_dma_tc_flag :: u32
  hw_dma_error_flags :: u32
  hw_dma_clear_flags :: u32
  hw_port :: gpio_port
  hw_pin :: nat
  hw_alternate :: nat

definition neopixel_hw :: "neopixel_channel_t \<Rightarrow> neopixel_hw_t" where
  "neopixel_hw c = (case c of
     NEOPIXEL_CH_A \<Rightarrow>
       \<lparr> hw_ccmr_pwm_bits = 0x0020 OR 0x0040 OR 0x0008, hw_ccer_enable = 0x0001,
         hw_dier_dma = 0x0200, hw_ccr = CCR1, hw_stream = DMA1_Stream4,
         hw_dma_chsel = 0x02000000 OR 0x08000000, hw_dma_tc_flag = 0x20,
         hw_dma_error_flags = 0x08 OR 0x04 OR 0x01,
         hw_dma_clear_flags = 0x01 OR 0x04 OR 0x08 OR 0x10 OR 0x20,
         hw_port = GPIOA, hw_pin = 6, hw_alternate = 2 \<rparr>
   | NEOPIXEL_CH_B \<Rightarrow>
       \<lparr> hw_ccmr_pwm_bits = 0x2000 OR 0x4000 OR 0x0800, hw_ccer_enable = 0x0010,
         hw_dier_dma = 0x0400, hw_ccr = CCR2, hw_stream = DMA1_Stream5,
         hw_dma_chsel = 0x02000000 OR 0x08000000, hw_dma_tc_flag = 0x800,
         hw_dma_error_flags = 0x200 OR 0x100 OR 0x40,
         hw_dma_clear_flags = 0x40 OR 0x100 OR 0x200 OR 0x400 OR 0x800,
         hw_port = GPIOA, hw_pin = 7, hw_alternate = 2 \<rparr>)"

text \<open>A channel number of the interface; only two of them are channels.\<close>

definition strip_of :: "u32 \<Rightarrow> neopixel_channel_t" where
  "strip_of channel = (if channel = 0 then NEOPIXEL_CH_A else NEOPIXEL_CH_B)"

subsection \<open>Register access\<close>

definition upd_tim :: "(tim_regs \<Rightarrow> tim_regs) \<Rightarrow> slave \<Rightarrow> slave" where
  "upd_tim f s = s\<lparr> tim3 := f (tim3 s) \<rparr>"

definition set_ccr :: "ccr_reg \<Rightarrow> u32 \<Rightarrow> tim_regs \<Rightarrow> tim_regs" where
  "set_ccr r v t = (case r of CCR1 \<Rightarrow> t\<lparr> tim_CCR1 := v \<rparr> | CCR2 \<Rightarrow> t\<lparr> tim_CCR2 := v \<rparr>)"

definition get_ccr :: "ccr_reg \<Rightarrow> tim_regs \<Rightarrow> u32" where
  "get_ccr r t = (case r of CCR1 \<Rightarrow> tim_CCR1 t | CCR2 \<Rightarrow> tim_CCR2 t)"

text \<open>An update event resets the counter and raises the update flag.\<close>

definition write_EGR :: "u32 \<Rightarrow> tim_regs \<Rightarrow> tim_regs" where
  "write_EGR v t = (if v AND TIM_EGR_UG \<noteq> 0 then t\<lparr> tim_CNT := 0, tim_SR := tim_SR t OR 1 \<rparr> else t)"

definition upd_stream :: "stream_id \<Rightarrow> (dma_stream \<Rightarrow> dma_stream) \<Rightarrow> slave \<Rightarrow> slave" where
  "upd_stream i f s = s\<lparr> dma1 := (dma1 s)(i := f (dma1 s i)) \<rparr>"

text \<open>Switching a running stream off takes effect after a number of reads.\<close>

definition write_CR :: "stream_id \<Rightarrow> u32 \<Rightarrow> slave \<Rightarrow> slave" where
  "write_CR i v s =
     (if sx_CR (dma1 s i) AND DMA_SxCR_EN \<noteq> 0 \<and> v AND DMA_SxCR_EN = 0 then
        (case sl_lags s of
           [] \<Rightarrow> upd_stream i (\<lambda>x. x\<lparr> sx_CR := v, sx_lag := 0 \<rparr>) s
         | n # ns \<Rightarrow> upd_stream i (\<lambda>x. x\<lparr> sx_CR := v, sx_lag := n \<rparr>) (s\<lparr> sl_lags := ns \<rparr>))
      else upd_stream i (\<lambda>x. x\<lparr> sx_CR := v \<rparr>) s)"

definition read_CR :: "stream_id \<Rightarrow> slave \<Rightarrow> u32 \<times> slave" where
  "read_CR i s =
     (let x = dma1 s i
      in if sx_lag x = 0 then (sx_CR x, s)
         else (sx_CR x OR DMA_SxCR_EN, upd_stream i (\<lambda>x. x\<lparr> sx_lag := sx_lag x - 1 \<rparr>) s))"

definition write_HIFCR :: "u32 \<Rightarrow> slave \<Rightarrow> slave" where
  "write_HIFCR v s = s\<lparr> dma_HISR := dma_HISR s AND NOT v \<rparr>"

subsection \<open>Encoding\<close>

lemma u8_shift_less: "m \<noteq> 0 \<Longrightarrow> unat (drop_bit 1 (m :: u8)) < unat m"
proof -
  assume "m \<noteq> 0"
  then have "0 < unat m" by (simp add: unat_gt_0)
  then show ?thesis by (simp add: drop_bit_eq_div unat_div_distrib)
qed

function encode_bits :: "u8 \<Rightarrow> u8 \<Rightarrow> u16 list \<times> u32 \<Rightarrow> u16 list \<times> u32" where
  "encode_bits v bitmask (buf, slot_index) =
     (if bitmask = 0 then (buf, slot_index)
      else encode_bits v (drop_bit 1 bitmask)
             (buf[unat slot_index := if v AND bitmask \<noteq> 0 then WS2812_T1H_TICKS else WS2812_T0H_TICKS],
              slot_index + 1))"
  by pat_completeness auto
termination
  by (relation "measure (\<lambda>(v, m, b). unat m)") (use u8_shift_less in auto)

definition encode_byte :: "u8 \<Rightarrow> u16 list \<times> u32 \<Rightarrow> u16 list \<times> u32" where
  "encode_byte v = encode_bits v 0x80"

definition encode_pixels :: "u16 \<Rightarrow> u8 \<Rightarrow> u8 \<Rightarrow> u8 \<Rightarrow> u16 list \<times> u32 \<Rightarrow> u16 list \<times> u32" where
  "encode_pixels pixel_count red green blue =
     fold (\<lambda>_ b. encode_byte green (encode_byte red (encode_byte blue b))) [0..<unat pixel_count]"

function clear_slots :: "u32 \<Rightarrow> u16 list \<Rightarrow> u16 list" where
  "clear_slots slot_index buf =
     (if slot_index < WS2812_DATA_SLOT_FIRST + WS2812_DATA_SLOT_COUNT
      then clear_slots (slot_index + 1) (buf[unat slot_index := 0]) else buf)"
  by pat_completeness auto
termination
  by (relation "measure (\<lambda>(slot, b). 456 - unat slot)")
    (auto simp: word_less_nat_alt unat_word_ariths)

subsection \<open>Transmission\<close>

function dma_spin :: "stream_id \<Rightarrow> u32 \<Rightarrow> slave \<Rightarrow> u32 \<times> slave" where
  "dma_spin i guard s =
     (let (cr, s1) = read_CR i s
      in if cr AND DMA_SxCR_EN \<noteq> 0 \<and> guard \<noteq> 0 then dma_spin i (guard - 1) s1 else (guard, s1))"
  by pat_completeness auto
termination
  by (relation "measure (\<lambda>(i, guard, s). unat guard)") (auto simp: unat_minus_one unat_gt_0)

definition dma_stream_disable :: "stream_id \<Rightarrow> slave \<Rightarrow> u8 \<times> slave" where
  "dma_stream_disable i s =
     (let s1 = write_CR i (sx_CR (dma1 s i) AND NOT DMA_SxCR_EN) s;
          (guard, s2) = dma_spin i WS2812_DMA_DISABLE_SPIN_LIMIT s1
      in (of_flag (guard \<noteq> 0), s2))"

text \<open>What the hardware begins to put on the wire when the counter starts: the half-words from the
  buffer, if timer, stream and channel are set up for it. They have all gone out when the stream raises
  its transfer-complete flag; if the driver stops the timer before, only a leading part has.\<close>

definition on_wire :: "neopixel_hw_t \<Rightarrow> slave \<Rightarrow> u16 list" where
  "on_wire hw s =
     (let x = dma1 s (hw_stream hw)
      in if sx_CR x = hw_dma_chsel hw OR DMA_SxCR_DIR_0 OR DMA_SxCR_MINC OR DMA_SxCR_PSIZE_0
                        OR DMA_SxCR_MSIZE_0 OR DMA_SxCR_PL_1 OR DMA_SxCR_EN
            \<and> sx_PAR x = Addr_CCR (hw_ccr hw) \<and> sx_M0AR x = Addr_pwm_data
            \<and> tim_DIER (tim3 s) = hw_dier_dma hw \<and> tim_CR1 (tim3 s) AND TIM_CR1_CEN \<noteq> 0
            \<and> tim_ARR (tim3 s) = WS2812_TIMER_ARR
            \<and> tim_CCMR1 (tim3 s) AND hw_ccmr_pwm_bits hw = hw_ccmr_pwm_bits hw
            \<and> tim_CCER (tim3 s) AND hw_ccer_enable hw = hw_ccer_enable hw
         then take (unat (sx_NDTR x)) (pwm_data s) else [])"

definition silent_poll :: poll where
  "silent_poll = \<lparr> poll_raised = 0, poll_ms = 1, poll_irqs = [] \<rparr>"

definition next_poll :: "poll list \<Rightarrow> poll \<times> poll list" where
  "next_poll ps = (case ps of [] \<Rightarrow> (silent_poll, []) | p # ps' \<Rightarrow> (p, ps'))"

definition raise_flags :: "u32 \<Rightarrow> slave \<Rightarrow> slave" where
  "raise_flags v s = s\<lparr> dma_HISR := dma_HISR s OR v \<rparr>"

definition between_looks :: "poll \<Rightarrow> slave \<Rightarrow> slave" where
  "between_looks p s = fold USART1_IRQHandler (poll_irqs p) (slave_pass (poll_ms p) s)"

lemma silent_poll_ms: "u32_elapsed < (50 :: u32) \<Longrightarrow> unat (u32_elapsed + 1) = unat u32_elapsed + 1"
  by (simp add: word_less_nat_alt unat_word_ariths)

function ws2812_wait :: "neopixel_hw_t \<Rightarrow> u32 \<Rightarrow> poll list \<Rightarrow> slave \<Rightarrow> hal_status \<times> slave" where
  "ws2812_wait hw start_tick polls s =
     (let (p, rest) = next_poll polls;
          s1 = raise_flags (poll_raised p) s
      in if dma_HISR s1 AND hw_dma_tc_flag hw \<noteq> 0 then (HAL_OK, s1)
         else if dma_HISR s1 AND hw_dma_error_flags hw \<noteq> 0 then (HAL_ERROR, s1)
         else if HAL_GetTick s1 - start_tick \<ge> WS2812_DMA_TIMEOUT_MS then (HAL_TIMEOUT, s1)
         else ws2812_wait hw start_tick rest (between_looks p s1))"
  by pat_completeness auto
termination
proof (relation "measures [\<lambda>(hw, start, polls, s). length polls,
    \<lambda>(hw, start, polls, s). 50 - unat (sl_tick s - start)]", simp, goal_cases)
  case (1 hw start polls s x p rest s1)
  show ?case
  proof (cases polls)
    case Nil
    then have "p = silent_poll" "rest = []" using 1(1,2) by (simp_all add: next_poll_def)
    moreover have "sl_tick s - start < 50"
      using 1 by (simp add: HAL_GetTick_def raise_flags_def)
    moreover from this have "unat (sl_tick s + 1 - start) = unat (sl_tick s - start) + 1"
      using silent_poll_ms [of "sl_tick s - start"] by (simp add: algebra_simps)
    ultimately show ?thesis
      using Nil 1
      by (simp add: between_looks_def silent_poll_def slave_pass_def raise_flags_def word_less_nat_alt)
  next
    case (Cons q qs)
    then show ?thesis using 1(1,2) by (simp add: next_poll_def)
  qed
qed

declare encode_bits.simps [simp del] clear_slots.simps [simp del] dma_spin.simps [simp del]
  ws2812_wait.simps [simp del]

definition next_frame_polls :: "slave \<Rightarrow> poll list \<times> slave" where
  "next_frame_polls s = (case sl_polls s of [] \<Rightarrow> ([], s) | ps # pss \<Rightarrow> (ps, s\<lparr> sl_polls := pss \<rparr>))"

text \<open>Steps 1 to 7 of the code: stop, counter and duty to zero, update event, stream, enable, start.\<close>

definition ws2812_start :: "neopixel_hw_t \<Rightarrow> u32 \<Rightarrow> slave \<Rightarrow> slave" where
  "ws2812_start hw slot_count s =
     (let i = hw_stream hw;
          s1 = upd_tim (\<lambda>t. t\<lparr> tim_CR1 := tim_CR1 t AND NOT TIM_CR1_CEN, tim_DIER := 0, tim_CNT := 0 \<rparr>) s;
          s2 = upd_tim (\<lambda>t. (write_EGR TIM_EGR_UG (set_ccr (hw_ccr hw) 0 t))\<lparr> tim_SR := 0 \<rparr>) s1;
          s3 = write_HIFCR (hw_dma_clear_flags hw) s2;
          s4 = upd_stream i (\<lambda>x. x\<lparr> sx_PAR := Addr_CCR (hw_ccr hw), sx_M0AR := Addr_pwm_data,
                                    sx_NDTR := slot_count, sx_FCR := 0 \<rparr>) s3;
          s5 = write_CR i (hw_dma_chsel hw OR DMA_SxCR_DIR_0 OR DMA_SxCR_MINC OR DMA_SxCR_PSIZE_0
                           OR DMA_SxCR_MSIZE_0 OR DMA_SxCR_PL_1) s4;
          s6 = write_CR i (sx_CR (dma1 s5 i) OR DMA_SxCR_EN) s5
      in upd_tim (\<lambda>t. t\<lparr> tim_DIER := hw_dier_dma hw, tim_CR1 := tim_CR1 t OR TIM_CR1_CEN \<rparr>) s6)"

definition ws2812_stop :: "neopixel_hw_t \<Rightarrow> slave \<Rightarrow> slave" where
  "ws2812_stop hw =
     upd_tim (\<lambda>t. write_EGR TIM_EGR_UG (set_ccr (hw_ccr hw) 0
                    (t\<lparr> tim_DIER := 0, tim_CR1 := tim_CR1 t AND NOT TIM_CR1_CEN \<rparr>)))"

definition hw_strip :: "neopixel_hw_t \<Rightarrow> neopixel_channel_t" where
  "hw_strip hw = (case hw_stream hw of DMA1_Stream4 \<Rightarrow> NEOPIXEL_CH_A | DMA1_Stream5 \<Rightarrow> NEOPIXEL_CH_B)"

definition strip_trace :: "hal_status \<Rightarrow> neopixel_channel_t \<Rightarrow> u16 list \<Rightarrow> hal_status \<Rightarrow> slave_effect" where
  "strip_trace ended c frame status =
     (if ended = HAL_OK then StripFrame c frame status else StripCut c frame status)"

definition ws2812_transmit :: "neopixel_hw_t \<Rightarrow> u32 \<Rightarrow> slave \<Rightarrow> hal_status \<times> slave" where
  "ws2812_transmit hw slot_count s =
     (let (down, s1) = dma_stream_disable (hw_stream hw) s
      in if down = 0 then (HAL_ERROR, s1)
         else
           let s2 = ws2812_start hw slot_count s1;
               frame = on_wire hw s2;
               (polls, s3) = next_frame_polls s2;
               (ended, s4) = ws2812_wait hw (HAL_GetTick s3) polls s3;
               s5 = ws2812_stop hw s4;
               (down, s6) = dma_stream_disable (hw_stream hw) s5;
               status = (if down = 0 then HAL_ERROR else ended);
               s7 = write_HIFCR (hw_dma_clear_flags hw) s6
           in (status, slave_emit (strip_trace ended (hw_strip hw) frame status) s7))"

subsection \<open>Initialisation\<close>

definition HAL_RCC_GetPCLK1Freq :: "board \<Rightarrow> u32" where
  "HAL_RCC_GetPCLK1Freq b = (case (osc b, clk b) of
       (Some oc, Some c) \<Rightarrow> word_of_nat (pclk1_hz oc c)
     | _ \<Rightarrow> word_of_nat HSI_VALUE)"

definition apb1_divided :: "board \<Rightarrow> bool" where
  "apb1_divided b = (case clk b of Some c \<Rightarrow> apb1_div c \<noteq> 1 | None \<Rightarrow> False)"

definition timer_input_clock_hz :: "board \<Rightarrow> u32" where
  "timer_input_clock_hz b =
     (if apb1_divided b then HAL_RCC_GetPCLK1Freq b * 2 else HAL_RCC_GetPCLK1Freq b)"

definition neopixel_timer_setup :: "neopixel_hw_t \<Rightarrow> tim_regs \<Rightarrow> tim_regs" where
  "neopixel_timer_setup hw t =
     (write_EGR TIM_EGR_UG (set_ccr (hw_ccr hw) 0
        (t\<lparr> tim_CR1 := TIM_CR1_ARPE, tim_CR2 := 0, tim_SMCR := 0, tim_DIER := 0,
           tim_CCMR1 := tim_CCMR1 t OR hw_ccmr_pwm_bits hw,
           tim_CCER := tim_CCER t OR hw_ccer_enable hw,
           tim_PSC := 0, tim_ARR := WS2812_TIMER_ARR, tim_CNT := 0 \<rparr>)))\<lparr> tim_SR := 0 \<rparr>"

definition neopixel_init :: "u32 \<Rightarrow> slave \<Rightarrow> hal_status \<times> slave" where
  "neopixel_init channel s =
     (if channel \<ge> NEOPIXEL_CH_COUNT then (HAL_ERROR, s)
      else if timer_input_clock_hz (sl_board s) \<noteq> WS2812_TIMER_CLOCK_HZ then (HAL_ERROR, s)
      else
        let hw = neopixel_hw (strip_of channel);
            s1 = on_board (HAL_GPIO_Init (hw_port hw) [hw_pin hw] (Mode_AF_PP (hw_alternate hw))) s;
            s2 = upd_tim (neopixel_timer_setup hw) s1;
            s3 = write_CR (hw_stream hw) 0 s2;
            (down, s4) = dma_stream_disable (hw_stream hw) s3
        in if down = 0 then (HAL_ERROR, s4)
           else
             let s5 = upd_stream (hw_stream hw) (\<lambda>x. x\<lparr> sx_FCR := 0 \<rparr>) s4;
                 s6 = write_HIFCR (hw_dma_clear_flags hw) s5;
                 s7 = s6\<lparr> pwm_data := replicate (unat WS2812_DMA_BUFFER_SIZE) 0,
                          channel_ready := (channel_ready s6)[unat channel := 1] \<rparr>
             in (HAL_OK, HAL_Delay 1 s7))"

subsection \<open>Showing a colour\<close>

definition neopixel_show_solid :: "u32 \<Rightarrow> u16 \<Rightarrow> u8 \<Rightarrow> u8 \<Rightarrow> u8 \<Rightarrow> slave \<Rightarrow> hal_status \<times> slave" where
  "neopixel_show_solid channel pixel_count red green blue s =
     (if channel \<ge> NEOPIXEL_CH_COUNT then (HAL_ERROR, s)
      else if pixel_count = 0 \<or> pixel_count > NEOPIXEL_MAX_PIXEL_COUNT then (HAL_ERROR, s)
      else if channel_ready s ! unat channel = 0 then (HAL_ERROR, s)
      else
        let hw = neopixel_hw (strip_of channel);
            (buf, data_end) = encode_pixels pixel_count red green blue (pwm_data s, WS2812_DATA_SLOT_FIRST);
            s1 = s\<lparr> pwm_data := clear_slots data_end buf \<rparr>;
            (status, s2) = ws2812_transmit hw (data_end + WS2812_RESET_SLOT_COUNT) s1
        in (status, if status = HAL_OK then HAL_Delay 1 s2 else s2))"

end
