(* ===== verification/Slave_Task.thy ===== *)
theory Slave_Task
  imports Slave_Neopixel
begin

text \<open>The task side of the slave: the acknowledgement (veda_rs485.c), the strips (veda_strip.c), the
  debug log (veda_debug.c) and the loop of veda_supervisor.c.\<close>

subsection \<open>veda_debug.c\<close>

definition slave_print :: "u8 list \<Rightarrow> slave \<Rightarrow> slave" where
  "slave_print bytes s = snd (HAL_UART_Transmit_slave USART2 bytes 100 s)"

definition slave_print_digit :: "u8 \<Rightarrow> slave \<Rightarrow> slave" where
  "slave_print_digit v = slave_print [ascii CHR ''0'' + v mod 10]"

function slave_digits :: "u32 \<Rightarrow> u8 list \<Rightarrow> u8 list" where
  "slave_digits v reversed =
     (let reversed' = reversed @ [ascii CHR ''0'' + ucast (v mod 10)];
          v' = v div 10
      in if v' \<noteq> 0 then slave_digits v' reversed' else reversed')"
  by pat_completeness auto
termination
  by (relation "measure (\<lambda>(v, acc). unat v)")
    (auto simp: unat_div_distrib unat_gt_0 word_neq_0_conv [symmetric] intro!: div_less_dividend)

declare slave_digits.simps [simp del]

definition slave_print_u32 :: "u32 \<Rightarrow> slave \<Rightarrow> slave" where
  "slave_print_u32 v = slave_print (rev (slave_digits v []))"

definition verdict_text :: "u8 \<Rightarrow> string" where
  "verdict_text v =
     [''APPLIED (relay+buzzer+strip)'', ''dropped: bad format'', ''dropped: another slave'',
      ''dropped: bad risk level'', ''dropped: not my channel''] ! unat v"

definition c_string :: "u8 list \<Rightarrow> u8 list" where
  "c_string bytes = takeWhile (\<lambda>b. b \<noteq> 0) bytes"

definition veda_debug_line_service :: "slave \<Rightarrow> slave" where
  "veda_debug_line_service s =
     (if debug_ready s = 0 then s
      else
        let s1 = slave_print (cstr ''RX \"'') s;
            s2 = slave_print (c_string (debug_line s1)) s1;
            s3 = slave_print (cstr ''\" -> '') s2;
            s4 = (if debug_verdict s3 < VERDICT_COUNT
                  then slave_print (cstr (verdict_text (debug_verdict s3))) s3 else s3);
            s5 = slave_print [CR, LF] s4
        in s5\<lparr> debug_ready := 0 \<rparr>)"

definition veda_debug_loop_begin :: "slave \<Rightarrow> slave" where
  "veda_debug_loop_begin s = s\<lparr> loop_count := 0, loop_report_msec := HAL_GetTick s \<rparr>"

definition veda_debug_loop_tick :: "slave \<Rightarrow> slave" where
  "veda_debug_loop_tick s =
     (let s1 = s\<lparr> loop_count := loop_count s + 1 \<rparr>
      in if HAL_GetTick s1 - loop_report_msec s1 \<ge> 5000 then
           let elapsed = HAL_GetTick s1 - loop_report_msec s1;
               s2 = slave_print_u32 (loop_count s1) (slave_print (cstr ''[loop] '') s1);
               s3 = slave_print (cstr '' turns / 5s -> '') s2;
               s4 = slave_print_u32 (if loop_count s3 \<noteq> 0 then elapsed div loop_count s3 else 0) s3;
               s5 = slave_print (cstr ''ms each'' @ [CR, LF]) s4
           in s5\<lparr> loop_count := 0, loop_report_msec := HAL_GetTick s5 \<rparr>
         else s1)"

subsection \<open>The acknowledgement\<close>

definition ack_frame :: "u8 \<Rightarrow> u8 \<Rightarrow> u8 \<Rightarrow> u8 list" where
  "ack_frame my channel risk_level =
     [ascii CHR ''A'', ascii CHR ''0'' + my, ascii CHR '':'', ascii CHR ''C'', ascii CHR ''H'',
      ascii CHR ''0'' + channel, ascii CHR '':'', ascii CHR ''R'',
      ascii CHR ''0'' + risk_level mod 10, LF]"

definition rs485_send_ack :: "u8 \<Rightarrow> u8 \<Rightarrow> slave \<Rightarrow> slave" where
  "rs485_send_ack channel risk_level s =
     (let s1 = write_pin RS485_DE True s;
          (_, s2) = HAL_UART_Transmit_slave USART1 (ack_frame (my_slave_id s) channel risk_level)
                      RS485_ACK_TX_TIMEOUT_MSEC s1
      in write_pin RS485_DE False s2)"

definition veda_rs485_ack_service :: "slave \<Rightarrow> slave" where
  "veda_rs485_ack_service s =
     (if ack_pending s \<noteq> 0
      then (rs485_send_ack (ack_channel_slot s) (ack_risk_slot s) s)\<lparr> ack_pending := 0 \<rparr>
      else s)"

subsection \<open>The strips\<close>

definition strip_colour :: "u8 \<Rightarrow> (u8 \<times> u8 \<times> u8) option" where
  "strip_colour risk_level =
     (if risk_level = VEDA_RISK_NONE then Some NEOPIXEL_NONE_RGB
      else if risk_level = VEDA_RISK_WARNING then Some NEOPIXEL_WARNING_RGB
      else if risk_level = VEDA_RISK_DANGER then Some NEOPIXEL_DANGER_RGB else None)"

definition strip_number :: "neopixel_channel_t \<Rightarrow> u32" where
  "strip_number c = word_of_nat (strip_index c)"

definition strip_show :: "nat \<Rightarrow> u8 \<Rightarrow> slave \<Rightarrow> hal_status \<times> slave" where
  "strip_show index risk_level s =
     (let co = channel_output (my_slave_id s) ! index
      in case strip_colour risk_level of
           None \<Rightarrow> (HAL_ERROR, s)
         | Some (red, green, blue) \<Rightarrow>
             let (status, s1) = neopixel_show_solid (strip_number (co_strip co)) NEOPIXEL_PIXEL_COUNT red green blue s;
                 s2 = (if status \<noteq> HAL_OK then
                         slave_print (if status = HAL_TIMEOUT then cstr '' DMA timeout'' @ [CR, LF]
                                      else cstr '' show error'' @ [CR, LF])
                           (slave_print (cstr (co_set_name co)) (slave_print (cstr ''!! strip '') s1))
                       else s1)
             in (status, s2))"

definition veda_strip_mark_shown :: "nat \<Rightarrow> u8 \<Rightarrow> slave \<Rightarrow> slave" where
  "veda_strip_mark_shown index risk_level s =
     s\<lparr> strip_shown_risk := (strip_shown_risk s)[index := risk_level] \<rparr>"

definition neopixel_service_one :: "nat \<Rightarrow> slave \<Rightarrow> slave" where
  "neopixel_service_one index s =
     (if strip_update_pending s ! index = 0 then s
      else
        let s1 = s\<lparr> strip_update_pending := (strip_update_pending s)[index := 0] \<rparr>;
            risk = channel_risk s1 ! index
        in if risk = strip_shown_risk s1 ! index then s1
           else
             let (status, s2) = strip_show index risk s1
             in if status = HAL_OK then veda_strip_mark_shown index risk s2 else s2)"

definition neopixel_service :: "slave \<Rightarrow> slave" where
  "neopixel_service s = fold neopixel_service_one [0..<channel_output_count (my_slave_id s)] s"

subsection \<open>veda_supervisor.c\<close>

definition veda_supervisor_blink_id :: "slave \<Rightarrow> slave" where
  "veda_supervisor_blink_id s =
     ((\<lambda>s. osDelay SLAVE_ID_BLINK_MSEC (write_pin LD2 False
             (osDelay SLAVE_ID_BLINK_MSEC (write_pin LD2 True s)))) ^^ unat (my_slave_id s)) s"

definition banner_entry :: "nat \<Rightarrow> slave \<Rightarrow> slave" where
  "banner_entry index s =
     (let co = channel_output (my_slave_id s) ! index;
          s1 = (if index \<noteq> 0 then slave_print (cstr '', '') s else s);
          s2 = slave_print_digit (co_channel co) (slave_print (cstr ''CH'') s1);
          s3 = slave_print (cstr (co_set_name co)) (slave_print (cstr ''='') s2);
          s4 = slave_print (cstr '')'') (slave_print (cstr (co_wiring co)) (slave_print (cstr ''('') s3))
      in if co_channel co < MY_FIRST_CHANNEL (my_slave_id s) \<or> co_channel co > MY_LAST_CHANNEL (my_slave_id s)
         then slave_print (cstr ''!!OUT-OF-RANGE'') s4 else s4)"

definition veda_supervisor_banner_slave :: "slave \<Rightarrow> slave" where
  "veda_supervisor_banner_slave s =
     (let s1 = slave_print_digit (my_slave_id s) (slave_print ([CR, LF] @ cstr ''SLAVE #'') s);
          s2 = slave_print (cstr '' READY - owns '') s1;
          s3 = fold banner_entry [0..<channel_output_count (my_slave_id s)] s2;
          s4 = slave_print (cstr ''active-high'') (slave_print (cstr '', buzzer='') s3);
          s5 = slave_print (cstr '', strip x'') s4;
          s6 = slave_print_digit (ucast ((NEOPIXEL_PIXEL_COUNT div 10) mod 10)) s5;
          s7 = slave_print_digit (ucast (NEOPIXEL_PIXEL_COUNT mod 10)) s6;
          s8 = slave_print (cstr ''/ch'') s7
      in slave_print [CR, LF] s8)"

definition strip_boot_one :: "nat \<Rightarrow> slave \<Rightarrow> slave" where
  "strip_boot_one index s =
     (let co = channel_output (my_slave_id s) ! index;
          (status, s1) = neopixel_init (strip_number (co_strip co)) s
      in if status \<noteq> HAL_OK then
           slave_print (cstr '' - timer clock is not 84MHz'' @ [CR, LF])
             (slave_print (cstr (co_set_name co)) (slave_print (cstr ''!! neopixel_init FAILED on ch '') s1))
         else
           let (shown, s2) = strip_show index VEDA_RISK_NONE s1
           in if shown = HAL_OK then veda_strip_mark_shown index VEDA_RISK_NONE s2 else s2)"

definition veda_supervisor_strip_boot :: "slave \<Rightarrow> slave" where
  "veda_supervisor_strip_boot s = fold strip_boot_one [0..<channel_output_count (my_slave_id s)] s"

text \<open>The part before the loop, and one turn of the loop.\<close>

definition slave_supervisor_entry :: "slave \<Rightarrow> slave" where
  "slave_supervisor_entry s =
     veda_rs485_rx_arm_slave (veda_debug_loop_begin (rs485_de_init_slave
       (veda_supervisor_strip_boot (veda_supervisor_banner_slave (veda_supervisor_blink_id s)))))"

text \<open>Between two calls of the loop the interrupt may be served as well.\<close>

definition interrupt_window :: "slave \<Rightarrow> slave" where
  "interrupt_window s = (let ((_, evs), s1) = next_call s in wait_events evs s1)"

definition slave_supervisor_iter :: "slave \<Rightarrow> slave" where
  "slave_supervisor_iter s =
     (let s1 = interrupt_window (veda_rs485_ack_service s);
          s2 = interrupt_window (veda_debug_line_service s1);
          s3 = interrupt_window (neopixel_service s2);
          s4 = interrupt_window (veda_rs485_idle_service s3);
          s5 = interrupt_window (veda_debug_loop_tick s4)
      in osDelay 10 s5)"

end
