(* ===== verification/Slave_Invariant.thy ===== *)
theory Slave_Invariant
  imports Slave_Task
begin

text \<open>The invariant of the slave: buffer positions stay in range, the recorded levels are levels, the
  pins show them, a pending acknowledgement names a channel of this slave, and no level change goes
  unnoticed by the strips. Every interrupt and every call of the task preserves it.\<close>

definition ack_slot_ok :: "slave \<Rightarrow> bool" where
  "ack_slot_ok s \<longleftrightarrow> ack_pending s \<noteq> 0 \<longrightarrow>
     MY_FIRST_CHANNEL (my_slave_id s) \<le> ack_channel_slot s
     \<and> ack_channel_slot s \<le> MY_LAST_CHANNEL (my_slave_id s) \<and> ack_risk_slot s \<le> 2"

definition slave_wf :: "slave \<Rightarrow> bool" where
  "slave_wf s \<longleftrightarrow> slave_line_wf s \<and> length (channel_risk s) = 2 \<and> list_all (\<lambda>r. r \<le> 2) (channel_risk s)
     \<and> length (strip_update_pending s) = 2 \<and> length (debug_line s) = 17 \<and> outputs_ok s \<and> ack_slot_ok s"

text \<open>The strips' bookkeeping across interrupts: nothing changed, or a redraw is asked for.\<close>

definition strip_noticed :: "slave \<Rightarrow> slave \<Rightarrow> bool" where
  "strip_noticed s t \<longleftrightarrow> (\<forall>i<2. (channel_risk t ! i = channel_risk s ! i
       \<and> strip_update_pending t ! i = strip_update_pending s ! i) \<or> strip_update_pending t ! i = 1)"

text \<open>What interrupts can do to a well-formed slave.\<close>

definition irq_rel :: "slave \<Rightarrow> slave \<Rightarrow> bool" where
  "irq_rel s t \<longleftrightarrow> slave_wf t \<and> my_slave_id t = my_slave_id s \<and> rx_armed t = rx_armed s
     \<and> task_data t = task_data s \<and> strip_noticed s t"

lemma strip_noticed_refl [simp]: "strip_noticed s s"
  by (simp add: strip_noticed_def)

lemma strip_noticed_trans: "strip_noticed s t \<Longrightarrow> strip_noticed t u \<Longrightarrow> strip_noticed s u"
  by (fastforce simp: strip_noticed_def)

lemma irq_rel_refl: "slave_wf s \<Longrightarrow> irq_rel s s"
  by (simp add: irq_rel_def)

lemma irq_rel_trans: "irq_rel s t \<Longrightarrow> irq_rel t u \<Longrightarrow> irq_rel s u"
  by (auto simp: irq_rel_def elim: strip_noticed_trans)

subsection \<open>Field updates outside the invariant\<close>

lemma outputs_ok_upd [simp]:
  "outputs_ok (s\<lparr> strip_update_pending := p \<rparr>) = outputs_ok s"
  "outputs_ok (s\<lparr> rs485_line := l \<rparr>) = outputs_ok s" "outputs_ok (s\<lparr> rs485_line_length := n \<rparr>) = outputs_ok s"
  "outputs_ok (s\<lparr> rs485_line_overflow := n \<rparr>) = outputs_ok s"
  "outputs_ok (s\<lparr> rs485_last_rx_msec := t \<rparr>) = outputs_ok s" "outputs_ok (s\<lparr> rx_armed := b \<rparr>) = outputs_ok s"
  "outputs_ok (s\<lparr> ack_pending := n \<rparr>) = outputs_ok s" "outputs_ok (s\<lparr> ack_channel_slot := n \<rparr>) = outputs_ok s"
  "outputs_ok (s\<lparr> ack_risk_slot := n \<rparr>) = outputs_ok s" "outputs_ok (s\<lparr> debug_line := l \<rparr>) = outputs_ok s"
  "outputs_ok (s\<lparr> debug_verdict := n \<rparr>) = outputs_ok s" "outputs_ok (s\<lparr> debug_ready := n \<rparr>) = outputs_ok s"
  "outputs_ok (s\<lparr> strip_shown_risk := p \<rparr>) = outputs_ok s" "outputs_ok (s\<lparr> loop_count := t \<rparr>) = outputs_ok s"
  "outputs_ok (s\<lparr> loop_report_msec := t \<rparr>) = outputs_ok s" "outputs_ok (s\<lparr> tim3 := r \<rparr>) = outputs_ok s"
  "outputs_ok (s\<lparr> dma1 := d \<rparr>) = outputs_ok s" "outputs_ok (s\<lparr> dma_HISR := t \<rparr>) = outputs_ok s"
  "outputs_ok (s\<lparr> pwm_data := w \<rparr>) = outputs_ok s" "outputs_ok (s\<lparr> channel_ready := p \<rparr>) = outputs_ok s"
  "outputs_ok (s\<lparr> sl_tick := t \<rparr>) = outputs_ok s" "outputs_ok (s\<lparr> sl_calls := c \<rparr>) = outputs_ok s"
  "outputs_ok (s\<lparr> sl_polls := pp \<rparr>) = outputs_ok s" "outputs_ok (s\<lparr> sl_lags := ll \<rparr>) = outputs_ok s"
  "outputs_ok (s\<lparr> sl_out := oo \<rparr>) = outputs_ok s"
  by (simp_all add: outputs_ok_def pin_shows_def)

lemma slave_wf_upd [simp]:
  "slave_wf (s\<lparr> rs485_last_rx_msec := t \<rparr>) = slave_wf s" "slave_wf (s\<lparr> rx_armed := b \<rparr>) = slave_wf s"
  "slave_wf (s\<lparr> debug_verdict := n \<rparr>) = slave_wf s" "slave_wf (s\<lparr> debug_ready := n \<rparr>) = slave_wf s"
  "slave_wf (s\<lparr> rs485_line_overflow := n \<rparr>) = slave_wf s"
  "slave_wf (s\<lparr> strip_shown_risk := p \<rparr>) = slave_wf s" "slave_wf (s\<lparr> loop_count := t \<rparr>) = slave_wf s"
  "slave_wf (s\<lparr> loop_report_msec := t \<rparr>) = slave_wf s" "slave_wf (s\<lparr> tim3 := r \<rparr>) = slave_wf s"
  "slave_wf (s\<lparr> dma1 := d \<rparr>) = slave_wf s" "slave_wf (s\<lparr> dma_HISR := t \<rparr>) = slave_wf s"
  "slave_wf (s\<lparr> pwm_data := w \<rparr>) = slave_wf s" "slave_wf (s\<lparr> channel_ready := p \<rparr>) = slave_wf s"
  "slave_wf (s\<lparr> sl_tick := t \<rparr>) = slave_wf s" "slave_wf (s\<lparr> sl_calls := c \<rparr>) = slave_wf s"
  "slave_wf (s\<lparr> sl_polls := pp \<rparr>) = slave_wf s" "slave_wf (s\<lparr> sl_lags := ll \<rparr>) = slave_wf s"
  "slave_wf (s\<lparr> sl_out := oo \<rparr>) = slave_wf s"
  by (simp_all add: slave_wf_def slave_line_wf_def ack_slot_ok_def)

lemma slave_wf_line [simp]: "slave_wf s \<Longrightarrow> slave_wf (s\<lparr> rs485_line_length := 0 \<rparr>)"
  by (simp add: slave_wf_def slave_line_wf_def ack_slot_ok_def)

subsection \<open>The interrupt\<close>

lemma applied_to_fields [simp]:
  "channel_risk (applied_to i r s) = (channel_risk s)[i := r]"
  "strip_update_pending (applied_to i r s) = (strip_update_pending s)[i := 1]"
  "my_slave_id (applied_to i r s) = my_slave_id s"
  "ack_pending (applied_to i r s) = ack_pending s" "ack_channel_slot (applied_to i r s) = ack_channel_slot s"
  "ack_risk_slot (applied_to i r s) = ack_risk_slot s" "rx_armed (applied_to i r s) = rx_armed s"
  "debug_line (applied_to i r s) = debug_line s" "debug_ready (applied_to i r s) = debug_ready s"
  "rs485_line (applied_to i r s) = rs485_line s" "rs485_line_length (applied_to i r s) = rs485_line_length s"
  by (simp_all add: applied_to_def Let_def write_pin_def on_board_def)

lemma applied_to_wf:
  assumes "slave_wf s" "i < 2" "r \<le> 2"
  shows "slave_wf (applied_to i r s)" "strip_noticed s (applied_to i r s)"
proof -
  show "slave_wf (applied_to i r s)"
    using assms applied_to_ok [of s i r]
    by (simp add: slave_wf_def slave_line_wf_def ack_slot_ok_def list_all_length nth_list_update)
  show "strip_noticed s (applied_to i r s)"
    using assms by (auto simp: strip_noticed_def slave_wf_def nth_list_update)
qed

lemma read_verdict_applied:
  assumes "verdict_of my l = VERDICT_APPLIED"
  obtains c where "read_command l = Some c" "cmd_slave c = my" "cmd_risk c \<le> 2"
    "MY_FIRST_CHANNEL my \<le> cmd_channel c" "cmd_channel c \<le> MY_LAST_CHANNEL my"
  using assms by (auto simp: verdict_of_def simp del: MY_FIRST_CHANNEL_def MY_LAST_CHANNEL_def
      split: option.splits if_splits)

text \<open>The channels of a slave are the two entries of its table.\<close>

lemma own_channel_cases:
  assumes "buildable my" "MY_FIRST_CHANNEL my \<le> c" "c \<le> MY_LAST_CHANNEL my"
  obtains "c = 2 * my - 1" | "c = 2 * my" "c \<noteq> 2 * my - 1"
  using channel_output_range [OF assms(1), of c] channel_output_index_cases [OF assms(1), of c] assms(2,3)
  by (metis (full_types))

definition own_index :: "u8 \<Rightarrow> u8 \<Rightarrow> nat" where
  "own_index my c = (if c = 2 * my - 1 then 0 else 1)"

lemma line_effect_applied:
  assumes "slave_wf s" "verdict_of (my_slave_id s) l = VERDICT_APPLIED" "read_command l = Some c"
  shows "line_effect l s = veda_rs485_ack_offer (cmd_channel c) (cmd_risk c)
           (applied_to (own_index (my_slave_id s) (cmd_channel c)) (cmd_risk c) s)"
proof -
  have b: "buildable (my_slave_id s)" using assms(1) by (simp add: slave_wf_def slave_line_wf_def)
  from assms(2) obtain c' where c': "read_command l = Some c'"
    "MY_FIRST_CHANNEL (my_slave_id s) \<le> cmd_channel c'" "cmd_channel c' \<le> MY_LAST_CHANNEL (my_slave_id s)"
    by (rule read_verdict_applied)
  then have "c' = c" using assms(3) by simp
  then show ?thesis
    using own_channel_cases [OF b c'(2,3)] assms(2,3)
    by (auto simp: line_effect_def obey_def apply_channel_state_eq [OF b] own_index_def)
qed

lemma line_effect_wf:
  assumes "slave_wf s"
  shows "slave_wf (line_effect l s) \<and> strip_noticed s (line_effect l s) \<and> rx_armed (line_effect l s) = rx_armed s"
proof (cases "verdict_of (my_slave_id s) l = VERDICT_APPLIED")
  case True
  then obtain c where c: "read_command l = Some c" "cmd_risk c \<le> 2"
    "MY_FIRST_CHANNEL (my_slave_id s) \<le> cmd_channel c" "cmd_channel c \<le> MY_LAST_CHANNEL (my_slave_id s)"
    by (rule read_verdict_applied)
  let ?t = "applied_to (own_index (my_slave_id s) (cmd_channel c)) (cmd_risk c) s"
  have i: "own_index (my_slave_id s) (cmd_channel c) < 2" by (simp add: own_index_def)
  note t = applied_to_wf [OF assms i c(2)]
  have "slave_wf (veda_rs485_ack_offer (cmd_channel c) (cmd_risk c) ?t)"
    using t(1) c(2-4)
    by (simp add: veda_rs485_ack_offer_def slave_wf_def slave_line_wf_def ack_slot_ok_def
        del: MY_FIRST_CHANNEL_def MY_LAST_CHANNEL_def)
  then show ?thesis
    using t(2) by (simp add: line_effect_applied [OF assms True c(1)] strip_noticed_def veda_rs485_ack_offer_def)
next
  case False
  then show ?thesis using assms by (simp add: line_effect_def)
qed

lemma debug_offer_wf:
  assumes "slave_wf s" "length l \<le> 16"
  shows "slave_wf (veda_debug_line_offer l (word_of_nat (length l)) v s)"
proof -
  have "unat (word_of_nat (length l) :: u8) = length l"
    using assms(2) by (simp add: unat_of_nat)
  then show ?thesis
    using assms by (simp add: veda_debug_line_offer_def slave_wf_def slave_line_wf_def ack_slot_ok_def)
qed

lemma slave_line_act_inv:
  assumes "slave_wf s" "length l \<le> 16"
  shows "slave_wf (slave_line_act l s) \<and> strip_noticed s (slave_line_act l s)
    \<and> rx_armed (slave_line_act l s) = rx_armed s"
proof -
  have "strip_noticed s (veda_debug_line_offer l n v t) = strip_noticed s t"
    "rx_armed (veda_debug_line_offer l n v t) = rx_armed t" for n v t
    by (simp_all add: strip_noticed_def veda_debug_line_offer_def)
  then show ?thesis
    using line_effect_wf [OF assms(1), of l] debug_offer_wf [of "line_effect l s" l] assms
    by (simp add: slave_line_act_def)
qed

lemma slave_wf_parts:
  assumes "slave_wf s"
  shows "slave_line_wf s" "buildable (my_slave_id s)" "length (rs485_line s) = 16"
    "unat (rs485_line_length s) \<le> 16"
  using assms by (simp_all add: slave_wf_def slave_line_wf_def word_le_nat_alt)

lemma process_rs485_byte_inv:
  assumes "slave_wf s"
  shows "irq_rel s (process_rs485_byte b s)"
proof -
  note w = slave_wf_parts [OF assms]
  have len: "length (fst (slave_line_view s)) \<le> 16" using w by (simp add: slave_line_view_def)
  have my: "my_slave_id (process_rs485_byte b s) = my_slave_id s"
    by (simp add: process_rs485_byte_cases [OF w(1)])
  have upd: "slave_wf (t\<lparr> rs485_line := l, rs485_line_length := n \<rparr>)"
    if "slave_wf t" "length l = 16" "n \<le> 16" for t l n
    using that by (simp add: slave_wf_def slave_line_wf_def ack_slot_ok_def)
  have "slave_line_wf (process_rs485_byte b s)" using process_rs485_byte_wf [OF w(1)] .
  then have n: "length (fst (slave_line_view s)) < 16 \<Longrightarrow> \<not> is_eol b \<Longrightarrow> rs485_line_length s + 1 \<le> 16"
    by (simp add: process_rs485_byte_cases [OF w(1)] slave_line_wf_def)
  have frame: "strip_noticed s (t\<lparr> rs485_line := l \<rparr>) = strip_noticed s t"
    "strip_noticed s (t\<lparr> rs485_line_length := k \<rparr>) = strip_noticed s t"
    "strip_noticed s (t\<lparr> rs485_line_overflow := k \<rparr>) = strip_noticed s t" for t l k
    by (simp_all add: strip_noticed_def)
  have "slave_wf (process_rs485_byte b s) \<and> strip_noticed s (process_rs485_byte b s)
      \<and> rx_armed (process_rs485_byte b s) = rx_armed s"
    using assms slave_line_act_inv [OF assms len] upd [OF assms _ n] w
    by (simp add: process_rs485_byte_cases [OF w(1)] frame not_le)
  then show ?thesis
    using task_data_byte [OF w(1)] my by (simp add: irq_rel_def)
qed

lemma USART1_IRQHandler_inv:
  assumes "slave_wf s"
  shows "irq_rel s (USART1_IRQHandler irq s)"
proof (cases "rx_armed s")
  case False
  then show ?thesis using assms by (simp add: USART1_IRQHandler_def irq_rel_refl)
next
  case True
  show ?thesis
  proof (cases irq)
    case (Bus_Byte b)
    have "slave_wf (s\<lparr> rx_armed := False \<rparr>)" using assms by simp
    from process_rs485_byte_inv [OF this, of b] show ?thesis
      using True Bus_Byte
      by (simp add: irq_rel_def USART1_IRQHandler_def HAL_UART_RxCpltCallback_slave_def
          veda_rs485_rx_arm_slave_def veda_rs485_mark_rx_def strip_noticed_def)
  next
    case Bus_Error
    then show ?thesis
      using True assms
      by (simp add: irq_rel_def USART1_IRQHandler_def HAL_UART_ErrorCallback_slave_def
          veda_rs485_rx_arm_slave_def veda_rs485_line_reset_def strip_noticed_def)
  qed
qed

lemma slave_pass_inv: "slave_wf s \<Longrightarrow> irq_rel s (slave_pass n s)"
  by (simp add: irq_rel_def slave_pass_def strip_noticed_def task_data_def pin_shows_def)

lemma irq_fold_inv: "slave_wf s \<Longrightarrow> irq_rel s (fold USART1_IRQHandler irqs s)"
proof (induction irqs arbitrary: s)
  case (Cons i irqs)
  have step: "irq_rel s (USART1_IRQHandler i s)" using USART1_IRQHandler_inv [OF Cons.prems] .
  then show ?case
    using Cons.IH [of "USART1_IRQHandler i s"] irq_rel_trans [OF step] by (simp add: irq_rel_def)
qed (simp add: irq_rel_refl)

lemma wait_events_inv: "slave_wf s \<Longrightarrow> irq_rel s (wait_events evs s)"
  unfolding wait_events_def
proof (induction evs arbitrary: s)
  case (Cons e evs)
  obtain d i where e: "e = (d, i)" by (cases e)
  have pass: "irq_rel s (slave_pass d s)" using slave_pass_inv [OF Cons.prems] .
  then have step: "irq_rel s (USART1_IRQHandler i (slave_pass d s))"
    using USART1_IRQHandler_inv [of "slave_pass d s" i] irq_rel_trans [OF pass]
    by (simp add: irq_rel_def)
  then show ?case
    using Cons.IH [of "USART1_IRQHandler i (slave_pass d s)"] irq_rel_trans [OF step]
    by (simp add: e irq_rel_def)
qed (simp add: irq_rel_refl)

lemma next_call_inv: "slave_wf s \<Longrightarrow> irq_rel s (snd (next_call s))"
  by (simp add: next_call_def irq_rel_def strip_noticed_def split: list.split)

subsection \<open>The task's blocking calls\<close>

lemma window_inv: "slave_wf s \<Longrightarrow> irq_rel s (interrupt_window s)"
  using next_call_inv [of s] wait_events_inv [of "snd (next_call s)"] irq_rel_trans
  by (auto simp: interrupt_window_def split_def Let_def irq_rel_def)

lemma osDelay_inv: "slave_wf s \<Longrightarrow> irq_rel s (osDelay n s)"
  using window_inv [of s] slave_pass_inv [of "interrupt_window s"] irq_rel_trans
  by (auto simp: osDelay_def interrupt_window_def split_def Let_def irq_rel_def)

lemma HAL_Delay_inv: "slave_wf s \<Longrightarrow> irq_rel s (HAL_Delay n s)"
  by (simp add: HAL_Delay_def osDelay_inv)

end
