(* ===== verification/Strip_Encoding.thy ===== *)
theory Strip_Encoding
  imports Slave_Neopixel
begin

text \<open>What the buffer of the strip driver holds after encoding a colour, and how a strip reads it: the
  datasheet windows checked by the code's static assertions, the receiver they define, and the
  round trip from colour to frame to colour.\<close>

subsection \<open>Bits to slots\<close>

definition slot_of_bit :: "bool \<Rightarrow> u16" where
  "slot_of_bit b = (if b then WS2812_T1H_TICKS else WS2812_T0H_TICKS)"

definition byte_bits :: "u8 \<Rightarrow> bool list" where
  "byte_bits v = map (bit v) (rev [0..<8])"

lemma length_byte_bits [simp]: "length (byte_bits v) = 8"
  by (simp add: byte_bits_def)

lemma list_put_next:
  assumes "k < length buf"
  shows "take (Suc k) (buf[k := x]) = take k buf @ [x]" "drop (Suc k + n) (buf[k := x]) = drop (Suc k + n) buf"
  using assms by (simp_all add: take_Suc_conv_app_nth)

lemma encode_bits_power:
  assumes "n \<le> 8" "unat k + n \<le> length buf" "length buf < 2 ^ 32"
  shows "encode_bits v (if n = 0 then 0 else 2 ^ (n - 1)) (buf, k) =
    (take (unat k) buf @ map (slot_of_bit \<circ> bit v) (rev [0..<n]) @ drop (unat k + n) buf, k + word_of_nat n)"
  using assms
proof (induction n arbitrary: buf k)
  case 0
  then show ?case by (simp add: encode_bits.simps)
next
  case (Suc n)
  have "n < 8" using Suc.prems(1) by simp
  then have nz: "(2 :: u8) ^ n \<noteq> 0" by (simp add: exp_eq_zero_iff)
  have half: "drop_bit 1 ((2 :: u8) ^ n) = (if n = 0 then 0 else 2 ^ (n - 1))"
  proof -
    have "n \<in> {0, 1, 2, 3, 4, 5, 6, 7}" using \<open>n < 8\<close> by auto
    then show ?thesis by auto
  qed
  have k: "unat (k + 1) = Suc (unat k)" using Suc.prems by (simp add: unat_word_ariths)
  let ?x = "slot_of_bit (bit v n)"
  have x: "(if v AND 2 ^ n \<noteq> 0 then WS2812_T1H_TICKS else WS2812_T0H_TICKS) = ?x"
    by (simp add: slot_of_bit_def and_exp_eq_0_iff_not_bit)
  have "encode_bits v (2 ^ n) (buf, k)
      = encode_bits v (if n = 0 then 0 else 2 ^ (n - 1)) (buf[unat k := ?x], k + 1)"
    using nz by (subst encode_bits.simps) (simp only: half x if_False)
  also have "\<dots> = (take (Suc (unat k)) (buf[unat k := ?x]) @ map (slot_of_bit \<circ> bit v) (rev [0..<n])
        @ drop (Suc (unat k) + n) (buf[unat k := ?x]), k + 1 + word_of_nat n)"
    using Suc.IH [of "k + 1" "buf[unat k := ?x]"] Suc.prems k by simp
  also have "\<dots> = (take (unat k) buf @ map (slot_of_bit \<circ> bit v) (rev [0..<Suc n])
        @ drop (unat k + Suc n) buf, k + word_of_nat (Suc n))"
    using Suc.prems list_put_next(1) [of "unat k" buf ?x] list_put_next(2) [of "unat k" buf n ?x] by (simp add: algebra_simps)
  finally show ?case by simp
qed

text \<open>Replacing a stretch of the buffer.\<close>

definition put_at :: "nat \<Rightarrow> u16 list \<Rightarrow> u16 list \<Rightarrow> u16 list" where
  "put_at k xs buf = take k buf @ xs @ drop (k + length xs) buf"

lemma length_put_at [simp]: "k + length xs \<le> length buf \<Longrightarrow> length (put_at k xs buf) = length buf"
  by (simp add: put_at_def)

lemma put_at_append:
  "k + length xs \<le> length buf \<Longrightarrow>
     put_at (k + length xs) ys (put_at k xs buf) = put_at k (xs @ ys) buf"
  by (simp add: put_at_def ac_simps)

definition byte_slots :: "u8 \<Rightarrow> u16 list" where
  "byte_slots v = map slot_of_bit (byte_bits v)"

lemma length_byte_slots [simp]: "length (byte_slots v) = 8"
  by (simp add: byte_slots_def)

lemma encode_byte_put:
  assumes "unat k + 8 \<le> length buf" "length buf < 2 ^ 32"
  shows "encode_byte v (buf, k) = (put_at (unat k) (byte_slots v) buf, k + 8)" "unat (k + 8) = unat k + 8"
  using assms encode_bits_power [of 8 k buf v]
  by (simp_all add: encode_byte_def put_at_def byte_slots_def byte_bits_def unat_word_ariths
      comp_def rev_map del: upt_rec_numeral)

definition pixel_slots :: "u8 \<Rightarrow> u8 \<Rightarrow> u8 \<Rightarrow> u16 list" where
  "pixel_slots red green blue = byte_slots blue @ byte_slots red @ byte_slots green"

lemma length_pixel_slots [simp]: "length (pixel_slots r g b) = 24"
  by (simp add: pixel_slots_def)

lemma encode_pixel_put:
  assumes "unat k + 24 \<le> length buf" "length buf < 2 ^ 32"
  shows "encode_byte g (encode_byte r (encode_byte b (buf, k))) = (put_at (unat k) (pixel_slots r g b) buf, k + 24)"
proof -
  let ?b1 = "put_at (unat k) (byte_slots b) buf"
  have l1: "length ?b1 = length buf" using assms by simp
  have e1: "encode_byte b (buf, k) = (?b1, k + 8)" "unat (k + 8) = unat k + 8"
    using encode_byte_put(1) [of k buf b] encode_byte_put(2) [of k buf] assms by simp_all
  let ?b2 = "put_at (unat k) (byte_slots b @ byte_slots r) buf"
  have l2: "length ?b2 = length buf" using assms by simp
  have e2: "encode_byte r (?b1, k + 8) = (?b2, k + 8 + 8)" "unat (k + 8 + 8) = unat k + 16"
    using encode_byte_put(1) [of "k + 8" ?b1 r] encode_byte_put(2) [of "k + 8" ?b1] assms l1 e1(2)
      put_at_append [of "unat k" "byte_slots b" buf "byte_slots r"] by simp_all
  have "encode_byte g (?b2, k + 8 + 8) = (put_at (unat k) (pixel_slots r g b) buf, k + 8 + 8 + 8)"
    using encode_byte_put(1) [of "k + 8 + 8" ?b2 g] assms l2 e2(2)
      put_at_append [of "unat k" "byte_slots b @ byte_slots r" buf "byte_slots g"]
    by (simp add: pixel_slots_def)
  then show ?thesis by (simp add: e1 e2)
qed

lemma length_concat_replicate [simp]: "length (concat (replicate n xs)) = n * length xs"
  by (induction n) simp_all

lemma concat_replicate_snoc: "concat (replicate n xs) @ xs = concat (replicate (Suc n) xs)"
  by (induction n) simp_all

lemma encode_pixels_put:
  assumes "unat k + n * 24 \<le> length buf" "length buf < 2 ^ 32"
  shows "fold (\<lambda>_ b. encode_byte g (encode_byte r (encode_byte bl b))) [0..<n] (buf, k) =
    (put_at (unat k) (concat (replicate n (pixel_slots r g bl))) buf, k + word_of_nat (n * 24))"
  using assms
proof (induction n)
  case 0
  then show ?case by (simp add: put_at_def)
next
  case (Suc n)
  let ?xs = "concat (replicate n (pixel_slots r g bl))"
  have len: "length (put_at (unat k) ?xs buf) = length buf" using Suc.prems by simp
  have k: "unat (k + word_of_nat (n * 24)) = unat k + n * 24"
    using Suc.prems by (simp add: unat_word_ariths unat_of_nat)
  have "fold (\<lambda>_ b. encode_byte g (encode_byte r (encode_byte bl b))) [0..<n] (buf, k)
      = (put_at (unat k) ?xs buf, k + word_of_nat (n * 24))"
    using Suc by simp
  moreover have "put_at (unat k + n * 24) (pixel_slots r g bl) (put_at (unat k) ?xs buf)
      = put_at (unat k) (concat (replicate (Suc n) (pixel_slots r g bl))) buf"
    using put_at_append [of "unat k" ?xs buf "pixel_slots r g bl"] Suc.prems
    by (simp add: concat_replicate_snoc del: replicate.simps concat.simps)
  ultimately show ?case
    using encode_pixel_put [of "k + word_of_nat (n * 24)" "put_at (unat k) ?xs buf" g r bl] Suc.prems k len
    by (simp add: algebra_simps del: replicate.simps)
qed

lemma clear_slots_put:
  assumes "unat k \<le> 456" "456 \<le> length buf"
  shows "clear_slots k buf = put_at (unat k) (replicate (456 - unat k) 0) buf"
  using assms
proof (induction "456 - unat k" arbitrary: k buf)
  case 0
  then have "\<not> k < 456" by (simp add: word_less_nat_alt)
  with 0 show ?case by (subst clear_slots.simps) (simp add: put_at_def)
next
  case (Suc m)
  then have less: "k < 456" "unat k < 456" by (simp_all add: word_less_nat_alt)
  have k: "unat (k + 1) = Suc (unat k)" using less by (simp add: unat_word_ariths)
  have "clear_slots k buf = clear_slots (k + 1) (buf[unat k := 0])"
    using less by (subst clear_slots.simps) simp
  also have "\<dots> = put_at (Suc (unat k)) (replicate (456 - Suc (unat k)) 0) (buf[unat k := 0])"
    using Suc(1) [of "k + 1" "buf[unat k := 0]"] Suc(2-4) k by simp
  also have "\<dots> = put_at (unat k) (replicate (456 - unat k) 0) buf"
  proof -
    have "456 - unat k = Suc (456 - Suc (unat k))" using less by simp
    moreover have "Suc (unat k + (456 - Suc (unat k))) = Suc (unat k) + (456 - Suc (unat k))" by simp
    ultimately show ?thesis
      using list_put_next(1) [of "unat k" buf 0] list_put_next(2) [of "unat k" buf "456 - Suc (unat k)" 0] less Suc.prems(2)
      by (simp add: put_at_def)
  qed
  finally show ?case .
qed

subsection \<open>The buffer\<close>

text \<open>The margins of the buffer stay low.\<close>

definition pwm_ok :: "u16 list \<Rightarrow> bool" where
  "pwm_ok buf \<longleftrightarrow> length buf = 696 \<and> take 240 buf = replicate 240 0 \<and> drop 456 buf = replicate 240 0"

definition frame_slots :: "nat \<Rightarrow> u8 \<Rightarrow> u8 \<Rightarrow> u8 \<Rightarrow> u16 list" where
  "frame_slots n red green blue =
     replicate 240 0 @ concat (replicate n (pixel_slots red green blue)) @ replicate 240 0"

lemma pwm_ok_blank: "pwm_ok (replicate 696 0)"
  by (simp add: pwm_ok_def)

lemma encode_frame:
  assumes "pwm_ok buf" "p \<le> NEOPIXEL_MAX_PIXEL_COUNT"
  shows "encode_pixels p r g b (buf, 240) =
      (put_at 240 (concat (replicate (unat p) (pixel_slots r g b))) buf, 240 + word_of_nat (unat p * 24))"
    and "unat ((240 :: u32) + word_of_nat (unat p * 24)) = 240 + unat p * 24"
proof -
  have p: "unat p \<le> 9" using assms(2) by (simp add: word_le_nat_alt)
  have "unat ((240 :: u32) + word_of_nat (n * 24)) = 240 + n * 24" if "n \<le> 9" for n
    using that by (simp add: unat_word_ariths unat_of_nat)
  from this [OF p] show "unat ((240 :: u32) + word_of_nat (unat p * 24)) = 240 + unat p * 24" .
  show "encode_pixels p r g b (buf, 240) =
      (put_at 240 (concat (replicate (unat p) (pixel_slots r g b))) buf, 240 + word_of_nat (unat p * 24))"
    using encode_pixels_put [of 240 "unat p" buf g r b] p assms(1)
    by (simp add: encode_pixels_def pwm_ok_def)
qed

lemma drop_exact: "length xs = n \<Longrightarrow> drop n (xs @ ys) = ys"
  by simp

lemma encode_frame_cleared:
  fixes r g b :: u8
  assumes "pwm_ok buf" "p \<le> NEOPIXEL_MAX_PIXEL_COUNT"
    and e_def: "e = (240 + word_of_nat (unat p * 24) :: u32)"
    and data_def: "data = concat (replicate (unat p) (pixel_slots r g b))"
  shows "pwm_ok (clear_slots e (put_at 240 data buf))"
    and "take (unat e + 240) (clear_slots e (put_at 240 data buf)) = frame_slots (unat p) r g b"
proof -
  have p: "unat p \<le> 9" using assms(2) by (simp add: word_le_nat_alt)
  have e: "unat e = 240 + unat p * 24" using encode_frame(2) [OF assms(1,2)] by (simp add: e_def)
  have data: "length data = unat p * 24" by (simp add: data_def)
  have len: "length buf = 696" "take 240 buf = replicate 240 0" "drop 456 buf = replicate 240 0"
    using assms(1) by (simp_all add: pwm_ok_def)
  have pl: "length (put_at 240 data buf) = 696" using p data len by simp
  have "clear_slots e (put_at 240 data buf)
      = put_at (240 + length data) (replicate (456 - unat e) 0) (put_at 240 data buf)"
    using clear_slots_put [of e "put_at 240 data buf"] p e data pl by simp
  also have "\<dots> = put_at 240 (data @ replicate (456 - unat e) 0) buf"
    using p data len by (intro put_at_append) simp
  also have "\<dots> = replicate 240 0 @ data @ replicate (456 - unat e) 0 @ replicate 240 0"
    using p e data len by (simp add: put_at_def)
  finally have res: "clear_slots e (put_at 240 data buf)
      = replicate 240 0 @ data @ replicate (456 - unat e) 0 @ replicate 240 0" .
  let ?z = "replicate (456 - unat e) (0 :: u16)" and ?low = "replicate 240 (0 :: u16)"
  have sum: "length (?low @ data @ ?z) = 456" using p e data by simp
  have res': "clear_slots e (put_at 240 data buf) = (?low @ data @ ?z) @ ?low"
    using res by simp
  show "pwm_ok (clear_slots e (put_at 240 data buf))"
    unfolding pwm_ok_def
  proof (intro conjI)
    show "length (clear_slots e (put_at 240 data buf)) = 696"
      unfolding res' length_append [of _ ?low] sum by simp
    show "take 240 (clear_slots e (put_at 240 data buf)) = ?low" unfolding res by simp
    show "drop 456 (clear_slots e (put_at 240 data buf)) = ?low"
      unfolding res' by (rule drop_exact [OF sum])
  qed
  have len2: "unat e + 240 = length (?low @ data) + 240" using e data by simp
  have "take (unat e + 240) (clear_slots e (put_at 240 data buf)) = (?low @ data) @ take 240 (?z @ ?low)"
    unfolding res len2 by (simp only: append_assoc [symmetric] take_append) simp
  also have "?z @ ?low = ?low @ ?z" by (simp add: replicate_add [symmetric] add.commute)
  also have "take 240 (?low @ ?z) = ?low" by simp
  finally show "take (unat e + 240) (clear_slots e (put_at 240 data buf)) = frame_slots (unat p) r g b"
    by (simp add: frame_slots_def data_def)
qed

subsection \<open>The strip as a receiver\<close>

text \<open>The bounds of the static assertions, in ticks of 84 MHz, rounded to the safe side.\<close>

definition WS2812_TICKS_AT_LEAST :: "nat \<Rightarrow> nat" where
  "WS2812_TICKS_AT_LEAST ns = (ns * (unat WS2812_TIMER_CLOCK_HZ div 1000000) + 999) div 1000"

definition WS2812_TICKS_AT_MOST :: "nat \<Rightarrow> nat" where
  "WS2812_TICKS_AT_MOST ns = ns * (unat WS2812_TIMER_CLOCK_HZ div 1000000) div 1000"

definition in_window :: "nat \<Rightarrow> nat \<Rightarrow> nat \<Rightarrow> bool" where
  "in_window lo hi ticks \<longleftrightarrow> WS2812_TICKS_AT_LEAST lo \<le> ticks \<and> ticks \<le> WS2812_TICKS_AT_MOST hi"

text \<open>A slot is a bit only if both its high and its low time lie in the windows common to the
  WS2811, WS2812 and WS2812B datasheets.\<close>

definition slot_bit :: "u16 \<Rightarrow> bool option" where
  "slot_bit d =
     (let h = unat d; l = (unat WS2812_TIMER_ARR + 1) - h
      in if in_window 650 750 h \<and> in_window 500 600 l then Some True
         else if in_window 250 400 h \<and> in_window 850 950 l then Some False else None)"

fun bytes_of_bits :: "bool list \<Rightarrow> u8 list" where
  "bytes_of_bits (b7 # b6 # b5 # b4 # b3 # b2 # b1 # b0 # bs) =
     horner_sum of_bool 2 [b0, b1, b2, b3, b4, b5, b6, b7] # bytes_of_bits bs"
| "bytes_of_bits _ = []"

definition strip_receive :: "u16 list \<Rightarrow> u8 list option" where
  "strip_receive slots =
     (let data = takeWhile (\<lambda>d. d \<noteq> 0) (dropWhile (\<lambda>d. d = 0) slots)
      in if list_all (\<lambda>d. slot_bit d \<noteq> None) data
         then Some (bytes_of_bits (map (\<lambda>d. the (slot_bit d)) data)) else None)"

lemma slot_bit_of_bit [simp]: "slot_bit (slot_of_bit b) = Some b" "slot_of_bit b \<noteq> 0"
proof -
  have "slot_bit 58 = Some True" "slot_bit 29 = Some False"
    by (simp_all add: slot_bit_def in_window_def WS2812_TICKS_AT_LEAST_def WS2812_TICKS_AT_MOST_def)
  then show "slot_bit (slot_of_bit b) = Some b" by (cases b) (simp_all add: slot_of_bit_def)
  show "slot_of_bit b \<noteq> 0" by (simp add: slot_of_bit_def)
qed

lemma bytes_of_byte_bits: "bytes_of_bits (byte_bits v @ bs) = v # bytes_of_bits bs"
proof -
  have n: "[0..<8] = [0, 1, 2, 3, 4, 5, 6, 7 :: nat]" by (simp add: upt_rec)
  have h: "horner_sum of_bool 2 [bit v 0, bit v 1, bit v 2, bit v 3, bit v 4, bit v 5, bit v 6, bit v 7] = v"
  proof -
    have "horner_sum of_bool 2 (map (bit v) [0..<8]) = take_bit 8 v" by (rule horner_sum_bit_eq_take_bit)
    also have "take_bit 8 v = v" using take_bit_length_eq [of v] by simp
    finally show ?thesis by (simp only: n list.map)
  qed
  have m: "byte_bits v = [bit v 7, bit v 6, bit v 5, bit v 4, bit v 3, bit v 2, bit v 1, bit v 0]"
    by (simp add: byte_bits_def n)
  show ?thesis by (simp only: m append.simps bytes_of_bits.simps h)
qed

definition pixel_bits :: "u8 \<Rightarrow> u8 \<Rightarrow> u8 \<Rightarrow> bool list" where
  "pixel_bits r g b = byte_bits b @ byte_bits r @ byte_bits g"

lemma pixel_slots_bits: "pixel_slots r g b = map slot_of_bit (pixel_bits r g b)"
  by (simp add: pixel_slots_def byte_slots_def pixel_bits_def)

lemma bytes_of_pixels:
  "bytes_of_bits (concat (replicate n (pixel_bits r g b))) = concat (replicate n [b, r, g])"
  by (induction n) (simp_all add: pixel_bits_def bytes_of_byte_bits)

lemma strip_receive_between:
  "strip_receive (replicate m 0 @ concat (replicate n (pixel_slots r g b)) @ replicate (Suc k) 0)
     = Some (concat (replicate n [b, r, g]))"
proof -
  let ?bits = "concat (replicate n (pixel_bits r g b))" and ?low = "replicate (Suc k) (0 :: u16)"
  let ?slots = "replicate m 0 @ concat (replicate n (pixel_slots r g b)) @ ?low"
  have data: "concat (replicate n (pixel_slots r g b)) = map slot_of_bit ?bits"
    by (simp add: pixel_slots_bits map_concat)
  have "dropWhile (\<lambda>d. d = 0) (replicate m 0 @ map slot_of_bit ?bits @ ?low)
      = dropWhile (\<lambda>d. d = 0) (map slot_of_bit ?bits @ ?low)"
    by (rule dropWhile_append2) simp
  moreover have "takeWhile (\<lambda>d. d \<noteq> 0) (dropWhile (\<lambda>d. d = 0) (map slot_of_bit xs @ ?low)) = map slot_of_bit xs" for xs
  proof (cases xs)
    case Nil
    have "dropWhile (\<lambda>d. d = 0) ?low = []" by (simp add: dropWhile_eq_Nil_conv del: replicate_Suc)
    then show ?thesis using Nil by (simp del: replicate_Suc)
  next
    case (Cons x ys)
    then have "dropWhile (\<lambda>d. d = 0) (map slot_of_bit xs @ ?low) = map slot_of_bit xs @ ?low" by simp
    moreover have "takeWhile (\<lambda>d. d \<noteq> 0) (map slot_of_bit xs @ ?low) = map slot_of_bit xs"
      by (subst takeWhile_append2) auto
    ultimately show ?thesis by (simp only:)
  qed
  ultimately have "takeWhile (\<lambda>d. d \<noteq> 0) (dropWhile (\<lambda>d. d = 0) ?slots) = map slot_of_bit ?bits"
    by (simp only: data)
  then show ?thesis
    by (simp add: strip_receive_def list_all_iff comp_def bytes_of_pixels)
qed

text \<open>The preload register delays the duty by one period, and the timer is stopped when the last
  transfer is reported: the periods the wire sees.\<close>

definition wire_periods :: "u16 list \<Rightarrow> u16 list" where
  "wire_periods slots = 0 # butlast slots"

definition low_time_ns :: "nat \<Rightarrow> nat" where
  "low_time_ns periods = periods * (unat WS2812_TIMER_ARR + 1) * 1000 div 84"

lemma replicate_240_snoc: "replicate 240 (0 :: u16) = replicate 239 0 @ [0]"
  using replicate_append_same [of 239 "0 :: u16"] by (simp add: numeral_eq_Suc)

lemma wire_frame:
  "wire_periods (frame_slots n r g b) =
     replicate 241 0 @ concat (replicate n (pixel_slots r g b)) @ replicate 239 0"
proof -
  have "butlast (frame_slots n r g b) = replicate 240 0 @ concat (replicate n (pixel_slots r g b)) @ replicate 239 0"
    unfolding frame_slots_def by (subst (2) replicate_240_snoc) (simp flip: append_assoc)
  moreover have "(0 :: u16) # replicate 240 0 = replicate 241 0"
    using replicate_Suc [of 240 "0 :: u16"] by simp
  ultimately show ?thesis unfolding wire_periods_def by (metis append_Cons)
qed

text \<open>A strip reads the colour back, and both silences are long enough for the strictest datasheet
  (280 us).\<close>

lemma takeWhile_low: "(x :: u16) \<noteq> 0 \<Longrightarrow> takeWhile (\<lambda>d. d = 0) (replicate n 0 @ x # ys) = replicate n 0"
  by (induction n) simp_all

lemma wire_frame_read:
  assumes w_def: "w = wire_periods (frame_slots n r g b)"
    and "n \<noteq> 0"
  shows "strip_receive w = Some (concat (replicate n [b, r, g]))"
    "length (takeWhile (\<lambda>d. d = 0) w) = 241" "length (takeWhile (\<lambda>d. d = 0) (rev w)) = 239"
proof -
  let ?bits = "concat (replicate n (pixel_bits r g b))"
  have w: "w = replicate 241 0 @ map slot_of_bit ?bits @ replicate 239 0"
    by (simp add: w_def wire_frame pixel_slots_bits map_concat)
  have "(239 :: nat) = Suc 238" by simp
  then show "strip_receive w = Some (concat (replicate n [b, r, g]))"
    unfolding w_def wire_frame by (simp only: strip_receive_between)
  have "?bits \<noteq> []" using assms(2) by (cases n) (simp_all add: pixel_bits_def byte_bits_def)
  then obtain x ys z zs where cut: "?bits = x # ys" "rev ?bits = z # zs"
    by (metis list.exhaust rev_is_Nil_conv)
  show "length (takeWhile (\<lambda>d. d = 0) w) = 241"
    unfolding w cut(1) by (simp add: takeWhile_low)
  have "rev w = replicate 239 0 @ map slot_of_bit (z # zs) @ replicate 241 0"
    unfolding w cut(2) [symmetric] by (simp add: rev_map)
  then show "length (takeWhile (\<lambda>d. d = 0) (rev w)) = 239" by (simp add: takeWhile_low)
qed

end
