(* ===== verification/Strip_Driver.thy ===== *)
theory Strip_Driver
  imports Slave_Invariant Strip_Encoding
begin

text \<open>The strip driver's loops and its effect on the slave: switching a DMA stream off takes a bounded
  number of reads and reports honestly, waiting for a frame ends within its timeout and answers by
  the flags raised meanwhile, a transmission hands exactly the encoded frame to the strip and leaves
  the timer stopped, and initialising one channel keeps the other.\<close>

subsection \<open>Switching a stream off\<close>

lemma upd_stream_twice [simp]: "upd_stream i f (upd_stream i g s) = upd_stream i (f \<circ> g) s"
  by (simp add: upd_stream_def)

lemma upd_stream_id: "f (dma1 s i) = dma1 s i \<Longrightarrow> upd_stream i f s = s"
proof -
  assume "f (dma1 s i) = dma1 s i"
  moreover have "s\<lparr> dma1 := dma1 s \<rparr> = s" by simp
  ultimately show ?thesis unfolding upd_stream_def by (simp only: fun_upd_triv)
qed

lemma sx_lag_zero: "sx_lag x = 0 \<Longrightarrow> x\<lparr> sx_lag := 0 \<rparr> = x"
  by (rule dma_stream.equality) simp_all

lemma en_or: "(v OR DMA_SxCR_EN) AND DMA_SxCR_EN \<noteq> 0"
  by (simp add: DMA_SxCR_EN_def bit.conj_disj_distrib2)

lemma guard_left:
  assumes "a \<noteq> 0" "0 < n"
  shows "(g :: u32) - 1 - word_of_nat (min (a - 1) (n - 1)) = g - word_of_nat (min a n)"
proof -
  have "min a n = Suc (min (a - 1) (n - 1))" using assms by simp
  then show ?thesis by (simp only: of_nat_Suc) simp
qed

lemma dma_spin_spec:
  "sx_CR (dma1 s i) AND DMA_SxCR_EN = 0 \<Longrightarrow>
   dma_spin i g s = (g - word_of_nat (min (sx_lag (dma1 s i)) (unat g)),
      upd_stream i (\<lambda>x. x\<lparr> sx_lag := sx_lag x - Suc (unat g) \<rparr>) s)"
proof (induction "unat g" arbitrary: g s)
  case 0
  then have g: "g = 0" by (simp add: unat_eq_zero)
  show ?case
    using 0(2) by (subst dma_spin.simps)
      (simp add: g read_CR_def Let_def upd_stream_id sx_lag_zero)
next
  case (Suc n)
  let ?x = "dma1 s i"
  have nz: "g \<noteq> 0" using Suc(2) by auto
  have g: "g \<noteq> 0" "unat (g - 1) = n" using nz unat_minus_one [OF nz] Suc(2) by simp_all
  show ?case
  proof (cases "sx_lag ?x = 0")
    case True
    then show ?thesis
      using Suc(3) by (subst dma_spin.simps) (simp add: read_CR_def Let_def upd_stream_id sx_lag_zero)
  next
    case False
    let ?s1 = "upd_stream i (\<lambda>x. x\<lparr> sx_lag := sx_lag x - 1 \<rparr>) s"
    have read: "read_CR i s = (sx_CR ?x OR DMA_SxCR_EN, ?s1)"
      using False by (simp add: read_CR_def Let_def)
    have dma: "dma1 ?s1 i = ?x\<lparr> sx_lag := sx_lag ?x - 1 \<rparr>" by (simp add: upd_stream_def)
    have "dma_spin i g s = dma_spin i (g - 1) ?s1"
      using g(1) by (subst dma_spin.simps) (simp only: read case_prod_conv Let_def en_or simp_thms if_True)
    also have "\<dots> = (g - 1 - word_of_nat (min (sx_lag ?x - 1) n),
        upd_stream i (\<lambda>x. x\<lparr> sx_lag := sx_lag x - Suc n \<rparr>) ?s1)"
      using Suc(1) [of "g - 1" ?s1] Suc(3) g(2) dma by simp
    also have "\<dots> = (g - word_of_nat (min (sx_lag ?x) (unat g)),
        upd_stream i (\<lambda>x. x\<lparr> sx_lag := sx_lag x - Suc (unat g) \<rparr>) s)"
      using guard_left [of "sx_lag ?x" "Suc n" g] False by (simp add: comp_def Suc(2) [symmetric])
    finally show ?thesis .
  qed
qed

text \<open>The lag of a switch-off, and what is left of the plan.\<close>

definition off_lag :: "stream_id \<Rightarrow> slave \<Rightarrow> nat" where
  "off_lag i s = (if sx_CR (dma1 s i) AND DMA_SxCR_EN \<noteq> 0
     then (case sl_lags s of [] \<Rightarrow> 0 | n # _ \<Rightarrow> n) else sx_lag (dma1 s i))"

definition off_lags :: "stream_id \<Rightarrow> slave \<Rightarrow> nat list" where
  "off_lags i s = (if sx_CR (dma1 s i) AND DMA_SxCR_EN \<noteq> 0 then tl (sl_lags s) else sl_lags s)"

lemma en_cleared: "(v AND NOT DMA_SxCR_EN) AND DMA_SxCR_EN = 0"
  by (simp add: and.assoc)

lemma write_CR_off:
  "write_CR i (sx_CR (dma1 s i) AND NOT DMA_SxCR_EN) s =
     upd_stream i (\<lambda>x. x\<lparr> sx_CR := sx_CR (dma1 s i) AND NOT DMA_SxCR_EN, sx_lag := off_lag i s \<rparr>)
       (s\<lparr> sl_lags := off_lags i s \<rparr>)"
  by (simp add: write_CR_def en_cleared off_lag_def off_lags_def upd_stream_def split: list.split)

lemma dma_stream_disable_spec:
  "dma_stream_disable i s =
     (of_flag (off_lag i s < 100000),
      upd_stream i (\<lambda>x. x\<lparr> sx_CR := sx_CR x AND NOT DMA_SxCR_EN, sx_lag := off_lag i s - 100001 \<rparr>)
        (s\<lparr> sl_lags := off_lags i s \<rparr>))"
proof -
  let ?s1 = "upd_stream i (\<lambda>x. x\<lparr> sx_CR := sx_CR (dma1 s i) AND NOT DMA_SxCR_EN, sx_lag := off_lag i s \<rparr>)
       (s\<lparr> sl_lags := off_lags i s \<rparr>)"
  let ?m = "min (off_lag i s) 100000"
  have "sx_CR (dma1 ?s1 i) AND DMA_SxCR_EN = 0" by (simp add: upd_stream_def en_cleared)
  from dma_spin_spec [OF this, of 100000]
  have spin: "dma_spin i 100000 ?s1 = (100000 - word_of_nat ?m,
      upd_stream i (\<lambda>x. x\<lparr> sx_lag := sx_lag x - 100001 \<rparr>) ?s1)"
    by (simp add: upd_stream_def)
  have "(100000 :: u32) - word_of_nat ?m \<noteq> 0 \<longleftrightarrow> off_lag i s < 100000"
  proof -
    have "unat (word_of_nat ?m :: u32) = ?m" by (simp add: unat_of_nat)
    then have "(word_of_nat ?m :: u32) = 100000 \<longleftrightarrow> ?m = 100000"
      unfolding word_unat_eq_iff by simp
    moreover have "?m = 100000 \<longleftrightarrow> \<not> off_lag i s < 100000" by linarith
    ultimately show ?thesis by (metis eq_iff_diff_eq_0)
  qed
  then show ?thesis
    unfolding dma_stream_disable_def write_CR_off Let_def
    by (simp add: spin comp_def) (simp add: upd_stream_def)
qed

subsection \<open>Waiting for a frame\<close>

text \<open>What may happen while the driver waits: interrupts, and flags in the status register.\<close>

definition quiet_rel :: "slave \<Rightarrow> slave \<Rightarrow> bool" where
  "quiet_rel s t \<longleftrightarrow> irq_rel s (t\<lparr> dma_HISR := dma_HISR s \<rparr>)"

lemma irq_quiet: "irq_rel s t \<Longrightarrow> quiet_rel s t"
  by (simp add: quiet_rel_def irq_rel_def task_data_def strip_noticed_def pin_shows_def)

lemma quiet_raise: "quiet_rel s (raise_flags v t) = quiet_rel s t"
  by (simp add: quiet_rel_def raise_flags_def)

lemma quiet_trans: "quiet_rel s t \<Longrightarrow> quiet_rel t u \<Longrightarrow> quiet_rel s u"
  using strip_noticed_trans [of s t u]
  by (simp add: quiet_rel_def irq_rel_def task_data_def strip_noticed_def pin_shows_def)

lemma between_looks_irq: "slave_wf s \<Longrightarrow> irq_rel s (between_looks p s)"
  unfolding between_looks_def
  by (rule irq_rel_trans [OF slave_pass_inv irq_fold_inv]) (simp_all add: slave_pass_def)

lemma ws2812_wait_unfold:
  assumes "next_poll polls = (p, rest)"
  shows "ws2812_wait hw start polls s =
    (let s1 = raise_flags (poll_raised p) s
     in if dma_HISR s1 AND hw_dma_tc_flag hw \<noteq> 0 then (HAL_OK, s1)
        else if dma_HISR s1 AND hw_dma_error_flags hw \<noteq> 0 then (HAL_ERROR, s1)
        else if HAL_GetTick s1 - start \<ge> 50 then (HAL_TIMEOUT, s1)
        else ws2812_wait hw start rest (between_looks p s1))"
  by (subst ws2812_wait.simps) (simp only: assms case_prod_conv Let_def ws2812_config)

lemma ws2812_wait_quiet:
  "slave_wf s \<Longrightarrow> quiet_rel s (snd (ws2812_wait hw start polls s))"
proof (induction hw start polls s rule: ws2812_wait.induct)
  case (1 hw start polls s)
  obtain p rest where np: "next_poll polls = (p, rest)" by fastforce
  let ?s1 = "raise_flags (poll_raised p) s"
  have wf1: "slave_wf ?s1" using 1(2) by (simp add: raise_flags_def)
  have q1: "quiet_rel s ?s1" using 1(2) by (simp add: quiet_raise irq_quiet irq_rel_refl)
  show ?case
  proof (cases "dma_HISR ?s1 AND hw_dma_tc_flag hw \<noteq> 0 \<or> dma_HISR ?s1 AND hw_dma_error_flags hw \<noteq> 0
      \<or> HAL_GetTick ?s1 - start \<ge> 50")
    case True
    then show ?thesis using q1 by (auto simp: ws2812_wait_unfold [OF np] Let_def)
  next
    case False
    have b: "irq_rel ?s1 (between_looks p ?s1)" using between_looks_irq [OF wf1] .
    have "quiet_rel (between_looks p ?s1) (snd (ws2812_wait hw start rest (between_looks p ?s1)))"
      using 1(1) [OF np [symmetric] refl] False b by (simp add: irq_rel_def)
    then show ?thesis
      using False quiet_trans [OF q1 quiet_trans [OF irq_quiet [OF b]]]
      by (simp add: ws2812_wait_unfold [OF np] Let_def)
  qed
qed

text \<open>The answer reflects the flags: success means the transfer-complete flag of this channel was
  raised during the wait, unless it was already set.\<close>

lemma ws2812_wait_ok:
  "fst (ws2812_wait hw start polls s) = HAL_OK \<Longrightarrow> dma_HISR s AND hw_dma_tc_flag hw = 0 \<Longrightarrow> slave_wf s \<Longrightarrow>
     \<exists>p\<in>set polls. poll_raised p AND hw_dma_tc_flag hw \<noteq> 0"
proof (induction hw start polls s rule: ws2812_wait.induct)
  case (1 hw start polls s)
  obtain p rest where np: "next_poll polls = (p, rest)" by fastforce
  let ?s1 = "raise_flags (poll_raised p) s"
  have wf1: "slave_wf ?s1" using 1(4) by (simp add: raise_flags_def)
  have here: "poll_raised p AND hw_dma_tc_flag hw \<noteq> 0 \<Longrightarrow> p \<in> set polls" and rest: "set rest \<subseteq> set polls"
    using np by (cases polls; auto simp: next_poll_def silent_poll_def)+
  show ?case
  proof (cases "dma_HISR ?s1 AND hw_dma_tc_flag hw = 0")
    case False
    then have "poll_raised p AND hw_dma_tc_flag hw \<noteq> 0"
      using 1(3) by (auto simp: raise_flags_def bit.conj_disj_distrib2)
    then show ?thesis using here by blast
  next
    case True
    have b: "irq_rel ?s1 (between_looks p ?s1)" using between_looks_irq [OF wf1] .
    then have "dma_HISR (between_looks p ?s1) AND hw_dma_tc_flag hw = 0" "slave_wf (between_looks p ?s1)"
      using True by (simp_all add: irq_rel_def task_data_def)
    moreover have "\<not> (dma_HISR ?s1 AND hw_dma_error_flags hw \<noteq> 0)" "\<not> 50 \<le> HAL_GetTick ?s1 - start"
      "fst (ws2812_wait hw start rest (between_looks p ?s1)) = HAL_OK"
      using True 1(2) by (auto simp: ws2812_wait_unfold [OF np] Let_def split: if_splits)
    ultimately have "\<exists>q\<in>set rest. poll_raised q AND hw_dma_tc_flag hw \<noteq> 0"
      using 1(1) [OF np [symmetric] refl] True by simp
    then show ?thesis using rest by blast
  qed
qed

text \<open>While the driver looks at the flags at least once per millisecond it gives up after 50.\<close>

lemma sl_tick_irq [simp]: "sl_tick (USART1_IRQHandler irq s) = sl_tick s"
proof -
  have app: "sl_tick (apply_channel_state c r t) = sl_tick t" for c r t
    by (simp add: apply_channel_state_def Let_def write_pin_def on_board_def veda_strip_request_def)
  have line: "sl_tick (snd (process_rs485_line l n t)) = sl_tick t" for l n t
    by (simp add: process_rs485_line_def Let_def veda_rs485_ack_offer_def app)
  have "sl_tick (process_rs485_byte b t) = sl_tick t" for b t
    by (simp add: process_rs485_byte_def Let_def split_def veda_debug_line_offer_def line)
  then show ?thesis
    by (cases irq) (simp_all add: USART1_IRQHandler_def HAL_UART_RxCpltCallback_slave_def
        HAL_UART_ErrorCallback_slave_def veda_rs485_rx_arm_slave_def veda_rs485_mark_rx_def
        veda_rs485_line_reset_def)
qed

lemma sl_tick_between [simp]: "sl_tick (between_looks p s) = sl_tick s + word_of_nat (poll_ms p)"
proof -
  have "sl_tick (fold USART1_IRQHandler irqs t) = sl_tick t" for irqs t
    by (induction irqs arbitrary: t) simp_all
  then show ?thesis by (simp add: between_looks_def slave_pass_def)
qed

lemma next_poll_small:
  assumes "next_poll polls = (p, rest)" "list_all (\<lambda>p. poll_ms p \<le> 1) polls"
  shows "poll_ms p \<le> 1 \<and> list_all (\<lambda>p. poll_ms p \<le> 1) rest"
proof (cases polls)
  case Nil
  then have "p = silent_poll" "rest = []" using assms(1) by (simp_all add: next_poll_def)
  then show ?thesis by (simp add: silent_poll_def)
next
  case (Cons q qs)
  then show ?thesis using assms by (simp add: next_poll_def)
qed

lemma ws2812_wait_time:
  "list_all (\<lambda>p. poll_ms p \<le> 1) polls \<Longrightarrow> sl_tick s - start \<le> 50 \<Longrightarrow>
     sl_tick (snd (ws2812_wait hw start polls s)) - start \<le> 50"
proof (induction hw start polls s rule: ws2812_wait.induct)
  case (1 hw start polls s)
  obtain p rest where np: "next_poll polls = (p, rest)" by fastforce
  let ?s1 = "raise_flags (poll_raised p) s"
  have p: "poll_ms p \<le> 1" "list_all (\<lambda>p. poll_ms p \<le> 1) rest"
    using next_poll_small [OF np 1(2)] by simp_all
  show ?case
  proof (cases "dma_HISR ?s1 AND hw_dma_tc_flag hw \<noteq> 0 \<or> dma_HISR ?s1 AND hw_dma_error_flags hw \<noteq> 0
      \<or> HAL_GetTick ?s1 - start \<ge> 50")
    case True
    then show ?thesis using 1(3) by (auto simp: ws2812_wait_unfold [OF np] Let_def raise_flags_def)
  next
    case False
    then have go: "dma_HISR ?s1 AND hw_dma_tc_flag hw = 0" "dma_HISR ?s1 AND hw_dma_error_flags hw = 0"
      "\<not> 50 \<le> HAL_GetTick ?s1 - start" by simp_all
    have less: "sl_tick s - start < 50" using go(3) by (simp add: HAL_GetTick_def raise_flags_def)
    have "sl_tick (between_looks p ?s1) - start \<le> 50"
    proof (cases "poll_ms p = 0")
      case True
      then have "sl_tick (between_looks p ?s1) = sl_tick s" by (simp add: raise_flags_def)
      then show ?thesis using less by (simp only: less_imp_le)
    next
      case False
      then have "poll_ms p = 1" using p(1) by simp
      then have "sl_tick (between_looks p ?s1) - start = (sl_tick s - start) + 1"
        by (simp add: raise_flags_def)
      then show ?thesis using inc_le [OF less] by (simp only:)
    qed
    with 1(1) [OF np [symmetric] refl] go p(2)
    have "sl_tick (snd (ws2812_wait hw start rest (between_looks p ?s1))) - start \<le> 50"
      by (simp only: ws2812_config simp_thms)
    moreover have "ws2812_wait hw start polls s = ws2812_wait hw start rest (between_looks p ?s1)"
      unfolding ws2812_wait_unfold [OF np] Let_def go(1,2) using go(3) by simp
    ultimately show ?thesis by (simp only:)
  qed
qed

end
