(* ===== verification/Strip_Show.thy ===== *)
theory Strip_Show
  imports Strip_Driver
begin

text \<open>One transmission and one colour: what the driver leaves behind, what it hands to the strip and
  when it says that it worked.\<close>

subsection \<open>What driver calls keep\<close>

definition tim_mode :: "tim_regs \<Rightarrow> u32 \<times> u32 \<times> u32" where
  "tim_mode t = (tim_ARR t, tim_CCMR1 t, tim_CCER t)"

definition drv_rel :: "slave \<Rightarrow> slave \<Rightarrow> bool" where
  "drv_rel s t \<longleftrightarrow> slave_wf t \<and> my_slave_id t = my_slave_id s \<and> rx_armed t = rx_armed s
     \<and> strip_noticed s t \<and> (strip_shown_risk t, loop_count t, loop_report_msec t, pin_shows t RS485_DE)
         = (strip_shown_risk s, loop_count s, loop_report_msec s, pin_shows s RS485_DE)
     \<and> (channel_ready t, pwm_data t, tim_mode (tim3 t)) = (channel_ready s, pwm_data s, tim_mode (tim3 s))"

lemma quiet_drv: "quiet_rel s t \<Longrightarrow> drv_rel s t"
  by (simp add: quiet_rel_def drv_rel_def irq_rel_def task_data_def strip_noticed_def pin_shows_def)

lemma irq_drv: "irq_rel s t \<Longrightarrow> drv_rel s t"
  by (simp add: quiet_drv irq_quiet)

lemma drv_refl: "slave_wf s \<Longrightarrow> drv_rel s s"
  by (simp add: drv_rel_def)

lemma drv_trans: "drv_rel s t \<Longrightarrow> drv_rel t u \<Longrightarrow> drv_rel s u"
  by (auto simp: drv_rel_def elim: strip_noticed_trans)

lemma drv_upd [simp]:
  "tim_mode r = tim_mode (tim3 t) \<Longrightarrow> drv_rel s (t\<lparr> tim3 := r \<rparr>) = drv_rel s t"
  "drv_rel s (t\<lparr> dma1 := d \<rparr>) = drv_rel s t" "drv_rel s (t\<lparr> dma_HISR := h \<rparr>) = drv_rel s t"
  "drv_rel s (t\<lparr> sl_polls := pp \<rparr>) = drv_rel s t" "drv_rel s (t\<lparr> sl_lags := ll \<rparr>) = drv_rel s t"
  "drv_rel s (t\<lparr> sl_out := oo \<rparr>) = drv_rel s t"
  by (simp_all add: drv_rel_def strip_noticed_def pin_shows_def)

lemma drv_disable: "slave_wf s \<Longrightarrow> drv_rel s (snd (dma_stream_disable i s))"
  by (simp add: dma_stream_disable_spec upd_stream_def drv_refl)

subsection \<open>Starting and stopping\<close>

definition start_tim :: "neopixel_hw_t \<Rightarrow> tim_regs \<Rightarrow> tim_regs" where
  "start_tim hw t =
     (let t1 = t\<lparr> tim_CR1 := tim_CR1 t AND NOT TIM_CR1_CEN, tim_DIER := 0, tim_CNT := 0 \<rparr>;
          t2 = (write_EGR TIM_EGR_UG (set_ccr (hw_ccr hw) 0 t1))\<lparr> tim_SR := 0 \<rparr>
      in t2\<lparr> tim_DIER := hw_dier_dma hw, tim_CR1 := tim_CR1 t2 OR TIM_CR1_CEN \<rparr>)"

definition start_stream :: "neopixel_hw_t \<Rightarrow> u32 \<Rightarrow> dma_stream \<Rightarrow> dma_stream" where
  "start_stream hw n x = x\<lparr> sx_PAR := Addr_CCR (hw_ccr hw), sx_M0AR := Addr_pwm_data, sx_NDTR := n,
     sx_FCR := 0, sx_CR := hw_dma_chsel hw OR DMA_SxCR_DIR_0 OR DMA_SxCR_MINC OR DMA_SxCR_PSIZE_0
       OR DMA_SxCR_MSIZE_0 OR DMA_SxCR_PL_1 OR DMA_SxCR_EN \<rparr>"

lemma write_CR_idle:
  "sx_CR (dma1 s i) AND DMA_SxCR_EN = 0 \<Longrightarrow> write_CR i v s = upd_stream i (\<lambda>x. x\<lparr> sx_CR := v \<rparr>) s"
  by (simp add: write_CR_def)

lemma dma1_upd_stream [simp]: "dma1 (upd_stream i f s) i = f (dma1 s i)"
  by (simp add: upd_stream_def)

lemma chsel_idle: "(hw_dma_chsel (neopixel_hw c) OR DMA_SxCR_DIR_0 OR DMA_SxCR_MINC OR DMA_SxCR_PSIZE_0
    OR DMA_SxCR_MSIZE_0 OR DMA_SxCR_PL_1) AND DMA_SxCR_EN = 0"
  by (cases c) (simp_all add: neopixel_hw_def reg_bits)

lemma ws2812_start_eq:
  assumes "sx_CR (dma1 s (hw_stream hw)) AND DMA_SxCR_EN = 0" "hw = neopixel_hw c"
  shows "ws2812_start hw n s =
    s\<lparr> tim3 := start_tim hw (tim3 s), dma_HISR := dma_HISR s AND NOT (hw_dma_clear_flags hw),
       dma1 := (dma1 s)(hw_stream hw := start_stream hw n (dma1 s (hw_stream hw))) \<rparr>"
proof -
  let ?i = "hw_stream hw"
  let ?v = "hw_dma_chsel hw OR DMA_SxCR_DIR_0 OR DMA_SxCR_MINC OR DMA_SxCR_PSIZE_0
    OR DMA_SxCR_MSIZE_0 OR DMA_SxCR_PL_1"
  define s4 where "s4 = s\<lparr> tim3 := (write_EGR TIM_EGR_UG (set_ccr (hw_ccr hw) 0
         ((tim3 s)\<lparr> tim_CR1 := tim_CR1 (tim3 s) AND NOT TIM_CR1_CEN, tim_DIER := 0, tim_CNT := 0 \<rparr>)))\<lparr> tim_SR := 0 \<rparr>,
       dma_HISR := dma_HISR s AND NOT (hw_dma_clear_flags hw),
       dma1 := (dma1 s)(?i := (dma1 s ?i)\<lparr> sx_PAR := Addr_CCR (hw_ccr hw), sx_M0AR := Addr_pwm_data,
         sx_NDTR := n, sx_FCR := 0 \<rparr>) \<rparr>"
  have idle4: "sx_CR (dma1 s4 ?i) AND DMA_SxCR_EN = 0" using assms(1) by (simp add: s4_def)
  have idle5: "sx_CR (dma1 (upd_stream ?i (\<lambda>x. x\<lparr> sx_CR := ?v \<rparr>) s4) ?i) AND DMA_SxCR_EN = 0"
    unfolding dma1_upd_stream assms(2) using chsel_idle [of c] by simp
  have "ws2812_start hw n s = upd_tim (\<lambda>t. t\<lparr> tim_DIER := hw_dier_dma hw, tim_CR1 := tim_CR1 t OR TIM_CR1_CEN \<rparr>)
      (upd_stream ?i (\<lambda>x. x\<lparr> sx_CR := ?v OR DMA_SxCR_EN \<rparr>) (upd_stream ?i (\<lambda>x. x\<lparr> sx_CR := ?v \<rparr>) s4))"
    using write_CR_idle [OF idle4, of ?v] write_CR_idle [OF idle5, of "?v OR DMA_SxCR_EN"]
    unfolding ws2812_start_def Let_def
    by (simp add: s4_def upd_tim_def write_HIFCR_def upd_stream_def)
  also have "\<dots> = s\<lparr> tim3 := start_tim hw (tim3 s), dma_HISR := dma_HISR s AND NOT (hw_dma_clear_flags hw),
       dma1 := (dma1 s)(?i := start_stream hw n (dma1 s ?i)) \<rparr>"
    by (simp add: upd_tim_def upd_stream_def s4_def start_tim_def start_stream_def Let_def or.assoc)
  finally show ?thesis .
qed

lemma set_ccr_fields [simp]:
  "tim_CR1 (set_ccr r v t) = tim_CR1 t" "tim_DIER (set_ccr r v t) = tim_DIER t"
  "tim_ARR (set_ccr r v t) = tim_ARR t" "tim_CCMR1 (set_ccr r v t) = tim_CCMR1 t"
  "tim_CCER (set_ccr r v t) = tim_CCER t" "get_ccr r (set_ccr r v t) = v"
  by (cases r; simp add: set_ccr_def get_ccr_def)+

lemma write_EGR_fields [simp]:
  "tim_CR1 (write_EGR v t) = tim_CR1 t" "tim_DIER (write_EGR v t) = tim_DIER t"
  "tim_ARR (write_EGR v t) = tim_ARR t" "tim_CCMR1 (write_EGR v t) = tim_CCMR1 t"
  "tim_CCER (write_EGR v t) = tim_CCER t" "get_ccr r (write_EGR v t) = get_ccr r t"
  by (cases r; simp add: write_EGR_def get_ccr_def)+

lemma start_tim_fields:
  "tim_DIER (start_tim hw t) = hw_dier_dma hw" "tim_CR1 (start_tim hw t) AND TIM_CR1_CEN \<noteq> 0"
  "tim_mode (start_tim hw t) = tim_mode t"
  by (simp_all add: start_tim_def Let_def tim_mode_def TIM_CR1_CEN_def bit.conj_disj_distrib2)

text \<open>The timer and the pin are set up for a channel.\<close>

definition tim_ready :: "neopixel_channel_t \<Rightarrow> tim_regs \<Rightarrow> bool" where
  "tim_ready c t \<longleftrightarrow> tim_ARR t = 104
     \<and> tim_CCMR1 t AND hw_ccmr_pwm_bits (neopixel_hw c) = hw_ccmr_pwm_bits (neopixel_hw c)
     \<and> tim_CCER t AND hw_ccer_enable (neopixel_hw c) = hw_ccer_enable (neopixel_hw c)"

lemma tim_ready_mode: "tim_mode t = tim_mode u \<Longrightarrow> tim_ready c t = tim_ready c u"
  by (simp add: tim_ready_def tim_mode_def)

lemma on_wire_start:
  assumes "sx_CR (dma1 s (hw_stream hw)) AND DMA_SxCR_EN = 0" "hw = neopixel_hw c" "tim_ready c (tim3 s)"
  shows "on_wire hw (ws2812_start hw n s) = take (unat n) (pwm_data s)"
proof -
  have mode: "tim_ready c (start_tim hw (tim3 s))"
    using tim_ready_mode [OF start_tim_fields(3), of c hw "tim3 s"] assms(3) by simp
  then show ?thesis
    unfolding ws2812_start_eq [OF assms(1,2)] on_wire_def Let_def
    using start_tim_fields(1,2) [of hw "tim3 s"] assms(2)
    by (simp add: tim_ready_def start_stream_def)
qed

text \<open>A stopped timer: no requests, no counting, duty zero, so the pin stays low.\<close>

definition tim_stopped :: "neopixel_hw_t \<Rightarrow> tim_regs \<Rightarrow> bool" where
  "tim_stopped hw t \<longleftrightarrow> tim_DIER t = 0 \<and> tim_CR1 t AND TIM_CR1_CEN = 0 \<and> get_ccr (hw_ccr hw) t = 0"

lemma ws2812_stop_eq:
  "ws2812_stop hw s = s\<lparr> tim3 := tim3 (ws2812_stop hw s) \<rparr>"
  "tim_stopped hw (tim3 (ws2812_stop hw s))" "tim_mode (tim3 (ws2812_stop hw s)) = tim_mode (tim3 s)"
  by (simp_all add: ws2812_stop_def upd_tim_def tim_stopped_def tim_mode_def and.assoc)

subsection \<open>One transmission\<close>

lemma hw_strip_neopixel_hw [simp]: "hw_strip (neopixel_hw c) = c"
  by (cases c) (simp_all add: hw_strip_def neopixel_hw_def)

lemma clear_covers_tc: "(h AND NOT (hw_dma_clear_flags (neopixel_hw c))) AND hw_dma_tc_flag (neopixel_hw c) = 0"
proof -
  have "NOT (hw_dma_clear_flags (neopixel_hw c)) AND hw_dma_tc_flag (neopixel_hw c) = 0"
    by (cases c) (simp_all add: neopixel_hw_def)
  then show ?thesis by (simp add: and.assoc)
qed

lemma sl_out_wait:
  assumes "slave_wf s"
  shows "sl_out (snd (ws2812_wait hw start polls s)) = sl_out s"
    "tim3 (snd (ws2812_wait hw start polls s)) = tim3 s"
  using ws2812_wait_quiet [OF assms, of hw start polls]
  by (simp_all add: quiet_rel_def irq_rel_def task_data_def)

lemma next_frame_polls_eq:
  "next_frame_polls s = (fst (next_frame_polls s), s\<lparr> sl_polls := sl_polls (snd (next_frame_polls s)) \<rparr>)"
  by (simp add: next_frame_polls_def split: list.split)

text \<open>The wait inside a transmission, for the properties below.\<close>

definition transmit_wait :: "neopixel_hw_t \<Rightarrow> u32 \<Rightarrow> slave \<Rightarrow> hal_status \<times> slave" where
  "transmit_wait hw n s =
     (let s2 = ws2812_start hw n (snd (dma_stream_disable (hw_stream hw) s));
          (polls, s3) = next_frame_polls s2
      in ws2812_wait hw (HAL_GetTick s3) polls s3)"

definition transmit_status :: "neopixel_hw_t \<Rightarrow> u32 \<Rightarrow> slave \<Rightarrow> hal_status" where
  "transmit_status hw n s =
     (if off_lag (hw_stream hw) (ws2812_stop hw (snd (transmit_wait hw n s))) < 100000
      then fst (transmit_wait hw n s) else HAL_ERROR)"

lemma ws2812_transmit_unfold:
  "ws2812_transmit hw n s =
    (if off_lag (hw_stream hw) s < 100000 then
       (let s2 = ws2812_start hw n (snd (dma_stream_disable (hw_stream hw) s));
            s6 = snd (dma_stream_disable (hw_stream hw) (ws2812_stop hw (snd (transmit_wait hw n s))))
        in (transmit_status hw n s,
            slave_emit (strip_trace (fst (transmit_wait hw n s)) (hw_strip hw) (on_wire hw s2) (transmit_status hw n s))
              (write_HIFCR (hw_dma_clear_flags hw) s6)))
     else (HAL_ERROR, snd (dma_stream_disable (hw_stream hw) s)))"
  unfolding ws2812_transmit_def transmit_status_def transmit_wait_def Let_def split_def
  by (simp add: dma_stream_disable_spec)

lemma disable_off: "sx_CR (dma1 (snd (dma_stream_disable i s)) i) AND DMA_SxCR_EN = 0"
  by (simp add: dma_stream_disable_spec en_cleared)

lemma disable_fields [simp]:
  "tim3 (snd (dma_stream_disable i s)) = tim3 s" "pwm_data (snd (dma_stream_disable i s)) = pwm_data s"
  "sl_out (snd (dma_stream_disable i s)) = sl_out s" "sl_polls (snd (dma_stream_disable i s)) = sl_polls s"
  "slave_wf (snd (dma_stream_disable i s)) = slave_wf s" "sl_tick (snd (dma_stream_disable i s)) = sl_tick s"
  "my_slave_id (snd (dma_stream_disable i s)) = my_slave_id s"
  "channel_ready (snd (dma_stream_disable i s)) = channel_ready s"
  "sl_board (snd (dma_stream_disable i s)) = sl_board s"
  by (simp_all add: dma_stream_disable_spec upd_stream_def)

text \<open>The state in which the wait begins.\<close>

lemma transmit_wait_start:
  assumes "slave_wf s" "hw = neopixel_hw c"
  obtains s3 where "transmit_wait hw n s = ws2812_wait hw (sl_tick s3) (fst (next_frame_polls s)) s3"
    "drv_rel s s3" "dma_HISR s3 AND hw_dma_tc_flag hw = 0" "sl_out s3 = sl_out s" "sl_tick s3 = sl_tick s"
    "ws2812_start hw n (snd (dma_stream_disable (hw_stream hw) s)) = s3\<lparr> sl_polls := sl_polls s \<rparr>"
proof -
  let ?s1 = "snd (dma_stream_disable (hw_stream hw) s)"
  let ?s2 = "ws2812_start hw n ?s1"
  note eq = ws2812_start_eq [OF disable_off [where s = s] assms(2), of n]
  have d: "drv_rel s ?s2"
    unfolding eq using drv_disable [OF assms(1)] start_tim_fields(3) by simp
  have polls: "fst (next_frame_polls ?s2) = fst (next_frame_polls s)"
    by (simp add: eq next_frame_polls_def split: list.split)
  have p: "sl_polls ?s2 = sl_polls s" by (simp add: eq)
  let ?s3 = "?s2\<lparr> sl_polls := sl_polls (snd (next_frame_polls ?s2)) \<rparr>"
  show ?thesis
  proof (rule that [of ?s3])
    show "transmit_wait hw n s = ws2812_wait hw (sl_tick ?s3) (fst (next_frame_polls s)) ?s3"
      unfolding transmit_wait_def Let_def HAL_GetTick_def
      by (subst next_frame_polls_eq) (simp add: polls)
    show "drv_rel s ?s3" using d by simp
    show "dma_HISR ?s3 AND hw_dma_tc_flag hw = 0" 
      using clear_covers_tc [of "dma_HISR (snd (dma_stream_disable (hw_stream hw) s))" c]
      by (simp add: eq flip: assms(2))
    show "sl_out ?s3 = sl_out s" "sl_tick ?s3 = sl_tick s" by (simp_all add: eq)
    show "ws2812_start hw n ?s1 = ?s3\<lparr> sl_polls := sl_polls s \<rparr>" using p by simp
  qed
qed

lemma transmit_wait_drv:
  assumes "slave_wf s" "hw = neopixel_hw c"
  shows "drv_rel s (snd (transmit_wait hw n s))" "sl_out (snd (transmit_wait hw n s)) = sl_out s"
proof -
  from assms obtain s3 where s3: "transmit_wait hw n s = ws2812_wait hw (sl_tick s3) (fst (next_frame_polls s)) s3"
    "drv_rel s s3" "dma_HISR s3 AND hw_dma_tc_flag hw = 0" "sl_out s3 = sl_out s" "sl_tick s3 = sl_tick s"
    by (rule transmit_wait_start)
  have wf: "slave_wf s3" using s3(2) by (simp add: drv_rel_def)
  show "drv_rel s (snd (transmit_wait hw n s))"
    unfolding s3(1) using drv_trans [OF s3(2) quiet_drv [OF ws2812_wait_quiet [OF wf]]] .
  show "sl_out (snd (transmit_wait hw n s)) = sl_out s"
    unfolding s3(1) using sl_out_wait [OF wf] s3(4) by simp
qed

lemma transmit_stop_drv:
  assumes "slave_wf s" "hw = neopixel_hw c"
  shows "drv_rel s (snd (dma_stream_disable i (ws2812_stop hw (snd (transmit_wait hw n s)))))"
proof -
  let ?w = "snd (transmit_wait hw n s)"
  have "drv_rel s (ws2812_stop hw ?w)"
    using transmit_wait_drv(1) [OF assms, of n] ws2812_stop_eq(3) [of hw ?w]
    by (subst ws2812_stop_eq(1)) simp
  then show ?thesis
    using drv_trans [OF _ drv_disable] by (auto simp: drv_rel_def)
qed

lemma ws2812_transmit_drv:
  assumes "slave_wf s" "hw = neopixel_hw c"
  shows "drv_rel s (snd (ws2812_transmit hw n s))"
  using transmit_stop_drv [OF assms] drv_disable [OF assms(1)]
  by (simp add: ws2812_transmit_unfold Let_def slave_emit_def write_HIFCR_def)

text \<open>What is known of the trace from the answer: after success the frame went out completely.\<close>

definition frame_trace :: "neopixel_channel_t \<Rightarrow> u16 list \<Rightarrow> hal_status \<Rightarrow> slave_effect \<Rightarrow> bool" where
  "frame_trace c slots status e \<longleftrightarrow>
     e = StripFrame c slots status \<or> status \<noteq> HAL_OK \<and> e = StripCut c slots status"

lemma frame_trace_ok [simp]: "frame_trace c slots HAL_OK e \<longleftrightarrow> e = StripFrame c slots HAL_OK"
  by (auto simp: frame_trace_def)

lemma ws2812_transmit_out:
  assumes "slave_wf s" "hw = neopixel_hw c" "tim_ready c (tim3 s)" "off_lag (hw_stream hw) s < 100000"
  shows "\<exists>e. sl_out (snd (ws2812_transmit hw n s)) = sl_out s @ [e]
      \<and> frame_trace c (take (unat n) (pwm_data s)) (fst (ws2812_transmit hw n s)) e"
    "tim_stopped hw (tim3 (snd (ws2812_transmit hw n s)))"
proof -
  let ?w = "snd (transmit_wait hw n s)"
  have wire: "on_wire hw (ws2812_start hw n (snd (dma_stream_disable (hw_stream hw) s))) = take (unat n) (pwm_data s)"
    using on_wire_start [OF disable_off assms(2), of s n] assms(3) by simp
  have "sl_out (ws2812_stop hw ?w) = sl_out s"
    using transmit_wait_drv(2) [OF assms(1,2)] by (subst ws2812_stop_eq(1)) simp
  then have "sl_out (snd (ws2812_transmit hw n s)) = sl_out s @
      [strip_trace (fst (transmit_wait hw n s)) c (take (unat n) (pwm_data s)) (fst (ws2812_transmit hw n s))]"
    using assms(4) by (simp add: ws2812_transmit_unfold Let_def slave_emit_def write_HIFCR_def wire) (simp add: assms(2))
  moreover have "frame_trace c slots (fst (ws2812_transmit hw n s))
      (strip_trace (fst (transmit_wait hw n s)) c slots (fst (ws2812_transmit hw n s)))" for slots
    using assms(4) by (auto simp: ws2812_transmit_unfold Let_def transmit_status_def frame_trace_def strip_trace_def)
  ultimately show "\<exists>e. sl_out (snd (ws2812_transmit hw n s)) = sl_out s @ [e]
      \<and> frame_trace c (take (unat n) (pwm_data s)) (fst (ws2812_transmit hw n s)) e"
    by blast
  show "tim_stopped hw (tim3 (snd (ws2812_transmit hw n s)))"
    using assms(4) ws2812_stop_eq(2) [of hw ?w]
    by (simp add: ws2812_transmit_unfold Let_def slave_emit_def write_HIFCR_def)
qed

lemma ws2812_transmit_fails:
  "\<not> off_lag (hw_stream hw) s < 100000 \<Longrightarrow>
     fst (ws2812_transmit hw n s) = HAL_ERROR \<and> sl_out (snd (ws2812_transmit hw n s)) = sl_out s"
  by (simp add: ws2812_transmit_unfold)

lemma ws2812_transmit_ok:
  assumes "slave_wf s" "hw = neopixel_hw c" "fst (ws2812_transmit hw n s) = HAL_OK"
  shows "off_lag (hw_stream hw) s < 100000
    \<and> (\<exists>p\<in>set (fst (next_frame_polls s)). poll_raised p AND hw_dma_tc_flag hw \<noteq> 0)"
proof -
  have lag: "off_lag (hw_stream hw) s < 100000"
    using assms(3) ws2812_transmit_fails by (metis hal_status.distinct(1))
  then have "fst (transmit_wait hw n s) = HAL_OK"
    using assms(3) by (simp add: ws2812_transmit_unfold Let_def transmit_status_def split: if_splits)
  moreover from assms(1,2) obtain s3 where s3:
    "transmit_wait hw n s = ws2812_wait hw (sl_tick s3) (fst (next_frame_polls s)) s3"
    "drv_rel s s3" "dma_HISR s3 AND hw_dma_tc_flag hw = 0" "sl_out s3 = sl_out s" "sl_tick s3 = sl_tick s"
    by (rule transmit_wait_start)
  ultimately show ?thesis
    using ws2812_wait_ok [OF _ s3(3)] s3(1,2) lag by (simp add: drv_rel_def)
qed

subsection \<open>When a transmission succeeds\<close>

definition no_flags :: "neopixel_hw_t \<Rightarrow> u32 \<Rightarrow> bool" where
  "no_flags hw v \<longleftrightarrow> v AND hw_dma_tc_flag hw = 0 \<and> v AND hw_dma_error_flags hw = 0"

lemma no_flags_or: "no_flags hw v \<Longrightarrow> no_flags hw w \<Longrightarrow> no_flags hw (v OR w)"
  by (simp add: no_flags_def bit.conj_disj_distrib2)

lemma ws2812_wait_success:
  "slave_wf s \<Longrightarrow> no_flags hw (dma_HISR s) \<Longrightarrow> list_all (\<lambda>q. no_flags hw (poll_raised q)) qs \<Longrightarrow>
   poll_raised p AND hw_dma_tc_flag hw \<noteq> 0 \<Longrightarrow>
   unat (sl_tick s - start) + sum_list (map poll_ms qs) < 50 \<Longrightarrow>
     fst (ws2812_wait hw start (qs @ p # ps) s) = HAL_OK"
proof (induction qs arbitrary: s)
  case Nil
  have "(dma_HISR s OR poll_raised p) AND hw_dma_tc_flag hw \<noteq> 0"
    using Nil.prems(4) by (simp add: bit.conj_disj_distrib2 or_eq_0_iff)
  then show ?case
    by (subst ws2812_wait_unfold [of "[] @ p # ps" p ps]) (simp_all add: next_poll_def raise_flags_def Let_def)
next
  case (Cons q qs)
  let ?s1 = "raise_flags (poll_raised q) s"
  have flags: "no_flags hw (dma_HISR ?s1)"
    using no_flags_or Cons.prems(2,3) by (simp add: raise_flags_def)
  have tick: "\<not> 50 \<le> HAL_GetTick ?s1 - start"
    using Cons.prems(5) by (simp add: HAL_GetTick_def raise_flags_def word_le_nat_alt)
  have wf1: "slave_wf ?s1" using Cons.prems(1) by (simp add: raise_flags_def)
  note b = between_looks_irq [OF wf1, of q]
  have b': "slave_wf (between_looks q ?s1)" "dma_HISR (between_looks q ?s1) = dma_HISR ?s1"
    using b by (simp_all add: irq_rel_def task_data_def)
  have "unat (sl_tick (between_looks q ?s1) - start) = unat (sl_tick s - start) + poll_ms q"
  proof -
    have "sl_tick (between_looks q ?s1) - start = (sl_tick s - start) + word_of_nat (poll_ms q)"
      by (simp add: raise_flags_def)
    moreover have "unat (sl_tick s - start) + poll_ms q < 2 ^ 32" using Cons.prems(5) by simp
    moreover have "unat (d + word_of_nat m) = unat d + m" if "unat d + m < 2 ^ 32" for d :: u32 and m
      using that by (simp add: unat_word_ariths unat_of_nat)
    ultimately show ?thesis by (simp only:)
  qed
  then have "fst (ws2812_wait hw start (qs @ p # ps) (between_looks q ?s1)) = HAL_OK"
    using Cons.IH [OF b'(1) _ _ Cons.prems(4)] Cons.prems(3,5) flags b'(2) by simp
  moreover have "next_poll ((q # qs) @ p # ps) = (q, qs @ p # ps)" by (simp add: next_poll_def)
  ultimately show ?case
    using flags tick by (simp add: ws2812_wait_unfold no_flags_def Let_def)
qed

text \<open>The stream can be switched off, before the frame and after it.\<close>

definition lags_fine :: "stream_id \<Rightarrow> slave \<Rightarrow> bool" where
  "lags_fine i s \<longleftrightarrow> off_lag i s < 100000 \<and> (case off_lags i s of [] \<Rightarrow> True | n # _ \<Rightarrow> n < 100000)"

lemma clear_covers_flags: "no_flags (neopixel_hw c) (h AND NOT (hw_dma_clear_flags (neopixel_hw c)))"
proof -
  have "NOT (hw_dma_clear_flags (neopixel_hw c)) AND hw_dma_error_flags (neopixel_hw c) = 0"
    by (cases c) (simp_all add: neopixel_hw_def)
  then show ?thesis using clear_covers_tc [of h c] by (simp add: no_flags_def and.assoc)
qed

lemma transmit_wait_rest:
  assumes "slave_wf s" "hw = neopixel_hw c"
  shows "sl_lags (snd (transmit_wait hw n s)) = off_lags (hw_stream hw) s"
    "dma1 (snd (transmit_wait hw n s)) (hw_stream hw) =
       start_stream hw n (dma1 (snd (dma_stream_disable (hw_stream hw) s)) (hw_stream hw))"
proof -
  let ?s1 = "snd (dma_stream_disable (hw_stream hw) s)"
  let ?s2 = "ws2812_start hw n ?s1"
  let ?s3 = "?s2\<lparr> sl_polls := sl_polls (snd (next_frame_polls ?s2)) \<rparr>"
  note eq = ws2812_start_eq [OF disable_off [where s = s] assms(2), of n]
  have w: "transmit_wait hw n s = ws2812_wait hw (sl_tick ?s3) (fst (next_frame_polls ?s2)) ?s3"
    unfolding transmit_wait_def Let_def HAL_GetTick_def by (subst next_frame_polls_eq) simp
  have "slave_wf ?s3" by (simp add: eq assms(1))
  from ws2812_wait_quiet [OF this, of hw "sl_tick ?s3" "fst (next_frame_polls ?s2)"]
  have same: "sl_lags (snd (transmit_wait hw n s)) = sl_lags ?s3" "dma1 (snd (transmit_wait hw n s)) = dma1 ?s3"
    unfolding w by (simp_all add: quiet_rel_def irq_rel_def task_data_def)
  show "sl_lags (snd (transmit_wait hw n s)) = off_lags (hw_stream hw) s"
    unfolding same by (simp add: eq) (simp add: dma_stream_disable_spec upd_stream_def)
  show "dma1 (snd (transmit_wait hw n s)) (hw_stream hw) =
       start_stream hw n (dma1 (snd (dma_stream_disable (hw_stream hw) s)) (hw_stream hw))"
    unfolding same by (simp add: eq)
qed

lemma ws2812_transmit_success:
  assumes "slave_wf s" "hw = neopixel_hw c" "lags_fine (hw_stream hw) s"
    and "fst (next_frame_polls s) = qs @ p # ps"
    and "list_all (\<lambda>q. no_flags hw (poll_raised q)) qs" "poll_raised p AND hw_dma_tc_flag hw \<noteq> 0"
    and "sum_list (map poll_ms qs) < 50"
  shows "fst (ws2812_transmit hw n s) = HAL_OK"
proof -
  let ?s1 = "snd (dma_stream_disable (hw_stream hw) s)"
  let ?s2 = "ws2812_start hw n ?s1"
  let ?s3 = "?s2\<lparr> sl_polls := sl_polls (snd (next_frame_polls ?s2)) \<rparr>"
  note eq = ws2812_start_eq [OF disable_off [where s = s] assms(2), of n]
  have polls: "fst (next_frame_polls ?s2) = fst (next_frame_polls s)"
    by (simp add: eq next_frame_polls_def split: list.split)
  have w: "transmit_wait hw n s = ws2812_wait hw (sl_tick ?s3) (qs @ p # ps) ?s3"
    unfolding transmit_wait_def Let_def HAL_GetTick_def
    by (subst next_frame_polls_eq) (simp add: polls assms(4))
  have "slave_wf ?s3" by (simp add: eq assms(1))
  moreover have "no_flags hw (dma_HISR ?s3)"
    using clear_covers_flags [of c "dma_HISR ?s1"] by (simp add: eq flip: assms(2))
  ultimately have ok: "fst (transmit_wait hw n s) = HAL_OK"
    unfolding w using ws2812_wait_success [of ?s3 hw qs p "sl_tick ?s3" ps] assms(5-7) by simp
  let ?w = "ws2812_stop hw (snd (transmit_wait hw n s))"
  have "sl_lags ?w = off_lags (hw_stream hw) s" "sx_CR (dma1 ?w (hw_stream hw)) AND DMA_SxCR_EN \<noteq> 0"
    using transmit_wait_rest [OF assms(1,2), of n] en_or
    by (simp_all add: ws2812_stop_def upd_tim_def start_stream_def flip: or.assoc)
  then have "off_lag (hw_stream hw) ?w < 100000"
    using assms(3) by (simp add: off_lag_def lags_fine_def split: list.splits)
  then show ?thesis
    using ok assms(3) by (simp add: ws2812_transmit_unfold transmit_status_def lags_fine_def Let_def)
qed

end
