(* ===== verification/Strip_Service.thy ===== *)
theory Strip_Service
  imports Strip_Show
begin

text \<open>Colours and channels: showing a colour sends exactly its frame, initialising one channel keeps
  the other one ready, and the service of veda_strip.c loses no change of level.\<close>

definition strip_wf :: "slave \<Rightarrow> bool" where
  "strip_wf s \<longleftrightarrow> slave_wf s \<and> length (channel_ready s) = 2 \<and> length (strip_shown_risk s) = 2
     \<and> (\<forall>i<2. channel_ready s ! i \<noteq> 0 \<longrightarrow>
           tim_ready (strip_of (word_of_nat i)) (tim3 s) \<and> pwm_ok (pwm_data s))"

text \<open>What every call of the task keeps: the interrupt data, and the strips' bookkeeping up to redraw
  requests.\<close>

definition task_rel :: "slave \<Rightarrow> slave \<Rightarrow> bool" where
  "task_rel s t \<longleftrightarrow> strip_wf t \<and> my_slave_id t = my_slave_id s \<and> rx_armed t = rx_armed s
     \<and> strip_noticed s t \<and> strip_shown_risk t = strip_shown_risk s
     \<and> pin_shows t RS485_DE = pin_shows s RS485_DE"

lemma task_rel_refl: "strip_wf s \<Longrightarrow> task_rel s s"
  by (simp add: task_rel_def)

lemma task_rel_trans: "task_rel s t \<Longrightarrow> task_rel t u \<Longrightarrow> task_rel s u"
  by (auto simp: task_rel_def elim: strip_noticed_trans)

lemma drv_task: "strip_wf s \<Longrightarrow> drv_rel s t \<Longrightarrow> task_rel s t"
  using tim_ready_mode [of "tim3 t" "tim3 s"] by (simp add: drv_rel_def task_rel_def strip_wf_def)

lemma irq_task: "strip_wf s \<Longrightarrow> irq_rel s t \<Longrightarrow> task_rel s t"
  by (simp add: drv_task irq_drv)

lemma strip_wf_slave: "strip_wf s \<Longrightarrow> slave_wf s"
  by (simp add: strip_wf_def)

subsection \<open>Showing a colour\<close>

definition show_start :: "u16 \<Rightarrow> u8 \<Rightarrow> u8 \<Rightarrow> u8 \<Rightarrow> slave \<Rightarrow> slave" where
  "show_start p r g b s =
     s\<lparr> pwm_data := clear_slots (240 + word_of_nat (unat p * 24))
          (put_at 240 (concat (replicate (unat p) (pixel_slots r g b))) (pwm_data s)) \<rparr>"

lemma neopixel_show_solid_unfold:
  assumes "channel < 2" "p \<noteq> 0" "p \<le> 9" "channel_ready s ! unat channel \<noteq> 0" "pwm_ok (pwm_data s)"
  shows "neopixel_show_solid channel p r g b s =
    (let (status, s2) = ws2812_transmit (neopixel_hw (strip_of channel))
           (240 + word_of_nat (unat p * 24) + 240) (show_start p r g b s)
     in (status, if status = HAL_OK then HAL_Delay 1 s2 else s2))"
proof -
  have "\<not> 2 \<le> channel" "\<not> 9 < p" using assms(1,3) by (simp_all add: not_le not_less)
  then show ?thesis
    using assms encode_frame(1) [of "pwm_data s" p r g b]
    by (simp add: neopixel_show_solid_def show_start_def Let_def split_def)
qed

lemma frame_length:
  assumes "p \<le> (9 :: u16)"
  shows "unat ((240 :: u32) + word_of_nat (unat p * 24) + 240) = unat ((240 :: u32) + word_of_nat (unat p * 24)) + 240"
proof -
  have "unat p \<le> 9" using assms by (simp add: word_le_nat_alt)
  moreover have "unat ((240 :: u32) + word_of_nat (n * 24) + 240) = unat ((240 :: u32) + word_of_nat (n * 24)) + 240"
    if "n \<le> 9" for n using that by (simp add: unat_word_ariths unat_of_nat)
  ultimately show ?thesis by blast
qed

lemma show_start_ok:
  assumes "strip_wf s" "p \<le> 9" "pwm_ok (pwm_data s)"
  shows "task_rel s (show_start p r g b s)" "tim3 (show_start p r g b s) = tim3 s"
    "sl_out (show_start p r g b s) = sl_out s" "sl_polls (show_start p r g b s) = sl_polls s"
    "off_lag i (show_start p r g b s) = off_lag i s"
    "take (unat ((240 :: u32) + word_of_nat (unat p * 24) + 240)) (pwm_data (show_start p r g b s))
       = frame_slots (unat p) r g b"
proof -
  note enc = encode_frame_cleared [of "pwm_data s" p _ _ r g b, OF assms(3) _ refl refl]
  show "task_rel s (show_start p r g b s)"
    using assms(1,2) enc(1)
    by (simp add: show_start_def task_rel_def strip_wf_def strip_noticed_def pin_shows_def)
  show "tim3 (show_start p r g b s) = tim3 s" "sl_out (show_start p r g b s) = sl_out s"
    "sl_polls (show_start p r g b s) = sl_polls s" "off_lag i (show_start p r g b s) = off_lag i s"
    by (simp_all add: show_start_def off_lag_def)
  show "take (unat ((240 :: u32) + word_of_nat (unat p * 24) + 240)) (pwm_data (show_start p r g b s))
       = frame_slots (unat p) r g b"
    using enc(2) assms(2) unfolding frame_length [OF assms(2)] by (simp add: show_start_def)
qed

lemma HAL_Delay_quiet:
  assumes "slave_wf s"
  shows "drv_rel s (HAL_Delay n s)" "sl_out (HAL_Delay n s) = sl_out s" "tim3 (HAL_Delay n s) = tim3 s"
  using HAL_Delay_inv [OF assms, of n] irq_drv [of s]
  by (simp_all add: irq_rel_def task_data_def)

lemma neopixel_show_solid_task:
  assumes "strip_wf s"
  shows "task_rel s (snd (neopixel_show_solid channel p r g b s))"
proof (cases "channel < 2 \<and> p \<noteq> 0 \<and> p \<le> 9 \<and> channel_ready s ! unat channel \<noteq> 0")
  case False
  then have "neopixel_show_solid channel p r g b s = (HAL_ERROR, s)"
    by (auto simp: neopixel_show_solid_def not_le not_less)
  then show ?thesis using assms by (simp add: task_rel_refl)
next
  case True
  then have "unat channel < 2" by (simp add: word_less_nat_alt)
  then have pwm: "pwm_ok (pwm_data s)" using True assms by (auto simp: strip_wf_def)
  let ?t = "show_start p r g b s"
  have start: "task_rel s ?t" using show_start_ok(1) [OF assms _ pwm] True by simp
  then have wf: "strip_wf ?t" by (simp add: task_rel_def)
  note wf = wf strip_wf_slave [OF wf]
  let ?u = "snd (ws2812_transmit (neopixel_hw (strip_of channel)) (240 + word_of_nat (unat p * 24) + 240) ?t)"
  have u: "task_rel ?t ?u" using drv_task [OF wf(1) ws2812_transmit_drv [OF wf(2) refl]] .
  have "strip_wf ?u" using u by (simp add: task_rel_def)
  then have "task_rel ?u (HAL_Delay 1 ?u)"
    using drv_task HAL_Delay_quiet(1) strip_wf_slave by blast
  then show ?thesis
    using True task_rel_trans [OF start u] task_rel_trans
    by (auto simp: neopixel_show_solid_unfold [OF _ _ _ _ pwm] Let_def split_def)
qed

text \<open>If the stream can be switched off at all, exactly the frame of this colour is started, completed
  if the answer is success, and the timer is stopped afterwards; otherwise the answer is an error and the
  strip gets nothing.\<close>

lemma neopixel_show_solid_frame:
  assumes "strip_wf s" "channel < 2" "p \<noteq> 0" "p \<le> 9" "channel_ready s ! unat channel \<noteq> 0"
  defines "hw \<equiv> neopixel_hw (strip_of channel)"
  shows "let (status, t) = neopixel_show_solid channel p r g b s
    in if off_lag (hw_stream hw) s < 100000
       then (\<exists>e. sl_out t = sl_out s @ [e] \<and> frame_trace (strip_of channel) (frame_slots (unat p) r g b) status e)
            \<and> tim_stopped hw (tim3 t)
       else status = HAL_ERROR \<and> sl_out t = sl_out s"
proof -
  have i: "unat channel < 2" using assms(2) by (simp add: word_less_nat_alt)
  have ready: "tim_ready (strip_of channel) (tim3 s)" "pwm_ok (pwm_data s)"
    using assms(1,5) i by (auto simp: strip_wf_def)
  let ?t = "show_start p r g b s"
  note st = show_start_ok [OF assms(1) assms(4) ready(2), where r = r and g = g and b = b]
  have wf: "slave_wf ?t" using st(1) strip_wf_slave by (simp add: task_rel_def)
  have ready': "tim_ready (strip_of channel) (tim3 ?t)" using ready(1) st(2) by simp
  note eq = neopixel_show_solid_unfold [OF assms(2-5) ready(2)]
  let ?n = "(240 :: u32) + word_of_nat (unat p * 24) + 240"
  let ?u = "snd (ws2812_transmit hw ?n ?t)"
  have "slave_wf ?u" using ws2812_transmit_drv [OF wf, of hw "strip_of channel" ?n] by (simp add: hw_def drv_rel_def)
  note delay = HAL_Delay_quiet(2,3) [OF this, of 1]
  show ?thesis
  proof (cases "off_lag (hw_stream hw) s < 100000")
    case True
    then have "off_lag (hw_stream hw) ?t < 100000" by (simp add: st(5))
    from ws2812_transmit_out [OF wf hw_def [THEN meta_eq_to_obj_eq] ready' this, of ?n] st(3,6)
    obtain e where "sl_out ?u = sl_out s @ [e]" "tim_stopped hw (tim3 ?u)"
      "frame_trace (strip_of channel) (frame_slots (unat p) r g b) (fst (ws2812_transmit hw ?n ?t)) e" by auto
    then show ?thesis
      using True delay by (cases "fst (ws2812_transmit hw ?n ?t) = HAL_OK") (simp_all add: eq Let_def split_def flip: hw_def)
  next
    case False
    then have "\<not> off_lag (hw_stream hw) ?t < 100000" by (simp add: st(5))
    from ws2812_transmit_fails [OF this, of ?n] show ?thesis
      using False st(3) by (simp add: eq Let_def split_def hw_def)
  qed
qed

end
