(* ===== verification/Slave_Run.thy ===== *)
theory Slave_Run
  imports Strip_Service
begin

text \<open>Every call of the slave's task preserves its invariant, and whatever leaves the board is as it
  should be: acknowledgements of own channels with the driver enabled, and frames of one of the three
  colours, complete unless the driver reported a failure.\<close>

definition policy_rgb :: "u8 \<Rightarrow> u8 \<times> u8 \<times> u8" where
  "policy_rgb risk = (if risk = 0 then (0, 255, 0) else if risk = 1 then (255, 130, 0) else (255, 0, 0))"

definition policy_frame :: "u8 \<Rightarrow> u16 list" where
  "policy_frame risk = (case policy_rgb risk of (r, g, b) \<Rightarrow> frame_slots 9 r g b)"

definition own_channel :: "u8 \<Rightarrow> u8 \<Rightarrow> bool" where
  "own_channel my c \<longleftrightarrow> MY_FIRST_CHANNEL my \<le> c \<and> c \<le> MY_LAST_CHANNEL my"

definition effect_ok :: "u8 \<Rightarrow> slave_effect \<Rightarrow> bool" where
  "effect_ok my e = (case e of
      SlaveTx u bytes timeout st de \<Rightarrow>
        u \<noteq> USART1 \<or> de \<and> (\<exists>c r. own_channel my c \<and> r \<le> 2 \<and> bytes = ack_frame my c r)
    | StripFrame c slots st \<Rightarrow> \<exists>r\<le>2. slots = policy_frame r
    | StripCut c slots st \<Rightarrow> st \<noteq> HAL_OK \<and> (\<exists>r\<le>2. slots = policy_frame r))"

lemma effect_ok_trace:
  "frame_trace c (policy_frame risk) st e \<Longrightarrow> risk \<le> 2 \<Longrightarrow> effect_ok my e"
  by (auto simp: frame_trace_def effect_ok_def)

definition slave_inv :: "slave \<Rightarrow> bool" where
  "slave_inv s \<longleftrightarrow> strip_wf s \<and> list_all (\<lambda>r. r \<le> 2) (strip_shown_risk s)
     \<and> list_all (effect_ok (my_slave_id s)) (sl_out s)"

lemma slave_inv_parts:
  assumes "slave_inv s"
  shows "strip_wf s" "slave_wf s" "buildable (my_slave_id s)"
  using assms strip_wf_slave slave_wf_parts(2) by (auto simp: slave_inv_def)

text \<open>A call of the task: the bookkeeping relation, and the invariant.\<close>

definition step_rel :: "slave \<Rightarrow> slave \<Rightarrow> bool" where
  "step_rel s t \<longleftrightarrow> task_rel s t \<and> slave_inv t"

lemma step_refl: "slave_inv s \<Longrightarrow> step_rel s s"
  by (simp add: step_rel_def task_rel_refl slave_inv_parts)

lemma step_trans: "step_rel s t \<Longrightarrow> step_rel t u \<Longrightarrow> step_rel s u"
  by (auto simp: step_rel_def elim: task_rel_trans)

lemma step_inv: "step_rel s t \<Longrightarrow> slave_inv t"
  by (simp add: step_rel_def)

lemma step_of_task:
  assumes "slave_inv s" "task_rel s t" "sl_out t = sl_out s @ es" "list_all (effect_ok (my_slave_id s)) es"
  shows "step_rel s t"
  using assms by (simp add: step_rel_def slave_inv_def task_rel_def)

lemma step_of_irq: "slave_inv s \<Longrightarrow> irq_rel s t \<Longrightarrow> step_rel s t"
  using step_of_task [of s t "[]"] irq_task [of s t] slave_inv_parts(1)
  by (simp add: irq_rel_def task_data_def)

lemmas delay_step = step_of_irq [OF _ osDelay_inv] step_of_irq [OF _ HAL_Delay_inv]
  step_of_irq [OF _ window_inv]

subsection \<open>Transmissions\<close>

lemma uart_transmit_task:
  assumes "strip_wf s"
  shows "task_rel s (snd (HAL_UART_Transmit_slave u bytes timeout s))"
    "sl_out (snd (HAL_UART_Transmit_slave u bytes timeout s)) =
       sl_out s @ [SlaveTx u bytes timeout (fst (HAL_UART_Transmit_slave u bytes timeout s))
                     (pin_shows s RS485_DE = Some True)]"
proof -
  let ?s1 = "snd (next_call s)" and ?st = "fst (fst (next_call s))" and ?evs = "snd (fst (next_call s))"
  let ?s2 = "slave_emit (SlaveTx u bytes timeout ?st (pin_shows ?s1 RS485_DE = Some True)) ?s1"
  have tx: "HAL_UART_Transmit_slave u bytes timeout s = (?st, wait_events ?evs ?s2)"
    by (simp add: HAL_UART_Transmit_slave_def split_def Let_def)
  note wf = strip_wf_slave [OF assms]
  have n: "irq_rel s ?s1" by (rule next_call_inv [OF wf])
  then have de: "pin_shows ?s1 RS485_DE = pin_shows s RS485_DE" "sl_out ?s1 = sl_out s"
    by (simp_all add: irq_rel_def task_data_def)
  have "drv_rel s ?s2" using irq_drv [OF n] by (simp add: slave_emit_def)
  note t2 = drv_task [OF assms this]
  then have wf2: "strip_wf ?s2" by (simp add: task_rel_def)
  note w = wait_events_inv [OF strip_wf_slave [OF wf2], of ?evs]
  show "task_rel s (snd (HAL_UART_Transmit_slave u bytes timeout s))"
    using task_rel_trans [OF t2 irq_task [OF wf2 w]] by (simp add: tx)
  show "sl_out (snd (HAL_UART_Transmit_slave u bytes timeout s)) =
       sl_out s @ [SlaveTx u bytes timeout (fst (HAL_UART_Transmit_slave u bytes timeout s))
                     (pin_shows s RS485_DE = Some True)]"
    using w de by (simp add: tx irq_rel_def task_data_def slave_emit_def)
qed

lemma slave_print_step: "slave_inv s \<Longrightarrow> step_rel s (slave_print bytes s)"
  using step_of_task [OF _ uart_transmit_task] slave_inv_parts(1)
  by (simp add: slave_print_def effect_ok_def)

lemma slave_print_more:
  "slave_inv s \<Longrightarrow> step_rel s (slave_print_digit v s)" "slave_inv s \<Longrightarrow> step_rel s (slave_print_u32 n s)"
  by (simp_all add: slave_print_digit_def slave_print_u32_def slave_print_step)

text \<open>Chaining calls: a step after a step.\<close>

lemma step_then: "step_rel s t \<Longrightarrow> (slave_inv t \<Longrightarrow> step_rel t u) \<Longrightarrow> step_rel s u"
  using step_trans step_inv by blast

lemma strip_wf_upd [simp]:
  "strip_wf (t\<lparr> loop_count := n \<rparr>) = strip_wf t" "strip_wf (t\<lparr> loop_report_msec := n \<rparr>) = strip_wf t"
  "strip_wf (t\<lparr> debug_ready := d \<rparr>) = strip_wf t" "strip_wf (t\<lparr> sl_out := oo \<rparr>) = strip_wf t"
  "strip_wf (t\<lparr> sl_tick := n \<rparr>) = strip_wf t" "strip_wf (t\<lparr> sl_calls := cc \<rparr>) = strip_wf t"
  "strip_wf (t\<lparr> sl_polls := pp \<rparr>) = strip_wf t" "strip_wf (t\<lparr> sl_lags := ll \<rparr>) = strip_wf t"
  by (simp_all add: strip_wf_def)

lemma slave_inv_upd [simp]:
  "slave_inv (t\<lparr> loop_count := n \<rparr>) = slave_inv t" "slave_inv (t\<lparr> loop_report_msec := n \<rparr>) = slave_inv t"
  "slave_inv (t\<lparr> debug_ready := d \<rparr>) = slave_inv t" "slave_inv (t\<lparr> sl_tick := n \<rparr>) = slave_inv t"
  "slave_inv (t\<lparr> sl_calls := cc \<rparr>) = slave_inv t" "slave_inv (t\<lparr> sl_polls := pp \<rparr>) = slave_inv t"
  "slave_inv (t\<lparr> sl_lags := ll \<rparr>) = slave_inv t"
  by (simp_all add: slave_inv_def)

lemma pin_shows_fields [simp]:
  "pin_shows (t\<lparr> loop_count := n \<rparr>) p = pin_shows t p" "pin_shows (t\<lparr> loop_report_msec := n \<rparr>) p = pin_shows t p"
  "pin_shows (t\<lparr> debug_ready := d \<rparr>) p = pin_shows t p" "pin_shows (t\<lparr> ack_pending := d \<rparr>) p = pin_shows t p"
  "pin_shows (t\<lparr> strip_shown_risk := l \<rparr>) p = pin_shows t p" "pin_shows (t\<lparr> rx_armed := b \<rparr>) p = pin_shows t p"
  "pin_shows (t\<lparr> rs485_line_length := d \<rparr>) p = pin_shows t p"
  "pin_shows (t\<lparr> rs485_line_overflow := d \<rparr>) p = pin_shows t p"
  by (simp_all add: pin_shows_def)

lemma step_upd:
  assumes "step_rel s t"
  shows "step_rel s (t\<lparr> loop_count := n \<rparr>)" "step_rel s (t\<lparr> loop_report_msec := m \<rparr>)"
    "step_rel s (t\<lparr> debug_ready := d \<rparr>)"
proof -
  have "strip_noticed s (t\<lparr> loop_count := n \<rparr>)" "strip_noticed s (t\<lparr> loop_report_msec := m \<rparr>)"
    "strip_noticed s (t\<lparr> debug_ready := d \<rparr>)"
    using assms by (simp_all add: step_rel_def task_rel_def strip_noticed_def)
  then show "step_rel s (t\<lparr> loop_count := n \<rparr>)" "step_rel s (t\<lparr> loop_report_msec := m \<rparr>)"
    "step_rel s (t\<lparr> debug_ready := d \<rparr>)"
    using assms by (simp_all add: step_rel_def task_rel_def)
qed

lemma debug_line_service_step:
  assumes "slave_inv s"
  shows "step_rel s (veda_debug_line_service s)"
proof -
  note pr = step_then [OF _ slave_print_step]
  show ?thesis
    unfolding veda_debug_line_service_def Let_def
    using assms by (auto intro!: step_upd(3) pr step_refl)
qed

lemma loop_begin_step: "slave_inv s \<Longrightarrow> step_rel s (veda_debug_loop_begin s)"
  using step_upd(2) [OF step_upd(1) [OF step_refl]] by (simp add: veda_debug_loop_begin_def)

lemma loop_tick_step:
  assumes "slave_inv s"
  shows "step_rel s (veda_debug_loop_tick s)"
proof -
  have s1: "step_rel s (s\<lparr> loop_count := n \<rparr>)" for n using step_upd(1) [OF step_refl [OF assms]] .
  note pr = step_then [OF _ slave_print_step] step_then [OF _ slave_print_more(2)]
  let ?t = "\<lambda>n. slave_print (cstr ''ms each'' @ [CR, LF]) (slave_print_u32 n
    (slave_print (cstr '' turns / 5s -> '') (slave_print_u32 (loop_count s + 1)
      (slave_print (cstr ''[loop] '') (s\<lparr> loop_count := loop_count s + 1 \<rparr>)))))"
  have "step_rel s (?t n)" for n by (intro pr s1)
  then have "step_rel s ((?t n)\<lparr> loop_count := 0, loop_report_msec := m \<rparr>)" for n m
    using step_upd(2) [OF step_upd(1)] by simp
  then show ?thesis
    using s1 unfolding veda_debug_loop_tick_def Let_def by (simp split: if_split)
qed

subsection \<open>The acknowledgement\<close>

lemma write_pin_more [simp]:
  "rs485_line (write_pin p v s) = rs485_line s" "rs485_line_length (write_pin p v s) = rs485_line_length s"
  "debug_line (write_pin p v s) = debug_line s" "ack_pending (write_pin p v s) = ack_pending s"
  "ack_channel_slot (write_pin p v s) = ack_channel_slot s" "ack_risk_slot (write_pin p v s) = ack_risk_slot s"
  "channel_ready (write_pin p v s) = channel_ready s" "strip_shown_risk (write_pin p v s) = strip_shown_risk s"
  "tim3 (write_pin p v s) = tim3 s" "pwm_data (write_pin p v s) = pwm_data s"
  "rx_armed (write_pin p v s) = rx_armed s" "sl_out (write_pin p v s) = sl_out s"
  by (simp_all add: write_pin_def on_board_def)

lemma write_de_wf:
  assumes "slave_wf s"
  shows "slave_wf (write_pin RS485_DE v s)"
proof -
  have "outputs_ok (write_pin RS485_DE v s) = outputs_ok s"
    unfolding outputs_ok_unfold by simp
  then show ?thesis
    using assms by (simp add: slave_wf_def slave_line_wf_def ack_slot_ok_def)
qed

lemma write_de_step:
  assumes "slave_inv s"
  shows "slave_inv (write_pin RS485_DE v s)" "strip_noticed s (write_pin RS485_DE v s)"
    "my_slave_id (write_pin RS485_DE v s) = my_slave_id s"
  using assms write_de_wf [of s v]
  by (simp_all add: slave_inv_def strip_wf_def strip_noticed_def del: slave_pins)

text \<open>The DE pin of a slave whose task is between two calls: configured and low.\<close>

definition de_low :: "slave \<Rightarrow> bool" where
  "de_low s \<longleftrightarrow> pin_shows s RS485_DE = Some False"

lemma step_de: "step_rel s t \<Longrightarrow> de_low t = de_low s"
  by (simp add: step_rel_def task_rel_def de_low_def)

text \<open>Sending an acknowledgement for an own channel.\<close>

lemma rs485_send_ack_step:
  assumes "slave_inv s" "de_low s" "own_channel (my_slave_id s) c" "r \<le> 2"
  shows "step_rel s (rs485_send_ack c r s)"
    "\<exists>st. sl_out (rs485_send_ack c r s) =
       sl_out s @ [SlaveTx USART1 (ack_frame (my_slave_id s) c r) RS485_ACK_TX_TIMEOUT_MSEC st True]"
proof -
  let ?bytes = "ack_frame (my_slave_id s) c r" and ?s1 = "write_pin RS485_DE True s"
  let ?tx = "HAL_UART_Transmit_slave USART1 ?bytes RS485_ACK_TX_TIMEOUT_MSEC ?s1"
  have ack: "rs485_send_ack c r s = write_pin RS485_DE False (snd ?tx)"
    by (simp add: rs485_send_ack_def Let_def split_def)
  note w1 = write_de_step [OF assms(1), of True]
  have de1: "pin_shows ?s1 RS485_DE = Some True" using assms(2) by (simp add: de_low_def)
  note tx = uart_transmit_task [OF slave_inv_parts(1) [OF w1(1)], of USART1 ?bytes RS485_ACK_TX_TIMEOUT_MSEC]
  have out: "sl_out (snd ?tx) = sl_out s @ [SlaveTx USART1 ?bytes RS485_ACK_TX_TIMEOUT_MSEC (fst ?tx) True]"
    using tx(2) de1 by simp
  have ok: "effect_ok (my_slave_id s) (SlaveTx USART1 ?bytes RS485_ACK_TX_TIMEOUT_MSEC (fst ?tx) True)"
    using assms(3,4) by (auto simp: effect_ok_def)
  have t: "step_rel ?s1 (snd ?tx)"
  proof (rule step_of_task [OF w1(1) tx(1) tx(2)])
    show "list_all (effect_ok (my_slave_id ?s1)) [SlaveTx USART1 ?bytes RS485_ACK_TX_TIMEOUT_MSEC (fst ?tx)
        (pin_shows ?s1 RS485_DE = Some True)]"
      unfolding w1(3) de1 using ok by simp
  qed
  then have inv2: "slave_inv (snd ?tx)" by (rule step_inv)
  note w2 = write_de_step [OF inv2, of False]
  have de2: "pin_shows (snd ?tx) RS485_DE = Some True"
    using t de1 by (simp add: step_rel_def task_rel_def)
  have noticed: "strip_noticed s (write_pin RS485_DE False (snd ?tx))"
    using strip_noticed_trans [OF w1(2) strip_noticed_trans [OF _ w2(2)]] t
    by (simp add: step_rel_def task_rel_def)
  have "pin_shows (write_pin RS485_DE False (snd ?tx)) RS485_DE = pin_shows s RS485_DE"
    using de2 assms(2) by (simp add: de_low_def)
  moreover have "strip_shown_risk (snd ?tx) = strip_shown_risk s" "rx_armed (snd ?tx) = rx_armed s"
    "my_slave_id (snd ?tx) = my_slave_id s"
    using t by (simp_all add: step_rel_def task_rel_def)
  ultimately show "step_rel s (rs485_send_ack c r s)"
    unfolding ack step_rel_def task_rel_def
    using w2(1) noticed slave_inv_parts(1) [OF w2(1)] by (simp del: slave_pins pin_shows_write_pin)
  show "\<exists>st. sl_out (rs485_send_ack c r s) =
       sl_out s @ [SlaveTx USART1 ?bytes RS485_ACK_TX_TIMEOUT_MSEC st True]"
    using out by (simp add: ack)
qed

lemma ack_service_step:
  assumes "slave_inv s" "de_low s"
  shows "step_rel s (veda_rs485_ack_service s)"
proof (cases "ack_pending s = 0")
  case True
  then show ?thesis using assms(1) by (simp add: veda_rs485_ack_service_def step_refl)
next
  case False
  then have "own_channel (my_slave_id s) (ack_channel_slot s)" "ack_risk_slot s \<le> 2"
    using slave_inv_parts(2) [OF assms(1)] unfolding slave_wf_def ack_slot_ok_def own_channel_def by blast+
  note st = rs485_send_ack_step(1) [OF assms this]
  have "slave_wf (t\<lparr> ack_pending := 0 \<rparr>)" if "slave_wf t" for t
    using that by (simp add: slave_wf_def slave_line_wf_def ack_slot_ok_def)
  then have "strip_wf (t\<lparr> ack_pending := 0 \<rparr>)" if "strip_wf t" for t
    using that by (simp add: strip_wf_def)
  then have "slave_inv (t\<lparr> ack_pending := 0 \<rparr>)" "strip_wf (t\<lparr> ack_pending := 0 \<rparr>)" if "slave_inv t" for t
    using that by (simp_all add: slave_inv_def)
  then have "step_rel s (t\<lparr> ack_pending := 0 \<rparr>)" if "step_rel s t" for t
    using that by (simp add: step_rel_def task_rel_def strip_noticed_def)
  then show ?thesis using st False by (simp add: veda_rs485_ack_service_def)
qed

end
