(* ===== verification/Slave_Loop.thy ===== *)
theory Slave_Loop
  imports Slave_Run
begin

text \<open>The remaining calls of the slave's task (idle service, strips, initialisation of the strips) and
  the whole loop turn preserve the invariant; the strip service catches up with the recorded level.\<close>

definition loop_rel :: "slave \<Rightarrow> slave \<Rightarrow> bool" where
  "loop_rel s t \<longleftrightarrow> slave_inv t \<and> my_slave_id t = my_slave_id s \<and> rx_armed t = rx_armed s
     \<and> de_low t = de_low s"

lemma step_loop: "step_rel s t \<Longrightarrow> loop_rel s t"
  using step_de by (simp add: step_rel_def loop_rel_def task_rel_def)

lemma loop_refl: "slave_inv s \<Longrightarrow> loop_rel s s"
  by (simp add: loop_rel_def)

lemma loop_trans: "loop_rel s t \<Longrightarrow> loop_rel t u \<Longrightarrow> loop_rel s u"
  by (simp add: loop_rel_def)

subsection \<open>Idle service\<close>

lemma idle_service_step:
  assumes "slave_inv s"
  shows "step_rel s (veda_rs485_idle_service s)"
proof -
  have "slave_wf s" using slave_inv_parts(2) [OF assms] .
  then have "strip_wf (s\<lparr> rs485_line_length := 0, rs485_line_overflow := 0 \<rparr>)"
    using slave_inv_parts(1) [OF assms] by (simp add: strip_wf_def)
  then have "step_rel s (s\<lparr> rs485_line_length := 0, rs485_line_overflow := 0 \<rparr>)"
    using assms by (simp add: step_rel_def task_rel_def slave_inv_def strip_noticed_def)
  then show ?thesis
    using step_refl [OF assms] by (simp add: veda_rs485_idle_service_def)
qed

subsection \<open>Strips\<close>

lemma strip_colour_policy: "r \<le> 2 \<Longrightarrow> strip_colour r = Some (policy_rgb r)"
  by (erule word_le_2_cases) (simp_all add: strip_colour_def policy_rgb_def)

lemma co_strip_number:
  assumes "buildable my" "i < 2"
  shows "strip_number (co_strip (channel_output my ! i)) = word_of_nat i"
  using assms(2) channel_output_pins(3) [OF assms]
  by (auto simp: strip_number_def strip_index_def less_2_cases_iff)

lemma word_of_index: "i < 2 \<Longrightarrow> (word_of_nat i :: u32) < 2 \<and> unat (word_of_nat i :: u32) = i"
  by (auto simp: less_2_cases_iff)

definition show_risk :: "nat \<Rightarrow> u8 \<Rightarrow> slave \<Rightarrow> hal_status \<times> slave" where
  "show_risk i risk s = (case policy_rgb risk of (r, g, b) \<Rightarrow>
     neopixel_show_solid (word_of_nat i) 9 r g b s)"

lemma show_risk_step:
  assumes "slave_inv s" "i < 2" "risk \<le> 2"
  shows "step_rel s (snd (show_risk i risk s))"
proof -
  obtain r g b where rgb: "policy_rgb risk = (r, g, b)" by (metis prod_cases3)
  have sh: "show_risk i risk s = neopixel_show_solid (word_of_nat i) 9 r g b s"
    by (simp add: show_risk_def rgb)
  note wf = slave_inv_parts(1) [OF assms(1)]
  note task = neopixel_show_solid_task [OF wf, of "word_of_nat i" 9 r g b]
  note i = word_of_index [OF assms(2)]
  have frame: "frame_slots (unat (9 :: u16)) r g b = policy_frame risk"
    by (simp add: policy_frame_def rgb)
  show ?thesis
  proof (cases "channel_ready s ! i = 0")
    case True
    then have "neopixel_show_solid (word_of_nat i) 9 r g b s = (HAL_ERROR, s)"
      using i by (simp add: neopixel_show_solid_def)
    then show ?thesis using step_refl [OF assms(1)] by (simp add: sh)
  next
    case False
    then have ready: "channel_ready s ! unat (word_of_nat i :: u32) \<noteq> 0" using i by simp
    note f = neopixel_show_solid_frame [OF wf conjunct1 [OF i] _ _ ready, of 9 r g b]
    show ?thesis
    proof (cases "off_lag (hw_stream (neopixel_hw (strip_of (word_of_nat i)))) s < 100000")
      case True
      then obtain e where e: "sl_out (snd (neopixel_show_solid (word_of_nat i) 9 r g b s)) = sl_out s @ [e]"
        "frame_trace (strip_of (word_of_nat i)) (policy_frame risk)
           (fst (neopixel_show_solid (word_of_nat i) 9 r g b s)) e"
        using f frame by (auto simp: Let_def split_def)
      from step_of_task [OF assms(1) task e(1)] show ?thesis
        using effect_ok_trace [OF e(2) assms(3)] by (simp add: sh)
    next
      case False
      then have "sl_out (snd (neopixel_show_solid (word_of_nat i) 9 r g b s)) = sl_out s @ []"
        using f by (simp add: Let_def split_def)
      from step_of_task [OF assms(1) task this] show ?thesis by (simp add: sh)
    qed
  qed
qed

text \<open>A success is a complete frame of the level's colour on the strip.\<close>

lemma show_risk_ok_frame:
  assumes "slave_inv s" "i < 2" "risk \<le> 2" "fst (show_risk i risk s) = HAL_OK"
  shows "sl_out (snd (show_risk i risk s)) =
      sl_out s @ [StripFrame (strip_of (word_of_nat i)) (policy_frame risk) HAL_OK]"
proof -
  obtain r g b where rgb: "policy_rgb risk = (r, g, b)" by (metis prod_cases3)
  note i = word_of_index [OF assms(2)]
  have sh: "show_risk i risk s = neopixel_show_solid (word_of_nat i) 9 r g b s"
    by (simp add: show_risk_def rgb)
  have "channel_ready s ! i \<noteq> 0"
    using assms(4) i unfolding sh neopixel_show_solid_def by (auto split: if_splits)
  then have ready: "channel_ready s ! unat (word_of_nat i :: u32) \<noteq> 0" using i by simp
  show ?thesis
    using neopixel_show_solid_frame [OF slave_inv_parts(1) [OF assms(1)] conjunct1 [OF i] _ _ ready, of 9 r g b]
      assms(4)
    by (auto simp: sh Let_def split_def policy_frame_def rgb split: if_splits)
qed

lemma strip_show_unfold:
  assumes "slave_inv s" "i < 2" "risk \<le> 2"
  shows "strip_show i risk s =
    (let (status, s1) = show_risk i risk s
     in (status, if status \<noteq> HAL_OK then
           slave_print (if status = HAL_TIMEOUT then cstr '' DMA timeout'' @ [CR, LF]
                        else cstr '' show error'' @ [CR, LF])
             (slave_print (cstr (co_set_name (channel_output (my_slave_id s) ! i)))
               (slave_print (cstr ''!! strip '') s1))
         else s1))"
  unfolding strip_show_def strip_colour_policy [OF assms(3)] Let_def
    co_strip_number [OF slave_inv_parts(3) [OF assms(1)] assms(2)] show_risk_def
  by (simp add: split_def)

lemma strip_show_step:
  assumes "slave_inv s" "i < 2" "risk \<le> 2"
  shows "step_rel s (snd (strip_show i risk s))" "fst (strip_show i risk s) = fst (show_risk i risk s)"
proof -
  have "step_rel s (slave_print z (slave_print y (slave_print x (snd (show_risk i risk s)))))" for x y z
    by (intro step_then [OF _ slave_print_step] show_risk_step assms)
  then show "step_rel s (snd (strip_show i risk s))"
    using show_risk_step [OF assms] unfolding strip_show_unfold [OF assms] Let_def split_def by simp
  show "fst (strip_show i risk s) = fst (show_risk i risk s)"
    unfolding strip_show_unfold [OF assms] Let_def split_def by simp
qed

lemma strip_show_ok_print:
  assumes "slave_inv s" "i < 2" "risk \<le> 2" "fst (show_risk i risk s) = HAL_OK"
  shows "snd (strip_show i risk s) = snd (show_risk i risk s)"
  unfolding strip_show_unfold [OF assms(1-3)] Let_def split_def using assms(4) by simp

lemma mark_shown_inv:
  assumes "slave_inv s" "risk \<le> 2"
  shows "loop_rel s (veda_strip_mark_shown i risk s)"
proof -
  have "list_all (\<lambda>r. r \<le> 2) ((strip_shown_risk s)[i := risk])"
    using assms set_update_subset_insert [of "strip_shown_risk s" i risk]
    by (auto simp: slave_inv_def list_all_iff)
  then show ?thesis
    using assms(1) by (simp add: veda_strip_mark_shown_def loop_rel_def slave_inv_def strip_wf_def de_low_def)
qed

lemma clear_pending_inv:
  assumes "slave_inv s"
  shows "loop_rel s (s\<lparr> strip_update_pending := (strip_update_pending s)[i := 0] \<rparr>)"
proof -
  have "slave_wf (s\<lparr> strip_update_pending := (strip_update_pending s)[i := 0] \<rparr>)"
    using slave_inv_parts(2) [OF assms] by (simp add: slave_wf_def slave_line_wf_def ack_slot_ok_def)
  then show ?thesis
    using assms by (simp add: loop_rel_def slave_inv_def strip_wf_def de_low_def)
qed

lemma channel_risk_le2: "slave_inv s \<Longrightarrow> i < 2 \<Longrightarrow> channel_risk s ! i \<le> 2"
  using slave_inv_parts(2) [of s] by (simp add: slave_wf_def list_all_length)

lemma neopixel_service_one_inv:
  assumes "slave_inv s" "i < 2"
  shows "loop_rel s (neopixel_service_one i s)"
proof (cases "strip_update_pending s ! i = 0")
  case True
  then show ?thesis using assms by (simp add: neopixel_service_one_def loop_refl)
next
  case False
  let ?s1 = "s\<lparr> strip_update_pending := (strip_update_pending s)[i := 0] \<rparr>"
  have c: "loop_rel s ?s1" using clear_pending_inv [OF assms(1)] .
  then have inv1: "slave_inv ?s1" by (simp add: loop_rel_def)
  have le: "channel_risk s ! i \<le> 2" using channel_risk_le2 [OF assms] .
  note sh = step_loop [OF strip_show_step(1) [OF inv1 assms(2) le]]
  have inv2: "slave_inv (snd (strip_show i (channel_risk s ! i) ?s1))"
    using sh by (simp add: loop_rel_def)
  show ?thesis
    using False c loop_trans [OF c sh] loop_trans [OF loop_trans [OF c sh] mark_shown_inv [OF inv2 le]]
    by (simp add: neopixel_service_one_def Let_def split_def)
qed

lemma service_two:
  "buildable (my_slave_id s) \<Longrightarrow> neopixel_service s = neopixel_service_one 1 (neopixel_service_one 0 s)"
proof -
  have "[0..<2] = [0, 1 :: nat]" by (simp add: upt_rec)
  moreover assume "buildable (my_slave_id s)"
  ultimately show ?thesis by (simp add: neopixel_service_def)
qed

lemma neopixel_service_inv:
  assumes "slave_inv s"
  shows "loop_rel s (neopixel_service s)"
proof -
  have a: "loop_rel s (neopixel_service_one 0 s)" by (rule neopixel_service_one_inv [OF assms]) simp
  then have "slave_inv (neopixel_service_one 0 s)" by (simp add: loop_rel_def)
  then have "loop_rel (neopixel_service_one 0 s) (neopixel_service_one 1 (neopixel_service_one 0 s))"
    by (rule neopixel_service_one_inv) simp
  then show ?thesis
    using loop_trans [OF a] by (simp add: service_two slave_inv_parts(3) [OF assms])
qed

subsection \<open>One turn of the loop\<close>

lemma slave_supervisor_iter_inv:
  assumes "slave_inv s" "de_low s"
  shows "loop_rel s (slave_supervisor_iter s)"
proof -
  have chain: "loop_rel s (f t)" if "loop_rel s t" "\<And>t. slave_inv t \<Longrightarrow> loop_rel t (f t)" for t f
    using that loop_trans by (auto simp: loop_rel_def)
  have win: "loop_rel t (interrupt_window t)" "loop_rel t (osDelay n t)" if "slave_inv t" for t n
    using that delay_step(1,3) [OF that slave_inv_parts(2) [OF that]] by (simp_all add: step_loop)
  note w = chain [where f = interrupt_window, OF _ win(1)]
  note d = chain [where f = veda_debug_line_service, OF _ step_loop [OF debug_line_service_step]]
  note n = chain [where f = neopixel_service, OF _ neopixel_service_inv]
  note i = chain [where f = veda_rs485_idle_service, OF _ step_loop [OF idle_service_step]]
  note k = chain [where f = veda_debug_loop_tick, OF _ step_loop [OF loop_tick_step]]
  show ?thesis
    unfolding slave_supervisor_iter_def Let_def
    by (rule chain [where f = "osDelay 10", OF _ win(2)])
      (rule w k w i w n w d w step_loop [OF ack_service_step [OF assms]] | assumption)+
qed

end
