(* ===== verification/Slave_Boot.thy ===== *)
theory Slave_Boot
  imports Slave_Loop
begin

text \<open>Booting a slave: main.c and stm32f4xx_hal_msp.c, the part of the supervisor before its loop, and
  the running slave as a reachability relation. The same code is both slaves: MY_SLAVE_ID is the
  parameter.\<close>

record slave_env =
  se_osc_ok :: bool
  se_clk_ok :: bool
  se_uart_ok :: "uart \<Rightarrow> bool"
  se_thread_ok :: bool

definition MX_GPIO_Init_slave :: "board \<Rightarrow> board" where
  "MX_GPIO_Init_slave b =
     HAL_GPIO_Init GPIOA [0, 5] Mode_Output_PP
       (HAL_GPIO_Init GPIOC [13] Mode_IT_Falling (HAL_GPIO_WritePin GPIOA [0, 5] False b))"

definition HAL_UART_MspInit_slave :: "uart \<Rightarrow> board \<Rightarrow> board" where
  "HAL_UART_MspInit_slave u b =
     (case u of
        USART1 \<Rightarrow> HAL_NVIC_Enable USART1 5 (HAL_GPIO_Init GPIOA [9, 10] (Mode_AF_PP 7) b)
      | USART2 \<Rightarrow> HAL_GPIO_Init GPIOA [2, 3] (Mode_AF_PP 7) b
      | USART6 \<Rightarrow> b)"

definition HAL_UART_MspDeInit_slave :: "uart \<Rightarrow> board \<Rightarrow> board" where
  "HAL_UART_MspDeInit_slave u b =
     (case u of
        USART1 \<Rightarrow> HAL_GPIO_Init GPIOA [9, 10] Mode_Input b
      | USART2 \<Rightarrow> HAL_GPIO_Init GPIOA [2, 3] Mode_Input b
      | USART6 \<Rightarrow> b)"

definition MX_USART1_UART_Init_slave :: "slave_env \<Rightarrow> board \<Rightarrow> boot_error + board" where
  "MX_USART1_UART_Init_slave e b =
     HAL_UART_Init (se_uart_ok e USART1) HAL_UART_MspInit_slave USART1 uart_115200_8n1 b"

definition MX_USART2_UART_Init_slave :: "slave_env \<Rightarrow> board \<Rightarrow> boot_error + board" where
  "MX_USART2_UART_Init_slave e b =
     HAL_UART_Init (se_uart_ok e USART2) HAL_UART_MspInit_slave USART2 uart_115200_8n1 b"

text \<open>Memory and peripherals after reset.\<close>

definition tim_reset :: tim_regs where
  "tim_reset = \<lparr> tim_CR1 = 0, tim_CR2 = 0, tim_SMCR = 0, tim_DIER = 0, tim_SR = 0, tim_CCMR1 = 0,
     tim_CCER = 0, tim_CNT = 0, tim_PSC = 0, tim_ARR = 0xFFFF, tim_CCR1 = 0, tim_CCR2 = 0 \<rparr>"

definition stream_reset :: dma_stream where
  "stream_reset = \<lparr> sx_CR = 0, sx_NDTR = 0, sx_PAR = Addr_None, sx_M0AR = Addr_None, sx_FCR = 0x21, sx_lag = 0 \<rparr>"

record slave_plan =
  plan_calls :: "(hal_status \<times> (nat \<times> slave_irq) list) list"
  plan_polls :: "poll list list"
  plan_lags :: "nat list"

definition slave_memory :: "u8 \<Rightarrow> u32 \<Rightarrow> slave_plan \<Rightarrow> board \<Rightarrow> slave" where
  "slave_memory my t plan b = \<lparr> my_slave_id = my, sl_board = b, channel_risk = [0, 0],
     rs485_line = replicate 16 0, rs485_line_length = 0, rs485_line_overflow = 0,
     rs485_last_rx_msec = 0, rx_armed = False, ack_pending = 0, ack_channel_slot = 0,
     ack_risk_slot = 0, strip_update_pending = [0, 0], strip_shown_risk = [0, 0],
     debug_line = replicate 17 0, debug_verdict = 0, debug_ready = 0, loop_count = 0,
     loop_report_msec = 0, tim3 = tim_reset, dma1 = (\<lambda>_. stream_reset), dma_HISR = 0,
     pwm_data = replicate 696 0, channel_ready = [0, 0], sl_tick = t, sl_calls = plan_calls plan,
     sl_polls = plan_polls plan, sl_lags = plan_lags plan, sl_out = [] \<rparr>"

definition slave_main :: "slave_env \<Rightarrow> u8 \<Rightarrow> u32 \<Rightarrow> slave_plan \<Rightarrow> boot_error + slave" where
  "slave_main e my t plan =
     bind_boot (SystemClock_Config (se_osc_ok e) (se_clk_ok e) board_reset) (\<lambda>b.
     bind_boot (MX_USART2_UART_Init_slave e (MX_GPIO_Init_slave b)) (\<lambda>b.
     bind_boot (MX_USART1_UART_Init_slave e b) (\<lambda>b.
     require (se_thread_ok e) Err_Threads (channel_hardware_init (slave_memory my t plan b)))))"

subsection \<open>The state the task starts from\<close>

definition slave_board0 :: board where
  "slave_board0 = \<lparr> pin_mode_of = (\<lambda>p. if p = (GPIOA, 9) \<or> p = (GPIOA, 10) then Mode_AF_PP 7
       else if p = (GPIOA, 2) \<or> p = (GPIOA, 3) then Mode_AF_PP 7
       else if p = (GPIOA, 0) \<or> p = (GPIOA, 1) \<or> p = (GPIOA, 5) \<or> p = (GPIOA, 8) \<or> p = (GPIOB, 5)
         then Mode_Output_PP
       else if p = (GPIOC, 13) then Mode_IT_Falling else Mode_Input),
     pin_level = (\<lambda>_. False), osc = Some osc_config, clk = Some clk_config,
     uart_cfg = (\<lambda>u. if u = USART6 then None else Some uart_115200_8n1),
     irq_prio = (\<lambda>u. if u = USART1 then Some 5 else None) \<rparr>"

definition slave_state0 :: "u8 \<Rightarrow> u32 \<Rightarrow> slave_plan \<Rightarrow> slave" where
  "slave_state0 my t plan = slave_memory my t plan slave_board0"

lemma channel_hardware_init_eq:
  assumes "buildable (my_slave_id s)"
  shows "channel_hardware_init s = on_board
    (HAL_GPIO_Init GPIOA [8] Mode_Output_PP \<circ> HAL_GPIO_WritePin GPIOA [8] False \<circ>
     HAL_GPIO_Init GPIOA [1] Mode_Output_PP \<circ> HAL_GPIO_WritePin GPIOA [1] False \<circ>
     HAL_GPIO_Init GPIOB [5] Mode_Output_PP \<circ> HAL_GPIO_WritePin GPIOB [5] False \<circ>
     HAL_GPIO_Init GPIOA [0] Mode_Output_PP \<circ> HAL_GPIO_WritePin GPIOA [0] False) s"
proof -
  have "map co_relay (channel_output (my_slave_id s)) = [(GPIOA, 0), (GPIOA, 1)]"
    "map co_buzzer (channel_output (my_slave_id s)) = [(GPIOB, 5), (GPIOA, 8)]"
    using assms by (auto simp: buildable_def channel_output_def)
  then obtain a b where "channel_output (my_slave_id s) = [a, b]" "co_relay a = (GPIOA, 0)"
    "co_relay b = (GPIOA, 1)" "co_buzzer a = (GPIOB, 5)" "co_buzzer b = (GPIOA, 8)" by auto
  then show ?thesis
    by (simp add: channel_hardware_init_def Let_def write_pin_def on_board_def)
qed

lemma slave_board_config:
  "(HAL_GPIO_Init GPIOA [8] Mode_Output_PP \<circ> HAL_GPIO_WritePin GPIOA [8] False \<circ>
     HAL_GPIO_Init GPIOA [1] Mode_Output_PP \<circ> HAL_GPIO_WritePin GPIOA [1] False \<circ>
     HAL_GPIO_Init GPIOB [5] Mode_Output_PP \<circ> HAL_GPIO_WritePin GPIOB [5] False \<circ>
     HAL_GPIO_Init GPIOA [0] Mode_Output_PP \<circ> HAL_GPIO_WritePin GPIOA [0] False)
   ((HAL_UART_MspInit_slave USART1 ((HAL_UART_MspInit_slave USART2
       (MX_GPIO_Init_slave (board_reset\<lparr> osc := Some osc_config, clk := Some clk_config \<rparr>)))
         \<lparr> uart_cfg := Map.empty(USART2 \<mapsto> uart_115200_8n1) \<rparr>))
       \<lparr> uart_cfg := Map.empty(USART2 \<mapsto> uart_115200_8n1, USART1 \<mapsto> uart_115200_8n1) \<rparr>) = slave_board0"
proof -
  have u: "Map.empty(USART2 \<mapsto> uart_115200_8n1, USART1 \<mapsto> uart_115200_8n1)
      = (\<lambda>u. if u = USART6 then None else Some uart_115200_8n1)"
  proof
    fix u show "(Map.empty(USART2 \<mapsto> uart_115200_8n1, USART1 \<mapsto> uart_115200_8n1)) u
      = (if u = USART6 then None else Some uart_115200_8n1)" by (cases u) simp_all
  qed
  show ?thesis
    unfolding u
    by (simp add: HAL_NVIC_Enable_def HAL_UART_MspInit_slave_def HAL_GPIO_Init_def HAL_GPIO_WritePin_def
        MX_GPIO_Init_slave_def board_reset_def slave_board0_def) (auto simp: fun_eq_iff)
qed

lemma slave_main_unfold:
  assumes "buildable my"
  shows "slave_main e my t plan =
    (if \<not> se_osc_ok e then Inl Err_Osc else if \<not> se_clk_ok e then Inl Err_Clock
     else if \<not> se_uart_ok e USART2 then Inl (Err_Uart USART2)
     else if \<not> se_uart_ok e USART1 then Inl (Err_Uart USART1)
     else if \<not> se_thread_ok e then Inl Err_Threads
     else Inr (slave_state0 my t plan))"
proof -
  have cfg: "uart_cfg (HAL_UART_MspInit_slave u b) = uart_cfg b" "uart_cfg (MX_GPIO_Init_slave b) = uart_cfg b" for u b
    by (simp_all add: HAL_UART_MspInit_slave_def HAL_NVIC_Enable_def HAL_GPIO_Init_def MX_GPIO_Init_slave_def
        HAL_GPIO_WritePin_def split: uart.split)
  have reset: "uart_cfg board_reset = Map.empty" by (simp add: board_reset_def)
  have hw: "channel_hardware_init (slave_memory my t plan b) = slave_memory my t plan
     ((HAL_GPIO_Init GPIOA [8] Mode_Output_PP \<circ> HAL_GPIO_WritePin GPIOA [8] False \<circ>
     HAL_GPIO_Init GPIOA [1] Mode_Output_PP \<circ> HAL_GPIO_WritePin GPIOA [1] False \<circ>
     HAL_GPIO_Init GPIOB [5] Mode_Output_PP \<circ> HAL_GPIO_WritePin GPIOB [5] False \<circ>
     HAL_GPIO_Init GPIOA [0] Mode_Output_PP \<circ> HAL_GPIO_WritePin GPIOA [0] False) b)" for b
    using channel_hardware_init_eq [of "slave_memory my t plan b"] assms
    by (simp add: slave_memory_def on_board_def)
  show ?thesis
    unfolding slave_main_def hw MX_USART1_UART_Init_slave_def MX_USART2_UART_Init_slave_def
      SystemClock_Config_def HAL_UART_Init_def slave_state0_def slave_board_config [symmetric]
    by (simp add: cfg reset require_def Error_Handler_def bind_boot_def)
qed

lemma slave_state0_inv:
  assumes "buildable my"
  shows "slave_inv (slave_state0 my t plan)"
proof -
  have "outputs_ok (slave_state0 my t plan)"
    unfolding outputs_ok_unfold
    by (simp add: slave_state0_def slave_memory_def pin_shows_def drives_def slave_board0_def)
  then have "slave_wf (slave_state0 my t plan)"
    using assms by (simp add: slave_wf_def slave_line_wf_def ack_slot_ok_def slave_state0_def slave_memory_def)
  moreover have "strip_shown_risk (slave_state0 my t plan) = [0, 0]" "sl_out (slave_state0 my t plan) = []"
    "channel_ready (slave_state0 my t plan) = [0, 0]"
    by (simp_all add: slave_state0_def slave_memory_def)
  ultimately show ?thesis by (simp add: slave_inv_def strip_wf_def less_2_cases_iff)
qed

end
