(* ===== verification/Slave_Reach.thy ===== *)
theory Slave_Reach
  imports Slave_Boot
begin

text \<open>The supervisor's entry (blinking the identifier, the banner, initialising the strips, the DE pin,
  arming reception) establishes the loop's invariant, and every reachable state of a running slave
  satisfies it.\<close>

subsection \<open>Initialising a strip\<close>

lemma or_and_keep: "(v :: u32) AND x = x \<Longrightarrow> (v OR b) AND x = x"
  by (simp add: bit.conj_disj_distrib2)

lemma or_and_self: "((v :: u32) OR b) AND b = b"
  by (simp add: word_ao_absorbs)

lemma timer_setup_ready:
  "tim_ready c t \<Longrightarrow> tim_ready c (neopixel_timer_setup hw t)"
  "tim_ready c (neopixel_timer_setup (neopixel_hw c) t)"
  by (simp_all add: tim_ready_def neopixel_timer_setup_def or_and_keep or_and_self)

lemma task_upd [simp]:
  "task_rel s (t\<lparr> dma1 := d \<rparr>) = task_rel s t" "task_rel s (t\<lparr> dma_HISR := h \<rparr>) = task_rel s t"
  "task_rel s (t\<lparr> sl_lags := ll \<rparr>) = task_rel s t"
proof -
  have wf: "strip_wf (t\<lparr> dma1 := d \<rparr>) = strip_wf t" "strip_wf (t\<lparr> dma_HISR := h \<rparr>) = strip_wf t"
    by (simp_all add: strip_wf_def)
  show "task_rel s (t\<lparr> dma1 := d \<rparr>) = task_rel s t" "task_rel s (t\<lparr> dma_HISR := h \<rparr>) = task_rel s t"
    "task_rel s (t\<lparr> sl_lags := ll \<rparr>) = task_rel s t"
    by (simp_all add: task_rel_def wf strip_noticed_def) (simp_all add: pin_shows_def)
qed

lemma task_tim:
  assumes "task_rel s t" "\<And>c. tim_ready c (tim3 t) \<Longrightarrow> tim_ready c r"
  shows "task_rel s (t\<lparr> tim3 := r \<rparr>)"
proof -
  have "strip_wf t" using assms(1) by (simp add: task_rel_def)
  then have "strip_wf (t\<lparr> tim3 := r \<rparr>)" using assms(2) by (simp add: strip_wf_def)
  then show ?thesis
    using assms(1) by (simp add: task_rel_def strip_noticed_def) (simp add: pin_shows_def)
qed

lemma task_pwm_ready:
  assumes "task_rel s t" "tim_ready (strip_of (word_of_nat i)) (tim3 t)" "i < 2"
  shows "task_rel s (t\<lparr> pwm_data := replicate 696 0, channel_ready := (channel_ready t)[i := 1] \<rparr>)"
proof -
  have wf: "strip_wf t" using assms(1) by (simp add: task_rel_def)
  have "strip_wf (t\<lparr> pwm_data := replicate 696 0, channel_ready := (channel_ready t)[i := 1] \<rparr>)"
    using wf assms(2,3) pwm_ok_blank by (simp add: strip_wf_def nth_list_update)
  then show ?thesis
    using assms(1) by (simp add: task_rel_def strip_noticed_def) (simp add: pin_shows_def)
qed

lemma write_CR_task [simp]: "task_rel s (write_CR i v t) = task_rel s t" "tim3 (write_CR i v t) = tim3 t"
  "sl_out (write_CR i v t) = sl_out t"
  by (simp_all add: write_CR_def upd_stream_def split: list.split)

lemma disable_task [simp]: "task_rel s (snd (dma_stream_disable i t)) = task_rel s t"
  by (simp add: dma_stream_disable_spec upd_stream_def)

lemma pin_shows_gpio_init:
  "pin_shows (on_board (HAL_GPIO_Init port ps m) s) q =
    (if fst q = port \<and> snd q \<in> set ps
     then (if m = Mode_Output_PP then Some (pin_level (sl_board s) q) else None) else pin_shows s q)"
  by (simp add: pin_shows_def on_board_def drives_def HAL_GPIO_Init_def)

lemma on_board_fields [simp]:
  "channel_ready (on_board f s) = channel_ready s" "strip_shown_risk (on_board f s) = strip_shown_risk s"
  "tim3 (on_board f s) = tim3 s" "pwm_data (on_board f s) = pwm_data s" "rx_armed (on_board f s) = rx_armed s"
  "my_slave_id (on_board f s) = my_slave_id s" "channel_risk (on_board f s) = channel_risk s"
  "strip_update_pending (on_board f s) = strip_update_pending s" "sl_out (on_board f s) = sl_out s"
  by (simp_all add: on_board_def)

text \<open>Configuring pins that carry no output of a channel.\<close>

definition channel_pins :: "(gpio_port \<times> nat) set" where
  "channel_pins = {(GPIOA, 0), (GPIOA, 1), (GPIOB, 5), (GPIOA, 8), (GPIOA, 5)}"

lemma on_board_wf:
  assumes "strip_wf s" "\<And>q. q \<in> channel_pins \<Longrightarrow> pin_shows (on_board f s) q = pin_shows s q"
  shows "strip_wf (on_board f s)"
proof -
  have "outputs_ok (on_board f s) = outputs_ok s"
    unfolding outputs_ok_unfold using assms(2) by (simp add: channel_pins_def)
  then have "slave_wf (on_board f s)"
    using strip_wf_slave [OF assms(1)] by (simp add: slave_wf_def slave_line_wf_def ack_slot_ok_def on_board_def)
  then show ?thesis using assms(1) by (simp add: strip_wf_def)
qed

lemma strip_pin_task:
  assumes "strip_wf s"
  shows "task_rel s (on_board (HAL_GPIO_Init (hw_port (neopixel_hw c)) [hw_pin (neopixel_hw c)] m) s)"
proof -
  let ?f = "HAL_GPIO_Init (hw_port (neopixel_hw c)) [hw_pin (neopixel_hw c)] m"
  have pins: "hw_port (neopixel_hw c) = GPIOA" "hw_pin (neopixel_hw c) = 6 \<or> hw_pin (neopixel_hw c) = 7"
    by (cases c; simp add: neopixel_hw_def)+
  have same: "pin_shows (on_board ?f s) q = pin_shows s q" if "q \<in> channel_pins \<or> q = RS485_DE" for q
    using that pins by (auto simp: pin_shows_gpio_init channel_pins_def)
  have "strip_wf (on_board ?f s)" by (rule on_board_wf [OF assms]) (simp add: same)
  then show ?thesis by (simp add: task_rel_def strip_noticed_def same)
qed

text \<open>The two halves of an initialisation: up to switching the stream off, and after it.\<close>

definition init_off :: "u32 \<Rightarrow> slave \<Rightarrow> u8 \<times> slave" where
  "init_off channel s =
     (let hw = neopixel_hw (strip_of channel);
          s1 = on_board (HAL_GPIO_Init (hw_port hw) [hw_pin hw] (Mode_AF_PP (hw_alternate hw))) s
      in dma_stream_disable (hw_stream hw) (write_CR (hw_stream hw) 0 (upd_tim (neopixel_timer_setup hw) s1)))"

definition init_done :: "u32 \<Rightarrow> slave \<Rightarrow> slave" where
  "init_done channel s =
     (let hw = neopixel_hw (strip_of channel);
          s1 = write_HIFCR (hw_dma_clear_flags hw) (upd_stream (hw_stream hw) (\<lambda>x. x\<lparr> sx_FCR := 0 \<rparr>) s)
      in s1\<lparr> pwm_data := replicate 696 0, channel_ready := (channel_ready s1)[unat channel := 1] \<rparr>)"

lemma neopixel_init_unfold:
  "neopixel_init channel s =
    (if \<not> channel < 2 \<or> timer_input_clock_hz (sl_board s) \<noteq> 84000000 then (HAL_ERROR, s)
     else if fst (init_off channel s) = 0 then (HAL_ERROR, snd (init_off channel s))
     else (HAL_OK, HAL_Delay 1 (init_done channel (snd (init_off channel s)))))"
  by (auto simp: neopixel_init_def init_off_def init_done_def Let_def split_def)

lemma init_off_lag: "fst (init_off channel s) = of_flag (off_lag (hw_stream (neopixel_hw (strip_of channel))) s < 100000)"
  by (simp add: init_off_def Let_def dma_stream_disable_spec off_lag_def write_CR_def upd_tim_def on_board_def
      upd_stream_def split: list.split)

lemma init_off_keeps:
  "tim3 (snd (init_off channel s)) = neopixel_timer_setup (neopixel_hw (strip_of channel)) (tim3 s)"
  "channel_ready (snd (init_off channel s)) = channel_ready s" "sl_out (snd (init_off channel s)) = sl_out s"
  by (simp_all add: init_off_def Let_def write_CR_def upd_tim_def on_board_def upd_stream_def split: list.split)

lemma init_done_keeps:
  "tim3 (init_done channel s) = tim3 s" "pwm_data (init_done channel s) = replicate 696 0"
  "channel_ready (init_done channel s) = (channel_ready s)[unat channel := 1]" "sl_out (init_done channel s) = sl_out s"
  by (simp_all add: init_done_def Let_def write_HIFCR_def upd_stream_def)

lemma init_off_task: "strip_wf s \<Longrightarrow> task_rel s (snd (init_off channel s))"
proof -
  let ?hw = "neopixel_hw (strip_of channel)"
  let ?s1 = "on_board (HAL_GPIO_Init (hw_port ?hw) [hw_pin ?hw] (Mode_AF_PP (hw_alternate ?hw))) s"
  assume "strip_wf s"
  then have "task_rel s (upd_tim (neopixel_timer_setup ?hw) ?s1)"
    unfolding upd_tim_def by (intro task_tim [OF strip_pin_task] timer_setup_ready(1))
  then show ?thesis by (simp add: init_off_def Let_def)
qed

lemma init_done_task:
  assumes "channel < 2" "task_rel s t" "tim_ready (strip_of channel) (tim3 t)"
  shows "task_rel s (init_done channel t)"
proof -
  have i: "unat channel < 2" using assms(1) by (simp add: word_less_nat_alt)
  show ?thesis
    unfolding init_done_def Let_def
    by (rule task_pwm_ready [OF _ _ i]) (use assms(2,3) in \<open>simp_all add: write_HIFCR_def upd_stream_def\<close>)
qed

lemma init_ready_task:
  assumes "strip_wf s" "channel < 2"
  shows "task_rel s (init_done channel (snd (init_off channel s)))"
  by (intro init_done_task assms init_off_task) (simp add: init_off_keeps timer_setup_ready(2))

lemma neopixel_init_task:
  assumes "strip_wf s"
  shows "task_rel s (snd (neopixel_init channel s))"
    "sl_out (snd (neopixel_init channel s)) = sl_out s"
proof -
  let ?t = "init_done channel (snd (init_off channel s))"
  have "task_rel s (HAL_Delay 1 ?t) \<and> sl_out (HAL_Delay 1 ?t) = sl_out s" if "channel < 2"
  proof -
    note t = init_ready_task [OF assms that]
    then have wf: "strip_wf ?t" by (simp add: task_rel_def)
    note d = HAL_Delay_quiet [OF strip_wf_slave [OF wf], of 1]
    show ?thesis
      using task_rel_trans [OF t drv_task [OF wf d(1)]] d(2) by (simp add: init_done_keeps init_off_keeps)
  qed
  then show "task_rel s (snd (neopixel_init channel s))"
    "sl_out (snd (neopixel_init channel s)) = sl_out s"
    using init_off_task [OF assms] task_rel_refl [OF assms]
    by (auto simp: neopixel_init_unfold init_off_keeps)
qed

lemma neopixel_init_step: "slave_inv s \<Longrightarrow> step_rel s (snd (neopixel_init channel s))"
  using step_of_task [of s _ "[]"] neopixel_init_task [OF slave_inv_parts(1)] by simp

subsection \<open>Before the loop\<close>

lemma strip_boot_one_inv:
  assumes "slave_inv s" "i < 2"
  shows "loop_rel s (strip_boot_one i s)"
proof -
  let ?n = "strip_number (co_strip (channel_output (my_slave_id s) ! i))"
  let ?s1 = "snd (neopixel_init ?n s)"
  have i: "step_rel s ?s1" by (rule neopixel_init_step [OF assms(1)])
  note inv1 = step_inv [OF i]
  have p: "step_rel s (slave_print c (slave_print b (slave_print a ?s1)))" for a b c
    by (intro step_then [OF _ slave_print_step] i)
  have sh: "step_rel s (snd (strip_show i 0 ?s1))"
    using step_trans [OF i strip_show_step(1) [OF inv1 assms(2), of 0]] by simp
  have "loop_rel s (veda_strip_mark_shown i 0 (snd (strip_show i 0 ?s1)))"
    using loop_trans [OF step_loop [OF sh] mark_shown_inv [OF step_inv [OF sh], of 0 i]] by simp
  then show ?thesis
    using step_loop [OF p] step_loop [OF sh]
    by (simp add: strip_boot_one_def Let_def split_def VEDA_RISK_NONE_def)
qed

lemma strip_boot_inv:
  assumes "slave_inv s"
  shows "loop_rel s (veda_supervisor_strip_boot s)"
proof -
  have two: "[0..<2] = [0, 1 :: nat]" by (simp add: upt_rec)
  have a: "loop_rel s (strip_boot_one 0 s)" by (rule strip_boot_one_inv [OF assms]) simp
  then have "loop_rel (strip_boot_one 0 s) (strip_boot_one 1 (strip_boot_one 0 s))"
    by (intro strip_boot_one_inv) (simp_all add: loop_rel_def)
  then show ?thesis
    using loop_trans [OF a] slave_inv_parts(3) [OF assms]
    by (simp add: veda_supervisor_strip_boot_def two)
qed

lemma banner_entry_step:
  assumes "slave_inv s"
  shows "step_rel s (banner_entry i s)"
proof -
  note pr = step_then [OF _ slave_print_step] step_then [OF _ slave_print_more(1)]
  show ?thesis
    unfolding banner_entry_def Let_def
    using step_refl [OF assms] by (auto intro!: pr)
qed

lemma banner_step:
  assumes "slave_inv s"
  shows "step_rel s (veda_supervisor_banner_slave s)"
proof -
  have two: "[0..<2] = [0, 1 :: nat]" by (simp add: upt_rec)
  note pr = step_then [OF _ slave_print_step] step_then [OF _ slave_print_more(1)]
    step_then [OF _ banner_entry_step]
  show ?thesis
    unfolding veda_supervisor_banner_slave_def Let_def
      channel_output_count [OF slave_inv_parts(3) [OF assms]] two
    using step_refl [OF assms] by (auto intro!: pr simp del: slave_config)
qed

text \<open>While reception is not armed, a delay only lets time pass.\<close>

lemma wait_unarmed:
  assumes "\<not> rx_armed s"
  shows "wait_events evs s = s\<lparr> sl_tick := sl_tick (wait_events evs s) \<rparr>"
proof -
  have irq: "USART1_IRQHandler i t = t" if "\<not> rx_armed t" for i t
    using that by (simp add: USART1_IRQHandler_def)
  have step: "(case e of (d, i) \<Rightarrow> \<lambda>s. USART1_IRQHandler i (slave_pass d s)) t = slave_pass (fst e) t"
    if "\<not> rx_armed t" for e t
    using that by (cases e) (simp add: irq slave_pass_def)
  have "\<exists>n. wait_events evs t = t\<lparr> sl_tick := n \<rparr>" if "\<not> rx_armed t" for t
    using that unfolding wait_events_def
  proof (induction evs arbitrary: t)
    case Nil
    have "t = t\<lparr> sl_tick := sl_tick t \<rparr>" by simp
    then show ?case unfolding fold_simps by blast
  next
    case (Cons e evs)
    have "\<not> rx_armed (slave_pass (fst e) t)" using Cons.prems by (simp add: slave_pass_def)
    from Cons.IH [OF this] obtain n where
      "fold (\<lambda>(d, i) s. USART1_IRQHandler i (slave_pass d s)) evs (slave_pass (fst e) t)
        = (slave_pass (fst e) t)\<lparr> sl_tick := n \<rparr>" by blast
    then show ?case using step [OF Cons.prems, of e] by (auto simp: slave_pass_def)
  qed
  then obtain n where "wait_events evs s = s\<lparr> sl_tick := n \<rparr>" using assms by blast
  then show ?thesis by simp
qed

lemma osDelay_unarmed:
  assumes "\<not> rx_armed s"
  obtains n c where "osDelay k s = s\<lparr> sl_calls := c, sl_tick := n \<rparr>"
proof -
  obtain st evs c where nc: "next_call s = ((st, evs), s\<lparr> sl_calls := c \<rparr>)"
  proof (cases "sl_calls s")
    case Nil
    have "s = s\<lparr> sl_calls := sl_calls s \<rparr>" by simp
    then have "next_call s = ((HAL_OK, []), s\<lparr> sl_calls := sl_calls s \<rparr>)"
      using Nil by (simp add: next_call_def)
    then show ?thesis by (rule that)
  next
    case (Cons d ds)
    then have "next_call s = ((fst d, snd d), s\<lparr> sl_calls := ds \<rparr>)" by (simp add: next_call_def)
    then show ?thesis by (rule that)
  qed
  have "\<not> rx_armed (s\<lparr> sl_calls := c \<rparr>)" using assms by simp
  from wait_unarmed [OF this, of evs] obtain n where "wait_events evs (s\<lparr> sl_calls := c \<rparr>) = s\<lparr> sl_calls := c, sl_tick := n \<rparr>"
    by simp
  then show ?thesis
    using that by (simp add: osDelay_def nc slave_pass_def)
qed

text \<open>Blinking leaves the LED dark again.\<close>

lemma blink_once_inv:
  assumes "slave_inv s" "\<not> rx_armed s" "channel_risk s = [0, 0]"
  shows "slave_inv (osDelay a (write_pin LD2 False (osDelay b (write_pin LD2 True s))))
    \<and> \<not> rx_armed (osDelay a (write_pin LD2 False (osDelay b (write_pin LD2 True s))))
    \<and> channel_risk (osDelay a (write_pin LD2 False (osDelay b (write_pin LD2 True s)))) = [0, 0]
    \<and> my_slave_id (osDelay a (write_pin LD2 False (osDelay b (write_pin LD2 True s)))) = my_slave_id s"
proof -
  let ?s1 = "write_pin LD2 True s"
  have "\<not> rx_armed ?s1" using assms(2) by simp
  then obtain n c where d1: "osDelay b ?s1 = ?s1\<lparr> sl_calls := c, sl_tick := n \<rparr>" by (rule osDelay_unarmed)
  let ?s2 = "write_pin LD2 False (?s1\<lparr> sl_calls := c, sl_tick := n \<rparr>)"
  have "\<not> rx_armed ?s2" using assms(2) by simp
  then obtain n' c' where d2: "osDelay a ?s2 = ?s2\<lparr> sl_calls := c', sl_tick := n' \<rparr>" by (rule osDelay_unarmed)
  have pins: "pin_shows ?s2 q = (if q = LD2 \<and> pin_shows s q \<noteq> None then Some False else pin_shows s q)" for q
  proof -
    have "pin_shows (t\<lparr> sl_calls := c, sl_tick := n \<rparr>) p = pin_shows t p" for t p
      by (simp add: pin_shows_def)
    then show ?thesis by auto
  qed
  have wf: "slave_wf s" using slave_inv_parts(2) [OF assms(1)] .
  then have out: "outputs_ok s" by (simp add: slave_wf_def)
  then have "outputs_ok ?s2" unfolding outputs_ok_unfold pins using assms(3) by simp
  then have "slave_wf ?s2" using wf by (simp add: slave_wf_def slave_line_wf_def ack_slot_ok_def)
  then have "slave_inv ?s2" using assms(1) by (simp add: slave_inv_def strip_wf_def)
  then show ?thesis using assms(2,3) 
    unfolding d1 d2 by simp
qed

lemma blink_id_inv:
  assumes "slave_inv s" "\<not> rx_armed s" "channel_risk s = [0, 0]"
  shows "slave_inv (veda_supervisor_blink_id s) \<and> \<not> rx_armed (veda_supervisor_blink_id s)
    \<and> my_slave_id (veda_supervisor_blink_id s) = my_slave_id s"
proof -
  let ?f = "\<lambda>s. osDelay SLAVE_ID_BLINK_MSEC (write_pin LD2 False (osDelay SLAVE_ID_BLINK_MSEC (write_pin LD2 True s)))"
  have "slave_inv ((?f ^^ k) s) \<and> \<not> rx_armed ((?f ^^ k) s) \<and> channel_risk ((?f ^^ k) s) = [0, 0]
      \<and> my_slave_id ((?f ^^ k) s) = my_slave_id s" for k
  proof (induction k)
    case 0
    then show ?case using assms by simp
  next
    case (Suc k)
    then show ?case
      using blink_once_inv [of "(?f ^^ k) s"] by (simp del: slave_pins slave_config)
  qed
  from this [of "unat (my_slave_id s)"] show ?thesis
    unfolding veda_supervisor_blink_id_def by blast
qed

lemma de_init_inv:
  assumes "slave_inv s"
  shows "slave_inv (rs485_de_init_slave s)" "de_low (rs485_de_init_slave s)"
    "my_slave_id (rs485_de_init_slave s) = my_slave_id s"
proof -
  let ?t = "write_pin RS485_DE False s"
  have t: "slave_inv ?t" using write_de_step(1) [OF assms] .
  have "strip_wf (rs485_de_init_slave s)"
    unfolding rs485_de_init_slave_def
    by (rule on_board_wf [OF slave_inv_parts(1) [OF t]]) (auto simp: pin_shows_gpio_init channel_pins_def)
  then show "slave_inv (rs485_de_init_slave s)"
    using assms by (simp add: slave_inv_def rs485_de_init_slave_def)
  show "de_low (rs485_de_init_slave s)"
    by (simp add: de_low_def rs485_de_init_slave_def pin_shows_gpio_init)
      (simp add: write_pin_def on_board_def HAL_GPIO_WritePin_def)
  show "my_slave_id (rs485_de_init_slave s) = my_slave_id s"
    by (simp add: rs485_de_init_slave_def)
qed

lemma slave_supervisor_entry_inv:
  assumes "slave_inv s" "\<not> rx_armed s" "channel_risk s = [0, 0]"
  shows "slave_inv (slave_supervisor_entry s) \<and> de_low (slave_supervisor_entry s)
    \<and> rx_armed (slave_supervisor_entry s) \<and> my_slave_id (slave_supervisor_entry s) = my_slave_id s"
proof -
  let ?s1 = "veda_supervisor_blink_id s"
  have b: "slave_inv ?s1" "my_slave_id ?s1 = my_slave_id s" using blink_id_inv [OF assms] by simp_all
  let ?s2 = "veda_supervisor_banner_slave ?s1"
  have l2: "loop_rel ?s1 ?s2" using step_loop [OF banner_step [OF b(1)]] .
  then have i2: "slave_inv ?s2" by (simp add: loop_rel_def)
  let ?s3 = "veda_supervisor_strip_boot ?s2"
  have l3: "loop_rel ?s1 ?s3" using loop_trans [OF l2 strip_boot_inv [OF i2]] .
  then have i3: "slave_inv ?s3" "my_slave_id ?s3 = my_slave_id s" using b(2) by (simp_all add: loop_rel_def)
  let ?s4 = "rs485_de_init_slave ?s3"
  note d = de_init_inv [OF i3(1)]
  let ?s5 = "veda_debug_loop_begin ?s4"
  have l5: "loop_rel ?s4 ?s5" using step_loop [OF loop_begin_step [OF d(1)]] .
  then have i5: "slave_inv ?s5" "de_low ?s5" "my_slave_id ?s5 = my_slave_id s"
    using d(2,3) i3(2) by (simp_all add: loop_rel_def)
  have "slave_inv (veda_rs485_rx_arm_slave ?s5)"
    using i5(1) by (simp add: veda_rs485_rx_arm_slave_def slave_inv_def strip_wf_def)
  then show ?thesis
    using i5 by (simp add: slave_supervisor_entry_def veda_rs485_rx_arm_slave_def de_low_def)
qed

subsection \<open>Reachable states\<close>

text \<open>One turn of the loop; an interrupt or the passing of time between turns; and the outside
  changing its plans.\<close>

inductive slave_step :: "slave \<Rightarrow> slave \<Rightarrow> bool" where
  slave_turn: "slave_step s (slave_supervisor_iter s)"
| slave_irq: "slave_step s (USART1_IRQHandler irq (slave_pass n s))"
| slave_outside: "slave_step s (s\<lparr> sl_calls := calls, sl_polls := polls, sl_lags := lags \<rparr>)"

inductive_cases slave_stepE: "slave_step s t"

definition slave_started :: "u8 \<Rightarrow> u32 \<Rightarrow> slave_plan \<Rightarrow> slave" where
  "slave_started my t plan = slave_supervisor_entry (slave_state0 my t plan)"

inductive slave_reachable :: "u8 \<Rightarrow> slave \<Rightarrow> bool" for my where
  slave_start: "buildable my \<Longrightarrow> slave_reachable my (slave_started my t plan)"
| slave_more: "slave_reachable my s \<Longrightarrow> slave_step s s' \<Longrightarrow> slave_reachable my s'"

text \<open>What holds between two turns.\<close>

definition slave_running :: "slave \<Rightarrow> bool" where
  "slave_running s \<longleftrightarrow> slave_inv s \<and> de_low s \<and> rx_armed s"

lemma slave_started_running:
  assumes "buildable my"
  shows "slave_running (slave_started my t plan) \<and> my_slave_id (slave_started my t plan) = my"
proof -
  have "\<not> rx_armed (slave_state0 my t plan)" "channel_risk (slave_state0 my t plan) = [0, 0]"
    "my_slave_id (slave_state0 my t plan) = my"
    by (simp_all add: slave_state0_def slave_memory_def)
  with slave_supervisor_entry_inv [OF slave_state0_inv [OF assms, of t plan]] show ?thesis
    by (simp add: slave_started_def slave_running_def)
qed

lemma slave_step_running:
  assumes "slave_step s t" "slave_running s"
  shows "slave_running t \<and> my_slave_id t = my_slave_id s"
  using assms
proof (cases rule: slave_step.cases)
  case slave_turn
  then show ?thesis
    using slave_supervisor_iter_inv [of s] assms(2) by (simp add: slave_running_def loop_rel_def)
next
  case (slave_irq irq n)
  have inv: "slave_inv s" using assms(2) by (simp add: slave_running_def)
  have p: "irq_rel s (slave_pass n s)" using slave_pass_inv [OF slave_inv_parts(2) [OF inv]] .
  then have "irq_rel s t"
    using USART1_IRQHandler_inv [of "slave_pass n s" irq] irq_rel_trans [OF p] slave_irq
    by (simp add: irq_rel_def)
  from step_loop [OF step_of_irq [OF inv this]] show ?thesis
    using assms(2) by (simp add: loop_rel_def slave_running_def)
next
  case (slave_outside calls polls lags)
  then show ?thesis
    using assms(2) by (simp add: slave_running_def de_low_def) (simp add: pin_shows_def)
qed

lemma slave_reachable_running: "slave_reachable my s \<Longrightarrow> slave_running s \<and> my_slave_id s = my"
proof (induction rule: slave_reachable.induct)
  case (slave_start t plan)
  then show ?case by (rule slave_started_running)
next
  case (slave_more s s')
  then show ?case using slave_step_running [of s s'] by simp
qed

end
