(* ===== verification/Slave_Properties.thy ===== *)
theory Slave_Properties
  imports Slave_Reach
begin

text \<open>The properties of a slave: which lines it obeys and what it then shows, what it puts on the bus
  and on the strips, and how it recovers.\<close>

definition empty_plan :: slave_plan where
  "empty_plan = \<lparr> plan_calls = [], plan_polls = [], plan_lags = [] \<rparr>"

definition slave_one :: slave where
  "slave_one = slave_state0 1 0 empty_plan"

lemma buildable_one: "buildable 1" by (simp add: buildable_def)

lemma slave_one_wf: "slave_wf slave_one" "slave_inv slave_one" "my_slave_id slave_one = 1"
  "buildable (my_slave_id slave_one)"
  using slave_state0_inv [OF buildable_one, of 0 empty_plan] slave_inv_parts(2,3)
  by (auto simp: slave_one_def) (simp add: slave_state0_def slave_memory_def)

lemma started_one: "slave_reachable 1 (slave_started 1 0 empty_plan)"
  by (rule slave_start [OF buildable_one])

subsection \<open>Commands\<close>

lemma verdict_applied_iff:
  "verdict_of my l = VERDICT_APPLIED \<longleftrightarrow>
     (\<exists>c r. digit19 my \<and> digit19 c \<and> own_channel my c \<and> r \<le> 2 \<and> l = command_bytes my c r)"
proof
  assume "verdict_of my l = VERDICT_APPLIED"
  then obtain c where c: "read_command l = Some c" "cmd_slave c = my" "cmd_risk c \<le> 2"
    "MY_FIRST_CHANNEL my \<le> cmd_channel c" "cmd_channel c \<le> MY_LAST_CHANNEL my"
    by (rule read_verdict_applied)
  then show "\<exists>c r. digit19 my \<and> digit19 c \<and> own_channel my c \<and> r \<le> 2 \<and> l = command_bytes my c r"
    using read_command_iff [of l c] unfolding own_channel_def by blast
next
  assume "\<exists>c r. digit19 my \<and> digit19 c \<and> own_channel my c \<and> r \<le> 2 \<and> l = command_bytes my c r"
  then obtain c r where l: "digit19 my" "digit19 c" "own_channel my c" "r \<le> 2" "l = command_bytes my c r" by blast
  have "read_command l = Some \<lparr> cmd_slave = my, cmd_channel = c, cmd_risk = r \<rparr>"
    using l by (simp add: read_command_iff)
  then show "verdict_of my l = VERDICT_APPLIED"
    using l(3,4) unfolding verdict_of_def own_channel_def by simp
qed

lemma digit19_own:
  assumes "buildable my"
  shows "digit19 my" "own_channel my c \<Longrightarrow> digit19 c"
proof -
  show "digit19 my" using assms by (auto simp: buildable_def digit19_def)
  assume "own_channel my c"
  then have "1 \<le> c \<and> c \<le> 4"
    using assms by (auto simp: own_channel_def buildable_def word_le_nat_alt)
  then show "digit19 c" by (auto simp: digit19_def word_le_nat_alt)
qed

text \<open>The entry of an own channel in the tables.\<close>

lemma own_channel_entry:
  assumes "buildable my" "own_channel my c"
  shows "own_index my c < 2" "co_channel (channel_output my ! own_index my c) = c"
    "channel_output_index my c = word_of_nat (own_index my c)"
proof -
  have c: "MY_FIRST_CHANNEL my \<le> c" "c \<le> MY_LAST_CHANNEL my" using assms(2) unfolding own_channel_def by blast+
  show "own_index my c < 2" by (simp add: own_index_def)
  from assms(1) c show "co_channel (channel_output my ! own_index my c) = c"
    by (rule own_channel_cases) (use assms(1) in \<open>auto simp: own_index_def buildable_def channel_output_def\<close>)
  from assms(1) c show "channel_output_index my c = word_of_nat (own_index my c)"
    by (rule own_channel_cases) (simp_all add: own_index_def channel_output_index_cases [OF assms(1)])
qed

lemma apply_own:
  assumes "buildable (my_slave_id s)" "own_channel (my_slave_id s) c"
  shows "apply_channel_state c r s = applied_to (own_index (my_slave_id s) c) r s"
proof -
  have c: "MY_FIRST_CHANNEL (my_slave_id s) \<le> c" "c \<le> MY_LAST_CHANNEL (my_slave_id s)"
    using assms(2) unfolding own_channel_def by blast+
  from assms(1) c show ?thesis
    by (rule own_channel_cases) (simp_all add: own_index_def apply_channel_state_eq [OF assms(1)])
qed

lemma apply_foreign:
  assumes "buildable (my_slave_id s)" "\<not> own_channel (my_slave_id s) c"
  shows "apply_channel_state c r s = s"
proof -
  have "channel_output_index (my_slave_id s) c = CHANNEL_OUTPUT_NONE"
    using channel_output_range [OF assms(1), of c] assms(2) unfolding own_channel_def by blast
  then show ?thesis by (simp add: apply_channel_state_def Let_def)
qed

lemma applied_entry_fields:
  "channel_risk (applied_to i r s) = (channel_risk s)[i := r]"
  "strip_update_pending (applied_to i r s) = (strip_update_pending s)[i := 1]"
  "ack_pending (applied_to i r s) = ack_pending s" "ack_channel_slot (applied_to i r s) = ack_channel_slot s"
  "ack_risk_slot (applied_to i r s) = ack_risk_slot s" "my_slave_id (applied_to i r s) = my_slave_id s"
  by (simp_all add: applied_to_def Let_def write_pin_def on_board_def)

text \<open>What an own command leaves behind.\<close>

lemma obeyed_line_effect:
  assumes "slave_wf s" "own_channel (my_slave_id s) c" "r \<le> 2"
  defines "i \<equiv> own_index (my_slave_id s) c" and "t \<equiv> line_effect (command_bytes (my_slave_id s) c r) s"
  shows "channel_risk t = (channel_risk s)[i := r]" "strip_update_pending t = (strip_update_pending s)[i := 1]"
    and "(ack_pending t, ack_channel_slot t, ack_risk_slot t) =
      (if ack_pending s = 0 then (1, c, r) else (ack_pending s, ack_channel_slot s, ack_risk_slot s))"
    and "pin_shows t (co_relay (channel_output (my_slave_id s) ! i)) = Some (r \<noteq> VEDA_RISK_NONE)"
    and "pin_shows t (co_buzzer (channel_output (my_slave_id s) ! i)) = Some (r = VEDA_RISK_DANGER)"
    and "pin_shows t LD2 = Some (\<exists>j<2. channel_risk t ! j \<noteq> VEDA_RISK_NONE)"
proof -
  note b = slave_wf_parts(2) [OF assms(1)]
  note entry = own_channel_entry [OF b assms(2)]
  have read: "read_command (command_bytes (my_slave_id s) c r)
      = Some \<lparr> cmd_slave = my_slave_id s, cmd_channel = c, cmd_risk = r \<rparr>"
    using digit19_own [OF b] assms(2) by (simp add: read_command_iff)
  have "verdict_of (my_slave_id s) (command_bytes (my_slave_id s) c r) = VERDICT_APPLIED"
    using verdict_applied_iff digit19_own [OF b] assms(2,3) by blast
  from line_effect_applied [OF assms(1) this read]
  have t: "t = veda_rs485_ack_offer c r (applied_to i r s)" by (simp add: t_def i_def)
  show risk: "channel_risk t = (channel_risk s)[i := r]"
    and "strip_update_pending t = (strip_update_pending s)[i := 1]"
    and "(ack_pending t, ack_channel_slot t, ack_risk_slot t) =
      (if ack_pending s = 0 then (1, c, r) else (ack_pending s, ack_channel_slot s, ack_risk_slot s))"
    by (simp_all add: t veda_rs485_ack_offer_def applied_entry_fields)
  have "outputs_ok t" using line_effect_wf [OF assms(1)] by (simp add: t_def slave_wf_def)
  moreover have "channel_risk t ! i = r"
    using risk entry(1) assms(1) by (simp add: i_def slave_wf_def)
  ultimately show "pin_shows t (co_relay (channel_output (my_slave_id s) ! i)) = Some (r \<noteq> VEDA_RISK_NONE)"
    "pin_shows t (co_buzzer (channel_output (my_slave_id s) ! i)) = Some (r = VEDA_RISK_DANGER)"
    "pin_shows t LD2 = Some (\<exists>j<2. channel_risk t ! j \<noteq> VEDA_RISK_NONE)"
    using entry(1) channel_output_pins [OF b, of i] by (auto simp: outputs_ok_def i_def)
qed

text \<open>C20: A slave obeys exactly the lines \<open>S<own id>:CH<own channel>:R<0|1|2>\<close>: the table entry of that
  channel then records the level and asks for its strip to be redrawn, the relay of the entry is on
  unless the level is none and its buzzer on at danger, the board LED tells whether any level is not
  none, and the acknowledgement of the command waits unless another one does already. Any other line,
  of any length or content, gets one of the four rejecting verdicts and changes nothing at all.\<close>

theorem line_obeyed_iff:
  assumes "slave_wf s" and "length line = unat len"
  shows "let (verdict, t) = process_rs485_line line len s; my = my_slave_id s in
    (verdict = VERDICT_APPLIED \<longleftrightarrow> (\<exists>c r. own_channel my c \<and> r \<le> 2 \<and> line = command_bytes my c r))
    \<and> (\<forall>c r. own_channel my c \<and> r \<le> 2 \<and> line = command_bytes my c r \<longrightarrow>
         (let i = own_index my c; co = channel_output my ! i in
            i < 2 \<and> co_channel co = c
            \<and> channel_risk t = (channel_risk s)[i := r]
            \<and> strip_update_pending t = (strip_update_pending s)[i := 1]
            \<and> pin_shows t (co_relay co) = Some (r \<noteq> VEDA_RISK_NONE)
            \<and> pin_shows t (co_buzzer co) = Some (r = VEDA_RISK_DANGER)
            \<and> pin_shows t LD2 = Some (\<exists>j<2. channel_risk t ! j \<noteq> VEDA_RISK_NONE)
            \<and> (ack_pending t, ack_channel_slot t, ack_risk_slot t) =
                (if ack_pending s = 0 then (1, c, r) else (ack_pending s, ack_channel_slot s, ack_risk_slot s))))
    \<and> (verdict \<noteq> VERDICT_APPLIED \<longrightarrow> t = s) \<and> verdict < VERDICT_COUNT"
proof -
  note b = slave_wf_parts(2) [OF assms(1)]
  have spec: "process_rs485_line line len s = (verdict_of (my_slave_id s) line, line_effect line s)"
    using process_rs485_line_spec [OF b assms(2)] .
  have count: "verdict_of (my_slave_id s) line < VERDICT_COUNT"
    by (simp add: verdict_of_def split: option.split)
  have iff: "verdict_of (my_slave_id s) line = VERDICT_APPLIED \<longleftrightarrow>
       (\<exists>c r. own_channel (my_slave_id s) c \<and> r \<le> 2 \<and> line = command_bytes (my_slave_id s) c r)"
    using verdict_applied_iff digit19_own [OF b] by blast
  have same: "verdict_of (my_slave_id s) line \<noteq> VERDICT_APPLIED \<Longrightarrow> line_effect line s = s"
    by (simp add: line_effect_def)
  have effect: "let i = own_index (my_slave_id s) c; co = channel_output (my_slave_id s) ! i; t = line_effect line s in
            i < 2 \<and> co_channel co = c
            \<and> channel_risk t = (channel_risk s)[i := r]
            \<and> strip_update_pending t = (strip_update_pending s)[i := 1]
            \<and> pin_shows t (co_relay co) = Some (r \<noteq> VEDA_RISK_NONE)
            \<and> pin_shows t (co_buzzer co) = Some (r = VEDA_RISK_DANGER)
            \<and> pin_shows t LD2 = Some (\<exists>j<2. channel_risk t ! j \<noteq> VEDA_RISK_NONE)
            \<and> (ack_pending t, ack_channel_slot t, ack_risk_slot t) =
                (if ack_pending s = 0 then (1, c, r) else (ack_pending s, ack_channel_slot s, ack_risk_slot s))"
    if "own_channel (my_slave_id s) c \<and> r \<le> 2 \<and> line = command_bytes (my_slave_id s) c r" for c r
    using own_channel_entry [OF b, of c] obeyed_line_effect [OF assms(1), of c r] that unfolding Let_def by simp
  show ?thesis
    unfolding spec Let_def case_prod_conv
    by (intro conjI) (rule iff, rule allI, rule allI, rule impI, erule effect [unfolded Let_def],
      rule impI, erule same, rule count)
qed

theorem line_obeyed_iff_witness:
  "fst (process_rs485_line (cstr ''S1:CH2:R2'') 9 slave_one) = VERDICT_APPLIED
   \<and> channel_risk (snd (process_rs485_line (cstr ''S1:CH2:R2'') 9 slave_one)) = (channel_risk slave_one)[1 := 2]
   \<and> snd (process_rs485_line (cstr ''S2:CH3:R1'') 9 slave_one) = slave_one"
proof -
  have own: "own_channel 1 2" "own_index 1 2 = 1" by (simp_all add: own_channel_def own_index_def)
  have l: "cstr ''S1:CH2:R2'' = command_bytes 1 2 2" by (simp add: command_bytes_def)
  note obey = line_obeyed_iff [OF slave_one_wf(1), of "cstr ''S1:CH2:R2''" 9]
  have a: "fst (process_rs485_line (cstr ''S1:CH2:R2'') 9 slave_one) = VERDICT_APPLIED"
    "channel_risk (snd (process_rs485_line (cstr ''S1:CH2:R2'') 9 slave_one)) = (channel_risk slave_one)[1 := 2]"
    using obey own l by (auto simp: slave_one_wf(3) Let_def split_def)
  have "\<not> (\<exists>c r. own_channel 1 c \<and> r \<le> 2 \<and> cstr ''S2:CH3:R1'' = command_bytes 1 c r)"
    by (simp add: command_bytes_def)
  then have "snd (process_rs485_line (cstr ''S2:CH3:R1'') 9 slave_one) = slave_one"
    using line_obeyed_iff [OF slave_one_wf(1), of "cstr ''S2:CH3:R1''" 9]
    by (auto simp: slave_one_wf(3) Let_def split_def)
  with a show ?thesis by blast
qed

lemma running_outputs:
  assumes "slave_reachable my s"
  shows "(\<forall>i<2. channel_risk s ! i \<le> 2
        \<and> pin_shows s (co_relay (channel_output my ! i)) = Some (channel_risk s ! i \<noteq> VEDA_RISK_NONE)
        \<and> pin_shows s (co_buzzer (channel_output my ! i)) = Some (channel_risk s ! i = VEDA_RISK_DANGER))
     \<and> pin_shows s LD2 = Some (\<exists>i<2. channel_risk s ! i \<noteq> VEDA_RISK_NONE)"
proof -
  have run: "slave_inv s" "my_slave_id s = my"
    using slave_reachable_running [OF assms] by (simp_all add: slave_running_def)
  then have "outputs_ok s" "buildable my"
    using slave_inv_parts [OF run(1)] by (simp_all add: slave_wf_def)
  then show ?thesis
    using channel_output_pins [of my] channel_risk_le2 [OF run(1)]
    by (simp add: outputs_ok_def VEDA_RISK_NONE_def VEDA_RISK_DANGER_def)
qed

text \<open>C21: In every reachable state of a running slave the pins agree with the recorded levels: each
  relay is on exactly when its channel is not at level none, each buzzer exactly at danger, the
  board LED exactly when some channel is not at none, and the recorded levels are levels.\<close>

theorem outputs_follow_levels:
  assumes "slave_reachable my s"
  shows "(\<forall>i<2. channel_risk s ! i \<le> 2
        \<and> pin_shows s (co_relay (channel_output my ! i)) = Some (channel_risk s ! i \<noteq> VEDA_RISK_NONE)
        \<and> pin_shows s (co_buzzer (channel_output my ! i)) = Some (channel_risk s ! i = VEDA_RISK_DANGER))
     \<and> pin_shows s LD2 = Some (\<exists>i<2. channel_risk s ! i \<noteq> VEDA_RISK_NONE)"
  using assms by (rule running_outputs)

theorem outputs_follow_levels_witness:
  "pin_shows (slave_started 1 0 empty_plan) LD2
     = Some (\<exists>i<2. channel_risk (slave_started 1 0 empty_plan) ! i \<noteq> VEDA_RISK_NONE)"
  using outputs_follow_levels [OF started_one] by blast

text \<open>C22: Whatever a reachable slave has ever sent is proper: on the bus only acknowledgements
  \<open>A<own id>:CH<own channel>:R<0|1|2>\<close>, each with the bus driver enabled, and on the strips only
  frames of nine pixels in one of the three colours, complete unless the strip driver reported an
  error or a timeout, in which case the beginning of such a frame; between two turns the bus driver is
  off and reception is armed.\<close>

theorem slave_talks_properly:
  assumes "slave_reachable my s"
  shows "(\<forall>e\<in>set (sl_out s). case e of
        SlaveTx u bytes timeout st de \<Rightarrow>
          u \<noteq> USART1 \<or> de \<and> (\<exists>c r. own_channel my c \<and> r \<le> 2 \<and> bytes = ack_frame my c r)
      | StripFrame c slots st \<Rightarrow> \<exists>r\<le>2. slots = policy_frame r
      | StripCut c slots st \<Rightarrow> st \<noteq> HAL_OK \<and> (\<exists>r\<le>2. slots = policy_frame r))
    \<and> pin_shows s RS485_DE = Some False \<and> rx_armed s"
proof -
  have run: "slave_running s" "my_slave_id s = my" using slave_reachable_running [OF assms] by simp_all
  then have "list_all (effect_ok my) (sl_out s)" "de_low s" "rx_armed s"
    by (simp_all add: slave_running_def slave_inv_def)
  then show ?thesis by (simp add: list_all_iff effect_ok_def de_low_def)
qed

theorem slave_talks_properly_witness:
  "pin_shows (slave_started 1 0 empty_plan) RS485_DE = Some False"
  using slave_talks_properly [OF started_one] by blast

text \<open>C23: No buffer of the slave is overrun and no table written beside its entries: in every reachable
  state the line position is within the 16 bytes and the debug copy keeps its 17, looking up a channel
  gives the position of exactly that channel or no position, applying a level writes the entry of that
  channel in both tables and no other, and nothing for a foreign channel, and a waiting acknowledgement
  is for an own channel and a level.\<close>

theorem slave_buffers_safe:
  assumes "slave_reachable my s"
  shows "length (rs485_line s) = unat RS485_LINE_BUFFER_SIZE
     \<and> unat (rs485_line_length s) \<le> unat RS485_LINE_BUFFER_SIZE
     \<and> length (debug_line s) = unat RS485_LINE_BUFFER_SIZE + 1
     \<and> length (channel_risk s) = 2 \<and> length (strip_update_pending s) = 2
     \<and> length (strip_shown_risk s) = 2
     \<and> (\<forall>c. if own_channel my c
            then unat (channel_output_index my c) < 2
                 \<and> co_channel (channel_output my ! unat (channel_output_index my c)) = c
            else channel_output_index my c = CHANNEL_OUTPUT_NONE)
     \<and> (\<forall>c r. let t = apply_channel_state c r s in \<forall>j<2.
            (channel_risk t ! j, strip_update_pending t ! j) =
              (if own_channel my c \<and> j = unat (channel_output_index my c) then (r, 1)
               else (channel_risk s ! j, strip_update_pending s ! j)))
     \<and> (ack_pending s = 0 \<or> own_channel my (ack_channel_slot s) \<and> ack_risk_slot s \<le> 2)"
proof -
  have run: "slave_inv s" "my_slave_id s = my"
    using slave_reachable_running [OF assms] by (simp_all add: slave_running_def)
  have b: "buildable my" using slave_inv_parts(3) [OF run(1)] run(2) by simp
  have len: "length (channel_risk s) = 2" "length (strip_update_pending s) = 2"
    using slave_inv_parts(2) [OF run(1)] by (simp_all add: slave_wf_def)
  have slot: "ack_pending s = 0 \<or> own_channel my (ack_channel_slot s) \<and> ack_risk_slot s \<le> 2"
    using slave_inv_parts(2) [OF run(1)] run(2) unfolding slave_wf_def ack_slot_ok_def own_channel_def by blast
  have entry: "unat (channel_output_index my c) = own_index my c" "own_index my c < 2"
    "co_channel (channel_output my ! own_index my c) = c" if "own_channel my c" for c
    using own_channel_entry [OF b that] by (auto simp: less_2_cases_iff)
  have none: "\<not> own_channel my c \<Longrightarrow> channel_output_index my c = CHANNEL_OUTPUT_NONE" for c
    using channel_output_range [OF b, of c] unfolding own_channel_def by blast
  have "let t = apply_channel_state c r s in \<forall>j<2.
            (channel_risk t ! j, strip_update_pending t ! j) =
              (if own_channel my c \<and> j = unat (channel_output_index my c) then (r, 1)
               else (channel_risk s ! j, strip_update_pending s ! j))" for c r
  proof (cases "own_channel my c")
    case True
    then show ?thesis
      using apply_own [of s c r] run(2) b entry [OF True] len
      by (auto simp: applied_entry_fields nth_list_update)
  next
    case False
    then show ?thesis using apply_foreign [of s c r] run(2) b by simp
  qed
  then show ?thesis
    using slave_wf_parts [OF slave_inv_parts(2) [OF run(1)]] slave_inv_parts(1,2) [OF run(1)] slot entry none
    by (simp add: slave_wf_def strip_wf_def)
qed

theorem slave_buffers_safe_witness:
  "unat (rs485_line_length (slave_started 1 0 empty_plan)) \<le> unat RS485_LINE_BUFFER_SIZE"
  using slave_buffers_safe [OF started_one] by blast

subsection \<open>Streams of bytes\<close>

text \<open>The commands a stream contains for a slave: the table index and the level of each complete line
  it obeys.\<close>

definition obeyed :: "u8 \<Rightarrow> u8 list list \<Rightarrow> (nat \<times> u8 \<times> u8) list" where
  "obeyed my ls = concat (map (\<lambda>l. if verdict_of my l = VERDICT_APPLIED
     then (let c = the (read_command l) in [(own_index my (cmd_channel c), cmd_channel c, cmd_risk c)])
     else []) ls)"

definition levels_after :: "(nat \<times> u8 \<times> u8) list \<Rightarrow> u8 list \<Rightarrow> u8 list" where
  "levels_after cmds rs = fold (\<lambda>(i, c, r) rs. rs[i := r]) cmds rs"

lemma debug_offer_fields:
  "channel_risk (veda_debug_line_offer l n v s) = channel_risk s"
  "ack_pending (veda_debug_line_offer l n v s) = ack_pending s"
  "ack_channel_slot (veda_debug_line_offer l n v s) = ack_channel_slot s"
  "ack_risk_slot (veda_debug_line_offer l n v s) = ack_risk_slot s"
  by (simp_all add: veda_debug_line_offer_def)

lemma slave_line_act_levels:
  assumes "slave_wf s"
  shows "channel_risk (slave_line_act l s) = levels_after (obeyed (my_slave_id s) [l]) (channel_risk s)"
    "(ack_pending (slave_line_act l s), ack_channel_slot (slave_line_act l s), ack_risk_slot (slave_line_act l s)) =
      (if ack_pending s = 0 then (case obeyed (my_slave_id s) [l] of [] \<Rightarrow> (0, ack_channel_slot s, ack_risk_slot s)
          | (i, c, r) # _ \<Rightarrow> (1, c, r))
       else (ack_pending s, ack_channel_slot s, ack_risk_slot s))"
proof -
  have *: "channel_risk (line_effect l s) = levels_after (obeyed (my_slave_id s) [l]) (channel_risk s)
    \<and> (ack_pending (line_effect l s), ack_channel_slot (line_effect l s), ack_risk_slot (line_effect l s)) =
      (if ack_pending s = 0 then (case obeyed (my_slave_id s) [l] of [] \<Rightarrow> (0, ack_channel_slot s, ack_risk_slot s)
          | (i, c, r) # _ \<Rightarrow> (1, c, r))
       else (ack_pending s, ack_channel_slot s, ack_risk_slot s))"
  proof (cases "verdict_of (my_slave_id s) l = VERDICT_APPLIED")
    case False
    then show ?thesis by (simp add: line_effect_def obeyed_def levels_after_def)
  next
    case True
    then obtain c where c: "read_command l = Some c" by (rule read_verdict_applied)
    show ?thesis
      unfolding line_effect_applied [OF assms True c]
      using True c by (simp add: obeyed_def levels_after_def veda_rs485_ack_offer_def)
  qed
  then show "channel_risk (slave_line_act l s) = levels_after (obeyed (my_slave_id s) [l]) (channel_risk s)"
    "(ack_pending (slave_line_act l s), ack_channel_slot (slave_line_act l s), ack_risk_slot (slave_line_act l s)) =
      (if ack_pending s = 0 then (case obeyed (my_slave_id s) [l] of [] \<Rightarrow> (0, ack_channel_slot s, ack_risk_slot s)
          | (i, c, r) # _ \<Rightarrow> (1, c, r))
       else (ack_pending s, ack_channel_slot s, ack_risk_slot s))"
    by (simp_all add: slave_line_act_def debug_offer_fields)
qed

lemma obeyed_Cons: "obeyed my (l # ls) = obeyed my [l] @ obeyed my ls"
  by (simp add: obeyed_def)

lemma levels_after_append: "levels_after (xs @ ys) rs = levels_after ys (levels_after xs rs)"
  by (simp add: levels_after_def)

lemma obeyed_one: "obeyed my [l] = [] \<or> (\<exists>x. obeyed my [l] = [x])"
  by (simp add: obeyed_def Let_def)

lemma fold_acts:
  "slave_wf s \<Longrightarrow> list_all (\<lambda>l. length l \<le> 16) ls \<Longrightarrow>
     channel_risk (fold slave_line_act ls s) = levels_after (obeyed (my_slave_id s) ls) (channel_risk s)
     \<and> (ack_pending s = 0 \<longrightarrow>
          (ack_pending (fold slave_line_act ls s), ack_channel_slot (fold slave_line_act ls s),
           ack_risk_slot (fold slave_line_act ls s)) =
          (case obeyed (my_slave_id s) ls of [] \<Rightarrow> (0, ack_channel_slot s, ack_risk_slot s)
           | (i, c, r) # _ \<Rightarrow> (1, c, r)))
     \<and> (ack_pending s \<noteq> 0 \<longrightarrow>
          (ack_pending (fold slave_line_act ls s), ack_channel_slot (fold slave_line_act ls s),
           ack_risk_slot (fold slave_line_act ls s)) = (ack_pending s, ack_channel_slot s, ack_risk_slot s))"
proof (induction ls arbitrary: s)
  case Nil
  then show ?case by (simp add: obeyed_def levels_after_def)
next
  case (Cons l ls)
  let ?t = "slave_line_act l s"
  have t: "slave_wf ?t" "my_slave_id ?t = my_slave_id s"
    using slave_line_act_inv [OF Cons.prems(1), of l] Cons.prems(2) by simp_all
  have ls: "list_all (\<lambda>l. length l \<le> 16) ls" using Cons.prems(2) by simp
  note a = slave_line_act_levels [OF Cons.prems(1), of l]
  note ih = Cons.IH [OF t(1) ls]
  consider "obeyed (my_slave_id s) [l] = []" | i c r where "obeyed (my_slave_id s) [l] = [(i, c, r)]"
    using obeyed_one [of "my_slave_id s" l] by auto
  then show ?case
  proof cases
    case 1
    then show ?thesis
      using a ih t(2) unfolding obeyed_Cons [of _ l ls] by (auto simp: levels_after_def split: if_splits list.splits)
  next
    case 2
    then show ?thesis
      using a ih t(2) unfolding obeyed_Cons [of _ l ls] by (auto simp: levels_after_def split: if_splits list.splits)
  qed
qed

text \<open>The line buffer plays no part in an act, so a blank one does as well.\<close>

definition with_line :: "slave \<Rightarrow> slave" where
  "with_line s = s\<lparr> rs485_line := replicate 16 0, rs485_line_length := 0, rs485_line_overflow := 0 \<rparr>"

lemma fold_act_blank:
  "slave_line_blank (fold slave_line_act ls s) = fold slave_line_act ls (slave_line_blank s)"
  by (induction ls arbitrary: s) (simp_all add: slave_line_blank_act)

lemma blank_with_line: "slave_line_blank (with_line s) = slave_line_blank s"
  by (simp add: slave_line_blank_def with_line_def)

lemma blank_fields:
  "channel_risk (slave_line_blank s) = channel_risk s" "ack_pending (slave_line_blank s) = ack_pending s"
  "ack_channel_slot (slave_line_blank s) = ack_channel_slot s"
  "ack_risk_slot (slave_line_blank s) = ack_risk_slot s"
  by (simp_all add: slave_line_blank_def)

lemma slave_feed_stream:
  assumes "slave_wf s" "slave_line_view s = ([], False)"
  shows "channel_risk (fold process_rs485_byte bs s) = channel_risk (fold slave_line_act (assembled 16 bs) (with_line s))"
    "ack_pending (fold process_rs485_byte bs s) = ack_pending (fold slave_line_act (assembled 16 bs) (with_line s))"
    "ack_channel_slot (fold process_rs485_byte bs s) = ack_channel_slot (fold slave_line_act (assembled 16 bs) (with_line s))"
    "ack_risk_slot (fold process_rs485_byte bs s) = ack_risk_slot (fold slave_line_act (assembled 16 bs) (with_line s))"
proof -
  have "slave_line_blank (fold process_rs485_byte bs s) = fold slave_line_act (assembled 16 bs) (slave_line_blank s)"
    using cmd_asm.feed_stream [OF slave_wf_parts(1) [OF assms(1)] assms(2)] .
  also have "\<dots> = slave_line_blank (fold slave_line_act (assembled 16 bs) (with_line s))"
    by (simp add: fold_act_blank blank_with_line)
  finally have eq: "slave_line_blank (fold process_rs485_byte bs s)
      = slave_line_blank (fold slave_line_act (assembled 16 bs) (with_line s))" .
  show "channel_risk (fold process_rs485_byte bs s) = channel_risk (fold slave_line_act (assembled 16 bs) (with_line s))"
    "ack_pending (fold process_rs485_byte bs s) = ack_pending (fold slave_line_act (assembled 16 bs) (with_line s))"
    "ack_channel_slot (fold process_rs485_byte bs s) = ack_channel_slot (fold slave_line_act (assembled 16 bs) (with_line s))"
    "ack_risk_slot (fold process_rs485_byte bs s) = ack_risk_slot (fold slave_line_act (assembled 16 bs) (with_line s))"
    by (metis blank_fields eq)+
qed

lemma stream_levels:
  assumes "slave_wf s" and "slave_line_view s = ([], False)" and "ack_pending s = 0"
  shows "let cmds = obeyed (my_slave_id s) (assembled 16 bs); t = fold process_rs485_byte bs s
    in channel_risk t = levels_after cmds (channel_risk s)
       \<and> (ack_pending t, ack_channel_slot t, ack_risk_slot t) =
           (case cmds of [] \<Rightarrow> (0, ack_channel_slot s, ack_risk_slot s) | (i, c, r) # _ \<Rightarrow> (1, c, r))"
proof -
  have wf: "slave_wf (with_line s)"
    using assms(1) by (simp add: with_line_def slave_wf_def slave_line_wf_def ack_slot_ok_def)
  have "list_all (\<lambda>l. length l \<le> 16) (assembled 16 bs)"
    by (simp add: assembled_def list_all_iff deliverable_def)
  note f = fold_acts [OF wf this]
  have "ack_pending (with_line s) = 0" "ack_channel_slot (with_line s) = ack_channel_slot s"
    "ack_risk_slot (with_line s) = ack_risk_slot s" "channel_risk (with_line s) = channel_risk s"
    "my_slave_id (with_line s) = my_slave_id s"
    using assms(3) by (simp_all add: with_line_def)
  then show ?thesis
    using f unfolding slave_feed_stream [OF assms(1,2)] Let_def by (simp only: refl simp_thms)
qed

text \<open>C24: A slave that receives any stream of bytes ends up, on each channel, at the level of the last
  command the stream contains for it (the lines cut out by carriage returns and line feeds, overlong
  and foreign ones skipped); and if no acknowledgement was waiting, the one then waiting is for the
  first of these commands.\<close>

theorem stream_obeyed:
  assumes "slave_wf s" and "slave_line_view s = ([], False)" and "ack_pending s = 0"
  shows "let cmds = obeyed (my_slave_id s) (assembled 16 bs); t = fold process_rs485_byte bs s
    in channel_risk t = levels_after cmds (channel_risk s)
       \<and> (ack_pending t, ack_channel_slot t, ack_risk_slot t) =
           (case cmds of [] \<Rightarrow> (0, ack_channel_slot s, ack_risk_slot s) | (i, c, r) # _ \<Rightarrow> (1, c, r))"
  using assms by (rule stream_levels)

theorem stream_obeyed_witness:
  "channel_risk (fold process_rs485_byte (cstr ''S1:CH1:R1'' @ [CR, LF] @ cstr ''S2:CH3:R2'' @ [LF]
      @ cstr ''S1:CH2:R2'' @ [LF] @ cstr ''S1:CH1:R'') slave_one) = [1, 2]"
proof -
  have "slave_line_view slave_one = ([], False)" "ack_pending slave_one = 0" "channel_risk slave_one = [0, 0]"
    by (simp_all add: slave_line_view_def slave_one_def slave_state0_def slave_memory_def)
  moreover have "levels_after (obeyed 1 (assembled 16 (cstr ''S1:CH1:R1'' @ [CR, LF] @ cstr ''S2:CH3:R2'' @ [LF]
      @ cstr ''S1:CH2:R2'' @ [LF] @ cstr ''S1:CH1:R''))) [0, 0] = [1, 2]" by code_simp
  ultimately show ?thesis
    using stream_obeyed [OF slave_one_wf(1), of "cstr ''S1:CH1:R1'' @ [CR, LF] @ cstr ''S2:CH3:R2'' @ [LF]
      @ cstr ''S1:CH2:R2'' @ [LF] @ cstr ''S1:CH1:R''"] by (simp only: slave_one_wf(3) Let_def)
qed

end
