(* ===== verification/Strip_Properties.thy ===== *)
theory Strip_Properties
  imports Slave_Properties
begin

text \<open>The properties of the slave's recovery from silence, of its boot, and of the strip driver.\<close>

text \<open>Silence resynchronises the receiver: once 50 ms have passed since the last byte, the idle
  service throws a half-received line away, so that the next complete line is read on its own; before
  that, and when nothing is half received, the service changes nothing.\<close>

theorem silence_resyncs:
  assumes "slave_wf s" and "\<forall>b\<in>set l. \<not> is_eol b" and "is_eol e" and "l \<noteq> []" and "length l \<le> 16"
  shows "if HAL_GetTick s - rs485_last_rx_msec s \<ge> RS485_IDLE_RESET_MSEC
    then slave_line_view (veda_rs485_idle_service s) = (if rs485_line_length s = 0 \<and> rs485_line_overflow s = 0
             then slave_line_view s else ([], False))
         \<and> slave_line_blank (fold process_rs485_byte (l @ [e]) (veda_rs485_idle_service s))
             = slave_line_act l (slave_line_blank s)
    else veda_rs485_idle_service s = s"
proof -
  let ?t = "veda_rs485_idle_service s"
  have wf: "slave_line_wf ?t"
    using slave_wf_parts(1) [OF assms(1)] by (simp add: veda_rs485_idle_service_def slave_line_wf_def)
  have blank: "slave_line_blank ?t = slave_line_blank s"
    by (simp add: veda_rs485_idle_service_def slave_line_blank_def)
  show ?thesis
  proof (cases "HAL_GetTick s - rs485_last_rx_msec s \<ge> RS485_IDLE_RESET_MSEC")
    case True
    have view: "slave_line_view ?t = ([], False)"
      using True by (auto simp: veda_rs485_idle_service_def slave_line_view_def)
    have "deliverable 16 l" using assms(4,5) by (simp add: deliverable_def)
    then have "slave_line_blank (fold process_rs485_byte (l @ [e]) ?t) = slave_line_act l (slave_line_blank ?t)"
      using cmd_asm.feed_one_line(1) [OF wf view assms(2,3)] by simp
    moreover have "rs485_line_length s = 0 \<and> rs485_line_overflow s = 0 \<Longrightarrow> slave_line_view s = ([], False)"
      by (simp add: slave_line_view_def)
    ultimately show ?thesis using True view blank by auto
  next
    case False
    then show ?thesis by (simp add: veda_rs485_idle_service_def)
  qed
qed

lemma bytes_irq: "slave_wf s \<Longrightarrow> irq_rel s (fold process_rs485_byte bs s)"
proof (induction bs rule: rev_induct)
  case Nil
  then show ?case by (simp add: irq_rel_refl)
next
  case (snoc b bs)
  then show ?case
    using process_rs485_byte_inv [of "fold process_rs485_byte bs s" b] irq_rel_trans
    by (fastforce simp: irq_rel_def)
qed

definition half_received :: slave where
  "half_received = (fold process_rs485_byte (cstr ''S1:C'') slave_one)\<lparr> sl_tick := 60 \<rparr>"

theorem silence_resyncs_witness:
  "slave_line_blank (fold process_rs485_byte (cstr ''S1:CH1:R1'' @ [LF]) (veda_rs485_idle_service half_received))
     = slave_line_act (cstr ''S1:CH1:R1'') (slave_line_blank half_received)"
proof -
  have "slave_wf half_received"
    using bytes_irq [OF slave_one_wf(1), of "cstr ''S1:C''"] by (simp add: half_received_def irq_rel_def)
  moreover have "HAL_GetTick half_received - rs485_last_rx_msec half_received \<ge> RS485_IDLE_RESET_MSEC" by code_simp
  moreover have "\<forall>b\<in>set (cstr ''S1:CH1:R1''). \<not> is_eol b" "is_eol LF" by (simp_all add: is_eol_def)
  moreover have "cstr ''S1:CH1:R1'' \<noteq> []" "length (cstr ''S1:CH1:R1'') \<le> 16" by simp_all
  ultimately show ?thesis
    using silence_resyncs [of half_received "cstr ''S1:CH1:R1''" LF] by meson
qed

subsection \<open>Boot\<close>

text \<open>C25: A slave boots exactly when the oscillator, the clock tree, both UARTs and the task can be set
  up, otherwise it stops at the first of these that fails; a booted slave has all outputs off, drives
  its five output pins, and its strip timer runs at the 84 MHz the bit timing is built on.\<close>

theorem slave_boot_outcome:
  assumes "buildable my"
  shows "((\<exists>s. slave_main e my t plan = Inr s) \<longleftrightarrow>
       se_osc_ok e \<and> se_clk_ok e \<and> se_uart_ok e USART2 \<and> se_uart_ok e USART1 \<and> se_thread_ok e)
    \<and> (case slave_main e my t plan of
      Inl err \<Rightarrow> err = (if \<not> se_osc_ok e then Err_Osc else if \<not> se_clk_ok e then Err_Clock
          else if \<not> se_uart_ok e USART2 then Err_Uart USART2
          else if \<not> se_uart_ok e USART1 then Err_Uart USART1 else Err_Threads)
    | Inr s \<Rightarrow> my_slave_id s = my \<and> channel_risk s = [0, 0]
        \<and> (\<forall>p\<in>{RELAY_A, RELAY_B, BUZZER_A, BUZZER_B, LD2}. pin_shows s p = Some False)
        \<and> timer_input_clock_hz (sl_board s) = WS2812_TIMER_CLOCK_HZ)"
proof (rule conjI)
  show "(\<exists>s. slave_main e my t plan = Inr s) \<longleftrightarrow>
       se_osc_ok e \<and> se_clk_ok e \<and> se_uart_ok e USART2 \<and> se_uart_ok e USART1 \<and> se_thread_ok e"
    unfolding slave_main_unfold [OF assms] by simp
  have "timer_input_clock_hz slave_board0 = 84000000"
    by (simp add: timer_input_clock_hz_def apb1_divided_def HAL_RCC_GetPCLK1Freq_def slave_board0_def clock_tree)
      (simp add: clk_config_def)
  then show "case slave_main e my t plan of
      Inl err \<Rightarrow> err = (if \<not> se_osc_ok e then Err_Osc else if \<not> se_clk_ok e then Err_Clock
          else if \<not> se_uart_ok e USART2 then Err_Uart USART2
          else if \<not> se_uart_ok e USART1 then Err_Uart USART1 else Err_Threads)
    | Inr s \<Rightarrow> my_slave_id s = my \<and> channel_risk s = [0, 0]
        \<and> (\<forall>p\<in>{RELAY_A, RELAY_B, BUZZER_A, BUZZER_B, LD2}. pin_shows s p = Some False)
        \<and> timer_input_clock_hz (sl_board s) = WS2812_TIMER_CLOCK_HZ"
    unfolding slave_main_unfold [OF assms]
    by (simp add: slave_state0_def slave_memory_def pin_shows_def drives_def)
      (simp add: slave_board0_def)
qed

definition slave_all_ok :: slave_env where
  "slave_all_ok = \<lparr> se_osc_ok = True, se_clk_ok = True, se_uart_ok = (\<lambda>_. True), se_thread_ok = True \<rparr>"

theorem slave_boot_outcome_witness:
  "\<exists>s. slave_main slave_all_ok 1 0 empty_plan = Inr s \<and> channel_risk s = [0, 0]"
  using slave_boot_outcome [OF buildable_one, of slave_all_ok 0 empty_plan]
    slave_main_unfold [OF buildable_one, of slave_all_ok 0 empty_plan]
  by (simp add: slave_all_ok_def)

subsection \<open>The strips\<close>


text \<open>A slave whose first strip is ready, whose DMA will report success at the second look, and which
  has just been told to show danger on channel 1.\<close>

definition strip_slave :: slave where
  "strip_slave = slave_one\<lparr> tim3 := neopixel_timer_setup (neopixel_hw NEOPIXEL_CH_A) tim_reset,
     channel_ready := [1, 0],
     sl_polls := [[\<lparr> poll_raised = 0, poll_ms = 1, poll_irqs = [] \<rparr>,
                   \<lparr> poll_raised = 0x20, poll_ms = 0, poll_irqs = [] \<rparr>]] \<rparr>"

definition strip_slave_told :: slave where
  "strip_slave_told = fold process_rs485_byte (cstr ''S1:CH1:R2'' @ [LF]) strip_slave"

lemma strip_slave_inv: "slave_inv strip_slave"
proof -
  have "slave_wf strip_slave" using slave_one_wf(1) by (simp add: strip_slave_def)
  moreover have "pwm_data slave_one = replicate 696 0" "strip_shown_risk slave_one = [0, 0]" "sl_out slave_one = []"
    by (simp_all add: slave_one_def slave_state0_def slave_memory_def)
  ultimately show ?thesis
    using timer_setup_ready(2) pwm_ok_blank
    by (simp add: slave_inv_def strip_wf_def less_2_cases_iff strip_slave_def strip_of_def)
qed

lemma strip_slave_told_inv: "slave_inv strip_slave_told"
  unfolding strip_slave_told_def
  by (rule step_inv [OF step_of_irq [OF strip_slave_inv bytes_irq [OF slave_inv_parts(2) [OF strip_slave_inv]]]])

lemma strip_slave_told_state:
  "strip_update_pending strip_slave_told = [1, 0]" "channel_risk strip_slave_told = [2, 0]"
  "strip_shown_risk strip_slave_told = [0, 0]"
  by code_simp+

text \<open>A frame succeeds when the stream can be switched off and the DMA finishes within 50 ms.\<close>

lemma show_risk_success:
  assumes "slave_inv s" "i < 2" "channel_ready s ! i \<noteq> 0"
  defines "hw \<equiv> neopixel_hw (strip_of (word_of_nat i))"
  assumes "lags_fine (hw_stream hw) s" "fst (next_frame_polls s) = qs @ p # ps"
    and "list_all (\<lambda>q. no_flags hw (poll_raised q)) qs" "poll_raised p AND hw_dma_tc_flag hw \<noteq> 0"
    and "sum_list (map poll_ms qs) < 50"
  shows "fst (show_risk i risk s) = HAL_OK"
proof -
  obtain r g b where rgb: "policy_rgb risk = (r, g, b)" by (metis prod_cases3)
  note wf = slave_inv_parts(1) [OF assms(1)]
  note i = word_of_index [OF assms(2)]
  have pwm: "pwm_ok (pwm_data s)" using wf assms(2,3) by (auto simp: strip_wf_def)
  let ?t = "show_start 9 r g b s"
  note st = show_start_ok [OF wf _ pwm, of 9, where r = r and g = g and b = b]
  have t: "slave_wf ?t" using st(1) strip_wf_slave by (simp add: task_rel_def)
  have lags: "lags_fine (hw_stream hw) ?t"
  proof -
    have "off_lag (hw_stream hw) ?t = off_lag (hw_stream hw) s" "off_lags (hw_stream hw) ?t = off_lags (hw_stream hw) s"
      by (simp_all add: show_start_def off_lag_def off_lags_def)
    then show ?thesis using assms(5) by (simp only: lags_fine_def)
  qed
  have polls: "fst (next_frame_polls ?t) = qs @ p # ps"
    using assms(6) by (simp add: show_start_def next_frame_polls_def split: list.splits)
  have "fst (ws2812_transmit hw (240 + word_of_nat (unat (9 :: u16) * 24) + 240) ?t) = HAL_OK"
    by (rule ws2812_transmit_success [OF t hw_def [THEN meta_eq_to_obj_eq] lags polls assms(7-9)])
  then show ?thesis
    using neopixel_show_solid_unfold [of "word_of_nat i" 9 s r g b] i assms(3) pwm
    by (simp add: show_risk_def rgb Let_def split_def hw_def)
qed


text \<open>A redraw that fails is not tried again by itself: here the strip is not ready, the request is
  gone, and the level of the channel is not the one shown.\<close>

definition dark_strip :: slave where
  "dark_strip = strip_slave_told\<lparr> channel_ready := [0, 0] \<rparr>"

lemma failed_redraw_waits:
  "(let t = neopixel_service_one 0 dark_strip
    in (channel_risk t, strip_shown_risk t, strip_update_pending t)) = ([2, 0], [0, 0], [0, 0])"
  by code_simp

end
