(* ===== verification/Driver_Properties.thy ===== *)
theory Driver_Properties
  imports Strip_Properties
begin

text \<open>The properties of the strip driver itself: what a strip reads from a frame, how a transmission
  answers, and how the two strips share one timer.\<close>

text \<open>C27: Showing a colour on a ready strip starts one frame on the wire that the strip, reading with the
  windows of the datasheets, decodes to exactly that colour on every pixel, bytes in the order blue, red,
  green, with at least 280 microseconds of silence before and after; the frame goes out completely if
  the answer is success, and is broken off only with an error or a timeout. A stream that cannot be
  switched off means an error and an untouched strip, and wrong arguments or a strip not ready change
  nothing at all.\<close>

theorem strip_frame_readable:
  assumes "strip_wf s"
  shows "let (status, t) = neopixel_show_solid channel p r g b s
    in if channel < NEOPIXEL_CH_COUNT \<and> p \<noteq> 0 \<and> p \<le> NEOPIXEL_MAX_PIXEL_COUNT \<and> channel_ready s ! unat channel \<noteq> 0
       then if off_lag (hw_stream (neopixel_hw (strip_of channel))) s < 100000
            then \<exists>slots e. sl_out t = sl_out s @ [e]
                 \<and> (e = StripFrame (strip_of channel) slots status
                    \<or> status \<noteq> HAL_OK \<and> e = StripCut (strip_of channel) slots status)
                 \<and> strip_receive (wire_periods slots) = Some (concat (replicate (unat p) [b, r, g]))
                 \<and> 280000 \<le> low_time_ns (length (takeWhile (\<lambda>d. d = 0) (wire_periods slots)))
                 \<and> 280000 \<le> low_time_ns (length (takeWhile (\<lambda>d. d = 0) (rev (wire_periods slots))))
            else status = HAL_ERROR \<and> sl_out t = sl_out s
       else status = HAL_ERROR \<and> t = s"
proof (cases "channel < 2 \<and> p \<noteq> 0 \<and> p \<le> 9 \<and> channel_ready s ! unat channel \<noteq> 0")
  case False
  then have "neopixel_show_solid channel p r g b s = (HAL_ERROR, s)"
    by (auto simp: neopixel_show_solid_def not_le not_less)
  then show ?thesis using False by auto
next
  case True
  note f = neopixel_show_solid_frame [OF assms, of channel p r g b]
  have "unat p \<noteq> 0" using True by (simp add: unat_eq_zero)
  note read = wire_frame_read [OF refl this, of r g b]
  have low: "280000 \<le> low_time_ns 241" "280000 \<le> low_time_ns 239" by (simp_all add: low_time_ns_def)
  show ?thesis
  proof (cases "off_lag (hw_stream (neopixel_hw (strip_of channel))) s < 100000")
    case go: True
    obtain status t where show_solid: "neopixel_show_solid channel p r g b s = (status, t)" by (metis prod.exhaust)
    obtain e where e: "sl_out t = sl_out s @ [e]"
      "frame_trace (strip_of channel) (frame_slots (unat p) r g b) status e"
      using f True go by (auto simp: show_solid)
    show ?thesis
      unfolding show_solid Let_def case_prod_conv
      using True go e read low by (auto simp: frame_trace_def)
  next
    case False
    then show ?thesis using True f by (auto simp: Let_def split_def)
  qed
qed

theorem strip_frame_readable_witness:
  "\<exists>slots. sl_out (snd (neopixel_show_solid 0 9 255 130 0 strip_slave)) = [StripFrame NEOPIXEL_CH_A slots HAL_OK]
     \<and> strip_receive (wire_periods slots) = Some (concat (replicate 9 [0, 255, 130]))"
proof -
  have s: "channel_ready strip_slave = [1, 0]" "sl_out strip_slave = []" "off_lag i strip_slave = 0"
    "sl_lags strip_slave = []" "dma1 strip_slave = (\<lambda>_. stream_reset)" for i
    by (simp_all add: strip_slave_def slave_one_def slave_state0_def slave_memory_def empty_plan_def off_lag_def
        stream_reset_def)
  let ?q = "\<lparr> poll_raised = 0, poll_ms = 1, poll_irqs = [] \<rparr>" and ?p = "\<lparr> poll_raised = 0x20, poll_ms = 0, poll_irqs = [] \<rparr>"
  have "fst (show_risk 0 1 strip_slave) = HAL_OK"
  proof (rule show_risk_success [OF strip_slave_inv, where qs = "[?q]" and p = ?p and ps = "[]"])
    show "lags_fine (hw_stream (neopixel_hw (strip_of (word_of_nat 0)))) strip_slave"
      using s by (simp add: lags_fine_def off_lag_def off_lags_def stream_reset_def)
    show "fst (next_frame_polls strip_slave) = [?q] @ ?p # []"
      by (simp add: next_frame_polls_def strip_slave_def)
  qed (simp_all add: s no_flags_def strip_of_def neopixel_hw_def)
  then have "fst (neopixel_show_solid 0 9 255 130 0 strip_slave) = HAL_OK"
    by (simp add: show_risk_def policy_rgb_def)
  then show ?thesis
    using strip_frame_readable [OF slave_inv_parts(1) [OF strip_slave_inv], of 0 9 255 130 0] s
    by (auto simp: Let_def split_def strip_of_def)
qed

text \<open>Whether a stream is off is what a read of its control register says; the enable bit stays visible
  until the hardware has stopped, whatever was written.\<close>

definition stream_off :: "stream_id \<Rightarrow> slave \<Rightarrow> bool" where
  "stream_off i s \<longleftrightarrow> fst (read_CR i s) AND DMA_SxCR_EN = 0"

lemma stream_off_dma: "dma1 s = dma1 t \<Longrightarrow> stream_off i s = stream_off i t"
  by (simp add: stream_off_def read_CR_def Let_def)

lemma disable_reads_off:
  "off_lag i s < 100000 \<Longrightarrow> stream_off i (snd (dma_stream_disable i s))"
  by (simp add: stream_off_def dma_stream_disable_spec read_CR_def upd_stream_def en_cleared)

text \<open>A transmission whose two switch-offs take effect in time answers as its wait did, any other one
  with an error.\<close>

lemma transmit_answer:
  assumes "slave_wf s" "hw = neopixel_hw c"
  shows "fst (ws2812_transmit hw n s) =
    (if lags_fine (hw_stream hw) s then fst (transmit_wait hw n s) else HAL_ERROR)"
proof -
  let ?w = "ws2812_stop hw (snd (transmit_wait hw n s))"
  have "sl_lags ?w = off_lags (hw_stream hw) s" "sx_CR (dma1 ?w (hw_stream hw)) AND DMA_SxCR_EN \<noteq> 0"
    using transmit_wait_rest [OF assms, of n] en_or
    by (simp_all add: ws2812_stop_def upd_tim_def start_stream_def flip: or.assoc)
  then show ?thesis
    by (auto simp: ws2812_transmit_unfold transmit_status_def lags_fine_def Let_def off_lag_def [of _ ?w]
        split: list.splits)
qed

lemma transmit_reads_off:
  assumes "slave_wf s" "hw = neopixel_hw c" "lags_fine (hw_stream hw) s"
  shows "stream_off (hw_stream hw) (snd (ws2812_transmit hw n s))"
proof -
  let ?w = "ws2812_stop hw (snd (transmit_wait hw n s))"
  have "sl_lags ?w = off_lags (hw_stream hw) s" "sx_CR (dma1 ?w (hw_stream hw)) AND DMA_SxCR_EN \<noteq> 0"
    using transmit_wait_rest [OF assms(1,2), of n] en_or
    by (simp_all add: ws2812_stop_def upd_tim_def start_stream_def flip: or.assoc)
  then have "off_lag (hw_stream hw) ?w < 100000"
    using assms(3) by (simp add: off_lag_def lags_fine_def split: list.splits)
  from disable_reads_off [OF this] show ?thesis
    by (rule stream_off_dma [THEN iffD2, rotated])
      (use assms(3) in \<open>simp add: ws2812_transmit_unfold Let_def slave_emit_def write_HIFCR_def lags_fine_def\<close>)
qed

text \<open>C28: A transmission is honest and bounded: it reports success only if the strip's transfer-complete
  flag was raised while it waited and the stream then reads as switched off; a stream that does not
  stop within 100000 reads, before or after the frame, is reported as an error, and if it was before,
  nothing is sent and the timer is not touched; it gives up after 50 ms of the tick counter as long as
  the flags are looked at every millisecond; once started, it leaves the timer stopped with the pin
  low.\<close>

theorem transmission_honest:
  assumes "slave_wf s" and "tim_ready c (tim3 s)" and "\<forall>p\<in>set (fst (next_frame_polls s)). poll_ms p \<le> 1"
  shows "let hw = neopixel_hw c; (status, t) = ws2812_transmit hw n s
    in (status = HAL_OK \<longrightarrow> (\<exists>p\<in>set (fst (next_frame_polls s)). poll_raised p AND hw_dma_tc_flag hw \<noteq> 0))
       \<and> (status = HAL_OK \<longrightarrow> stream_off (hw_stream hw) t)
       \<and> (if lags_fine (hw_stream hw) s then stream_off (hw_stream hw) t else status = HAL_ERROR)
       \<and> sl_tick t - sl_tick s \<le> WS2812_DMA_TIMEOUT_MS
       \<and> (if off_lag (hw_stream hw) s < 100000 then tim_stopped hw (tim3 t)
          else status = HAL_ERROR \<and> sl_out t = sl_out s \<and> tim3 t = tim3 s)"
proof -
  let ?hw = "neopixel_hw c"
  let ?t = "snd (ws2812_transmit ?hw n s)"
  let ?w = "snd (transmit_wait ?hw n s)"
  obtain s3 where s3: "transmit_wait ?hw n s = ws2812_wait ?hw (sl_tick s3) (fst (next_frame_polls s)) s3"
    "sl_tick s3 = sl_tick s"
    by (rule transmit_wait_start [OF assms(1) refl])
  have "sl_tick ?w - sl_tick s \<le> 50"
    using ws2812_wait_time [of "fst (next_frame_polls s)" s3 "sl_tick s" ?hw] assms(3) s3
    by (simp add: list_all_iff)
  moreover have "sl_tick (ws2812_stop ?hw ?w) = sl_tick ?w" by (subst ws2812_stop_eq(1)) simp
  ultimately have tick: "sl_tick ?t - sl_tick s \<le> 50"
    by (simp add: ws2812_transmit_unfold Let_def slave_emit_def write_HIFCR_def)
  obtain status t where st: "ws2812_transmit ?hw n s = (status, t)" by (metis prod.exhaust)
  have ok: "status = HAL_OK \<Longrightarrow> \<exists>p\<in>set (fst (next_frame_polls s)). poll_raised p AND hw_dma_tc_flag ?hw \<noteq> 0"
    using ws2812_transmit_ok [OF assms(1) refl, of c n] by (simp add: st)
  have fine: "lags_fine (hw_stream ?hw) s \<Longrightarrow> stream_off (hw_stream ?hw) t"
    using transmit_reads_off [OF assms(1) refl, of c n] by (simp add: st)
  have late: "\<not> lags_fine (hw_stream ?hw) s \<Longrightarrow> status = HAL_ERROR"
    using transmit_answer [OF assms(1) refl, of c n] by (simp add: st)
  have stopped: "off_lag (hw_stream ?hw) s < 100000 \<Longrightarrow> tim_stopped ?hw (tim3 t)"
    using ws2812_transmit_out(2) [OF assms(1) refl assms(2), of n] by (simp add: st)
  have stuck: "\<not> off_lag (hw_stream ?hw) s < 100000 \<Longrightarrow> status = HAL_ERROR \<and> sl_out t = sl_out s \<and> tim3 t = tim3 s"
  proof -
    assume no: "\<not> off_lag (hw_stream ?hw) s < 100000"
    then have "tim3 (snd (ws2812_transmit ?hw n s)) = tim3 s" by (simp add: ws2812_transmit_unfold)
    then show ?thesis using ws2812_transmit_fails [OF no, of n] by (simp add: st)
  qed
  have "sl_tick t - sl_tick s \<le> 50" using tick by (simp add: st)
  moreover have "status = HAL_OK \<Longrightarrow> stream_off (hw_stream ?hw) t" using late fine by (metis hal_status.distinct(1))
  ultimately show ?thesis
    unfolding Let_def st case_prod_conv WS2812_DMA_TIMEOUT_MS_def
    using ok fine late stopped stuck by presburger
qed

theorem transmission_honest_witness:
  "sl_tick (snd (ws2812_transmit (neopixel_hw NEOPIXEL_CH_A) 696 strip_slave)) - sl_tick strip_slave \<le> 50
     \<and> stream_off DMA1_Stream4 (snd (ws2812_transmit (neopixel_hw NEOPIXEL_CH_A) 696 strip_slave))"
proof -
  have "tim_ready NEOPIXEL_CH_A (tim3 strip_slave)"
    using timer_setup_ready(2) by (simp add: strip_slave_def)
  moreover have "\<forall>p\<in>set (fst (next_frame_polls strip_slave)). poll_ms p \<le> 1"
    by (simp add: strip_slave_def next_frame_polls_def)
  moreover have "lags_fine DMA1_Stream4 strip_slave"
    by (simp add: lags_fine_def off_lag_def off_lags_def strip_slave_def slave_one_def slave_state0_def
        slave_memory_def empty_plan_def stream_reset_def)
  moreover have "hw_stream (neopixel_hw NEOPIXEL_CH_A) = DMA1_Stream4" by (simp add: neopixel_hw_def)
  ultimately show ?thesis
    using transmission_honest [OF slave_inv_parts(2) [OF strip_slave_inv], of NEOPIXEL_CH_A 696]
    by (simp add: Let_def split_def)
qed

text \<open>C29: The two strips share one timer and one buffer: initialising a strip succeeds exactly for a
  strip of the table, on the 84 MHz clock, with a stream that can be switched off; it then is ready with
  its timer set up and an empty buffer, and in every case the other strip stays as ready as it was.\<close>

theorem strips_share_timer:
  assumes "strip_wf s"
  shows "let hw = neopixel_hw (strip_of channel); (status, t) = neopixel_init channel s
    in (status = HAL_OK \<longleftrightarrow> channel < NEOPIXEL_CH_COUNT \<and> timer_input_clock_hz (sl_board s) = WS2812_TIMER_CLOCK_HZ
          \<and> off_lag (hw_stream hw) s < 100000)
       \<and> (status = HAL_OK \<longrightarrow> channel_ready t ! unat channel = 1 \<and> tim_ready (strip_of channel) (tim3 t)
            \<and> pwm_data t = replicate (unat WS2812_DMA_BUFFER_SIZE) 0)
       \<and> (\<forall>c. tim_ready c (tim3 s) \<longrightarrow> tim_ready c (tim3 t))
       \<and> (\<forall>i. channel_ready s ! i \<noteq> 0 \<longrightarrow> channel_ready t ! i \<noteq> 0)
       \<and> sl_out t = sl_out s"
proof -
  let ?o = "snd (init_off channel s)" and ?d = "init_done channel (snd (init_off channel s))"
  note tim = timer_setup_ready
  have upd: "(xs[k := 1 :: u8]) ! i \<noteq> 0" if "xs ! i \<noteq> 0" for xs k i
    using that by (cases "k = i"; cases "k < length xs") (simp_all add: list_update_beyond)
  have delay: "tim3 (HAL_Delay 1 ?d) = tim3 ?d" "pwm_data (HAL_Delay 1 ?d) = pwm_data ?d"
    "channel_ready (HAL_Delay 1 ?d) = channel_ready ?d" "sl_out (HAL_Delay 1 ?d) = sl_out ?d" if "channel < 2"
  proof -
    have "slave_wf ?d" using init_ready_task [OF assms that] by (simp add: task_rel_def strip_wf_slave)
    from HAL_Delay_inv [OF this, of 1] show "tim3 (HAL_Delay 1 ?d) = tim3 ?d" "pwm_data (HAL_Delay 1 ?d) = pwm_data ?d"
      "channel_ready (HAL_Delay 1 ?d) = channel_ready ?d" "sl_out (HAL_Delay 1 ?d) = sl_out ?d"
      by (simp_all add: irq_rel_def task_data_def)
  qed
  have len: "unat channel < length (channel_ready s)" if "channel < 2"
    using that assms by (simp add: strip_wf_def word_less_nat_alt)
  show ?thesis
    using tim delay len upd
    by (auto simp: neopixel_init_unfold Let_def init_off_keeps init_done_keeps init_off_lag)
qed

theorem strips_share_timer_witness:
  "tim_ready NEOPIXEL_CH_A (tim3 (snd (neopixel_init 1 strip_slave)))"
proof -
  have "tim_ready NEOPIXEL_CH_A (tim3 strip_slave)"
    using timer_setup_ready(2) by (simp add: strip_slave_def)
  then show ?thesis
    using strips_share_timer [OF slave_inv_parts(1) [OF strip_slave_inv], of 1] by (simp add: Let_def split_def)
qed

end
