(* ===== verification/Ack_Arrival.thy ===== *)
theory Ack_Arrival
  imports Master_Properties
begin

text \<open>What the master makes of an acknowledgement that arrives while it waits: the bytes are assembled
  one by one by the interrupt, the line feed puts the acknowledgement into the queue, the blocked task
  wakes up, and the exchange is confirmed.\<close>

subsection \<open>One byte during a wait\<close>

lemma run_rs485_byte:
  "run_input (Rs485Byte b) s = emit (RxArm USART1) (ack_feed_byte b s)"
  by (simp add: run_input_def HAL_UART_RxCpltCallback_def)

lemma later_view:
  "ack_line_view (pass_time d (s\<lparr> agenda := ag \<rparr>)) = ack_line_view s"
  "ack_queue (pass_time d (s\<lparr> agenda := ag \<rparr>)) = ack_queue s"
  by (simp_all add: ack_line_view_def pass_time_def)

lemma waiting_items: "master_wf s \<Longrightarrow> uxMessagesWaiting (ack_queue s) = length (q_items (ack_queue s))"
  by (simp add: master_wf_defs wf_queue_def q_items_def)

lemma byte_arrives:
  assumes "master_wf s" "ack_line_view s = (acc, False)" "\<not> is_eol b" "length acc < 16"
  shows "master_wf (run_input (Rs485Byte b) s)" "ack_line_view (run_input (Rs485Byte b) s) = (acc @ [b], False)"
    "ack_queue (run_input (Rs485Byte b) s) = ack_queue s"
proof -
  have line: "ack_line_wf s" using assms(1) by (simp add: master_wf_def)
  show "master_wf (run_input (Rs485Byte b) s)" using run_input_wf [OF assms(1)] .
  show "ack_line_view (run_input (Rs485Byte b) s) = (acc @ [b], False)"
    using ack_asm.feed_view [OF line, of b] assms(2-4) by (simp add: run_rs485_byte asm_step_def)
  show "ack_queue (run_input (Rs485Byte b) s) = ack_queue s"
    using assms(2-4) by (simp add: run_rs485_byte ack_feed_byte_cases [OF line])
qed

lemma eol_arrives:
  assumes "master_wf s" "ack_line_view s = (acc, False)" "is_eol e" "parse_ack acc = Some a"
    "q_items (ack_queue s) = []"
  shows "master_wf (run_input (Rs485Byte e) s)" "q_items (ack_queue (run_input (Rs485Byte e) s)) = [a]"
proof -
  have line: "ack_line_wf s" and q: "wf_queue (ack_queue s)" "uxLength (ack_queue s) = 8"
    using assms(1) by (simp_all add: master_wf_def queues_wf_def)
  have acc: "acc = ack_bytes (ack_slave a) (ack_channel a) (ack_risk_level a)"
    using assms(4) by (simp add: parse_ack_iff)
  then have ne: "acc \<noteq> []" by (simp add: ack_bytes_def)
  have act: "ack_line_act acc s = ack_accept a s"
    using assms(4) acc by (subst ack_feed_line_parse) (simp_all add: ack_bytes_def)
  show "master_wf (run_input (Rs485Byte e) s)" using run_input_wf [OF assms(1)] .
  have "ack_queue (run_input (Rs485Byte e) s) = snd (rtos_put a (ack_queue s))"
    using assms(2,3) ne
    by (simp add: run_rs485_byte ack_feed_byte_cases [OF line] act ack_accept_def ack_queue_put_def
        osMessageQueuePut_ISR_eq osMessageQueuePut_rtos)
  then show "q_items (ack_queue (run_input (Rs485Byte e) s)) = [a]"
    using q assms(5) by (simp add: ring.put_items)
qed

subsection \<open>A line during a wait\<close>

lemma ack_block_line:
  "\<lbrakk>master_wf s; ack_line_view s = (acc, False); q_items (ack_queue s) = [];
    \<forall>b\<in>set l. \<not> is_eol b; is_eol e; length (acc @ l) \<le> 16; parse_ack (acc @ l) = Some a;
    map snd evs = map Rs485Byte (l @ [e]); sum_list (map fst evs) < n\<rbrakk>
   \<Longrightarrow> master_wf (ack_block (evs @ rest) n s) \<and> q_items (ack_queue (ack_block (evs @ rest) n s)) = [a]"
proof (induction l arbitrary: s acc evs n)
  case Nil
  then obtain d where evs: "evs = [(d, Rs485Byte e)]" by (auto simp: map_eq_Cons_conv)
  let ?s = "pass_time d (s\<lparr> agenda := rest \<rparr>)"
  have "master_wf ?s" "ack_line_view ?s = (acc, False)" "q_items (ack_queue ?s) = []"
    using Nil.prems by (simp_all add: later_view)
  from eol_arrives [OF this(1,2) Nil.prems(5) _ this(3), of a] Nil.prems
  show ?case by (simp add: evs Let_def waiting_items)
next
  case (Cons b l)
  then obtain d evs' where evs: "evs = (d, Rs485Byte b) # evs'" "map snd evs' = map Rs485Byte (l @ [e])"
    by (auto simp: map_eq_Cons_conv)
  let ?s = "run_input (Rs485Byte b) (pass_time d (s\<lparr> agenda := evs' @ rest \<rparr>))"
  have "master_wf (pass_time d (s\<lparr> agenda := evs' @ rest \<rparr>))"
    "ack_line_view (pass_time d (s\<lparr> agenda := evs' @ rest \<rparr>)) = (acc, False)"
    "\<not> is_eol b" "length acc < 16"
    using Cons.prems by (simp_all add: later_view)
  note s = byte_arrives [OF this]
  have items: "q_items (ack_queue ?s) = []" using s(3) Cons.prems(3) by (simp add: later_view)
  have "master_wf (ack_block (evs' @ rest) (n - d) ?s) \<and> q_items (ack_queue (ack_block (evs' @ rest) (n - d) ?s)) = [a]"
    using Cons.prems evs by (intro Cons.IH [OF s(1,2) items]) auto
  then show ?case
    using Cons.prems evs(1) waiting_items [OF s(1)] items by (simp add: Let_def)
qed

subsection \<open>A line during the transmission\<close>

text \<open>What is in the queue stays in front while nobody takes it.\<close>

lemma run_input_keeps_front:
  assumes "master_wf s" "q_items (ack_queue s) = a # xs"
  shows "\<exists>ys. q_items (ack_queue (run_input i s)) = a # ys"
proof (cases "case i of Rs485Byte b \<Rightarrow> False | _ \<Rightarrow> True")
  case True
  then have "ack_queue (run_input i s) = ack_queue s"
    using run_input_line_frame [of i s]
    by (cases i) (simp_all add: run_input_def HAL_UART_ErrorCallback_def veda_rs485_ack_line_reset_def)
  then show ?thesis using assms(2) by simp
next
  case False
  then obtain b where i: "i = Rs485Byte b" by (cases i) simp_all
  have line: "ack_line_wf s" and q: "wf_queue (ack_queue s)"
    using assms(1) by (simp_all add: master_wf_def queues_wf_def)
  have act: "ack_queue (ack_line_act l s) = ack_queue s
      \<or> (\<exists>k. ack_queue (ack_line_act l s) = snd (rtos_put k (ack_queue s)))" if "length l \<le> 16" for l
    using ack_line_act_queue [OF that, of s] by auto
  have "ack_queue (ack_feed_byte b s) = ack_queue s
      \<or> (\<exists>k. ack_queue (ack_feed_byte b s) = snd (rtos_put k (ack_queue s)))"
    using act [of "fst (ack_line_view s)"] line
    by (auto simp: ack_feed_byte_cases [OF line]) (auto simp: ack_line_view_def ack_line_wf_def)
  then have "q_items (ack_queue (ack_feed_byte b s)) = q_items (ack_queue s)
      \<or> (\<exists>k. q_items (ack_queue (ack_feed_byte b s)) = q_items (ack_queue s) @ [k])"
    using ring.put_items [OF q] by (auto split: if_splits)
  then show ?thesis using assms(2) by (auto simp: i run_rs485_byte)
qed

lemma idle_keeps_front:
  "master_wf s \<Longrightarrow> q_items (ack_queue s) = a # xs \<Longrightarrow> \<exists>ys. q_items (ack_queue (idle ag n s)) = a # ys"
proof (induction ag n s arbitrary: xs rule: idle.induct)
  case (2 d i rest n s)
  let ?s = "run_input i (pass_time d (s\<lparr> agenda := rest \<rparr>))"
  have "master_wf ?s" using 2(2) by (simp add: run_input_wf)
  moreover obtain ys where "q_items (ack_queue ?s) = a # ys"
    using run_input_keeps_front [of "pass_time d (s\<lparr> agenda := rest \<rparr>)" a xs i] 2(2,3) by auto
  ultimately show ?case using 2 by auto
qed simp

text \<open>After some time either the whole line has arrived, or a part of it and the rest is still to come.\<close>

definition line_coming :: "u8 list \<Rightarrow> u8 \<Rightarrow> rs485_ack_t \<Rightarrow> nat \<Rightarrow> master \<Rightarrow> bool" where
  "line_coming l e a n s \<longleftrightarrow> master_wf s \<and>
     ((\<exists>xs. q_items (ack_queue s) = a # xs)
      \<or> q_items (ack_queue s) = [] \<and>
        (\<exists>acc l' evs rest. ack_line_view s = (acc, False) \<and> l = acc @ l' \<and> agenda s = evs @ rest
           \<and> map snd evs = map Rs485Byte (l' @ [e]) \<and> sum_list (map fst evs) < n))"

lemma idle_line:
  "\<lbrakk>master_wf s; ack_line_view s = (acc, False); q_items (ack_queue s) = [];
    \<forall>b\<in>set l. \<not> is_eol b; is_eol e; length (acc @ l) \<le> 16; parse_ack (acc @ l) = Some a;
    map snd evs = map Rs485Byte (l @ [e]); sum_list (map fst evs) < k\<rbrakk>
   \<Longrightarrow> line_coming (acc @ l) e a k (idle (evs @ rest) n s)"
proof (induction l arbitrary: s acc evs n k)
  case Nil
  then obtain d where evs: "evs = [(d, Rs485Byte e)]" by (auto simp: map_eq_Cons_conv)
  let ?s = "pass_time d (s\<lparr> agenda := rest \<rparr>)"
  have "master_wf ?s" "ack_line_view ?s = (acc, False)" "q_items (ack_queue ?s) = []"
    using Nil.prems by (simp_all add: later_view)
  from eol_arrives [OF this(1,2) Nil.prems(5) _ this(3), of a] Nil.prems
  have arr: "master_wf (run_input (Rs485Byte e) ?s)" "q_items (ack_queue (run_input (Rs485Byte e) ?s)) = [a]"
    by simp_all
  show ?case
  proof (cases "d < n")
    case True
    then show ?thesis
      using idle_keeps_front [OF arr] later_wf [OF idle_later [OF arr(1)]] by (auto simp: evs line_coming_def)
  next
    case False
    have sum: "sum_list (map fst [(d - n, Rs485Byte e)]) < k" using Nil.prems(9) evs by simp
    show ?thesis
      unfolding line_coming_def
      by (intro conjI disjI2 exI [of _ acc] exI [of _ "[]"] exI [of _ "[(d - n, Rs485Byte e)]"] exI [of _ rest])
        (use False sum Nil.prems in \<open>simp_all add: evs later_view\<close>)
  qed
next
  case (Cons b l)
  then obtain d evs' where evs: "evs = (d, Rs485Byte b) # evs'" "map snd evs' = map Rs485Byte (l @ [e])"
    by (auto simp: map_eq_Cons_conv)
  let ?s = "run_input (Rs485Byte b) (pass_time d (s\<lparr> agenda := evs' @ rest \<rparr>))"
  have "master_wf (pass_time d (s\<lparr> agenda := evs' @ rest \<rparr>))"
    "ack_line_view (pass_time d (s\<lparr> agenda := evs' @ rest \<rparr>)) = (acc, False)"
    "\<not> is_eol b" "length acc < 16"
    using Cons.prems by (simp_all add: later_view)
  note s = byte_arrives [OF this]
  have items: "q_items (ack_queue ?s) = []" using s(3) Cons.prems(3) by (simp add: later_view)
  show ?case
  proof (cases "d < n")
    case True
    have "line_coming ((acc @ [b]) @ l) e a k (idle (evs' @ rest) (n - d) ?s)"
      using Cons.prems evs by (intro Cons.IH [OF s(1,2) items]) auto
    then show ?thesis using True by (simp add: evs(1))
  next
    case False
    have sum: "sum_list (map fst ((d - n, Rs485Byte b) # evs')) < k" using Cons.prems(9) evs(1) by simp
    show ?thesis
      unfolding line_coming_def
      by (intro conjI disjI2 exI [of _ acc] exI [of _ "b # l"] exI [of _ "(d - n, Rs485Byte b) # evs'"] exI [of _ rest])
        (use False sum Cons.prems evs in \<open>simp_all add: later_view\<close>)
  qed
qed

lemma wait_confirmed:
  assumes coming: "line_coming l e a 100 s" and l: "\<forall>b\<in>set l. \<not> is_eol b" "is_eol e" "parse_ack l = Some a"
    and a: "ack_channel a = ch + 1" "ack_risk_level a = r"
  shows "fst (wait_for_slave_ack ch r s) = 1"
proof -
  have wf: "master_wf s" using coming by (simp add: line_coming_def)
  have "fst (ack_queue_take 100 s) = Some a"
  proof (cases "q_items (ack_queue s) = []")
    case False
    then obtain xs where "q_items (ack_queue s) = a # xs" using coming by (auto simp: line_coming_def)
    moreover from this have "0 < uxMessagesWaiting (ack_queue s)" using waiting_items [OF wf] by simp
    moreover have "wf_queue (ack_queue s)" using wf by (simp add: master_wf_defs)
    ultimately show ?thesis
      using ring.get_some [of "ack_queue s" a] by (simp add: ack_queue_take_def ack_queue_poll_def split_def Let_def)
  next
    case True
    then obtain acc l' evs rest where c: "ack_line_view s = (acc, False)" "l = acc @ l'" "agenda s = evs @ rest"
      "map snd evs = map Rs485Byte (l' @ [e])" "sum_list (map fst evs) < 100"
      using coming by (auto simp: line_coming_def)
    have "length l \<le> 16" using l(3) by (simp add: parse_ack_iff ack_bytes_def)
    then have b: "master_wf (ack_block (evs @ rest) 100 s)" "q_items (ack_queue (ack_block (evs @ rest) 100 s)) = [a]"
      using ack_block_line [OF wf c(1) True, of l' e a evs 100 rest] l c(2,4,5) by simp_all
    then have "wf_queue (ack_queue (ack_block (evs @ rest) 100 s))" by (simp add: master_wf_defs)
    then have "fst (ack_queue_poll (ack_block (evs @ rest) 100 s)) = Some a"
      using ring.get_some [of _ a] b(2) by (simp add: ack_queue_poll_def split_def Let_def)
    then show ?thesis using True waiting_items [OF wf] by (simp add: ack_queue_take_def c(3))
  qed
  then show ?thesis
    using a by (cases "ack_queue_take 100 s")
      (simp add: wait_for_slave_ack_def ack_wait_loop.simps ack_now_ms_def)
qed

subsection \<open>The exchange\<close>

text \<open>Whether the UART driver will accept the next transmission.\<close>

definition next_tx_ok :: "master \<Rightarrow> bool" where
  "next_tx_ok s = (case tx_results s of [] \<Rightarrow> True | (st, d) # rest \<Rightarrow> st = HAL_OK)"

lemma drain_tx: "tx_results (drain_ack_queue s) = tx_results s"
proof (induction s rule: drain_ack_queue.induct)
  case (1 s)
  obtain r s1 where t: "ack_queue_take 0 s = (r, s1)" by (cases "ack_queue_take 0 s")
  have "tx_results (snd (ack_queue_take 0 s)) = tx_results s"
    by (simp add: ack_queue_take_def ack_queue_poll_def split_def Let_def)
  then have f: "tx_results s1 = tx_results s" using t by simp
  show ?case
  proof (cases r)
    case None
    then show ?thesis using t f by (simp add: drain_ack_queue.simps [of s])
  next
    case (Some a)
    then show ?thesis
      using 1 [OF t [symmetric] Some] t f by (simp add: drain_ack_queue.simps [of s])
  qed
qed

lemma send_accepted: "next_tx_ok s \<Longrightarrow> fst (send_channel_command ch r s) = 1"
  by (cases "tx_results s")
    (auto simp: send_channel_command_unfold next_tx_ok_def HAL_UART_Transmit_def)

lemma exchange_confirmed:
  assumes wf: "master_wf s" and view: "ack_line_view s = ([], False)" and tx: "next_tx_ok s"
    and l: "\<forall>b\<in>set l. \<not> is_eol b" "is_eol e" "parse_ack l = Some a"
    and ag: "agenda s = evs @ rest" "map snd evs = map Rs485Byte (l @ [e])" "sum_list (map fst evs) < 100"
    and a: "ack_channel a = ch + 1" "ack_risk_level a = r"
  shows "fst (dispatch_exchange ch r s) = 1"
proof -
  let ?s1 = "drain_ack_queue s"
  have 1: "master_wf ?s1" using later_wf [OF drain_later [OF wf]] .
  have "length ([] @ l) \<le> 16" using l(3) by (simp add: parse_ack_iff ack_bytes_def)
  then have "line_coming ([] @ l) e a 100 (idle (evs @ rest) (tx_duration ?s1) (send_start ch r ?s1))"
    using 1 drain_frame [of s] drain_empties [OF wf] view
    by (intro idle_line l(1,2) ag(2,3)) (simp_all add: send_start_frame l(3))
  then have "line_coming l e a 100 (snd (send_channel_command ch r ?s1))"
    using drain_frame [of s] ag(1) by (simp add: send_channel_command_unfold line_coming_def)
  from wait_confirmed [OF this l a]
  have "fst (wait_for_slave_ack ch r (snd (send_channel_command ch r ?s1))) = 1" .
  moreover have "next_tx_ok ?s1" using tx by (simp add: next_tx_ok_def drain_tx)
  note send_accepted [OF this, of ch r]
  ultimately show ?thesis by (simp add: dispatch_exchange_def Let_def split_def)
qed

text \<open>A whole tick whose acknowledgement arrives in time.\<close>

lemma tick_confirmed:
  assumes wf: "master_wf s" and ch: "sched_choice s \<noteq> SCHED_NO_CHANNEL"
    and view: "ack_line_view s = ([], False)" and tx: "next_tx_ok s"
    and l: "\<forall>b\<in>set l. \<not> is_eol b" "is_eol e" "parse_ack l = Some a"
    and ag: "agenda s = evs @ rest" "map snd evs = map Rs485Byte (l @ [e])" "sum_list (map fst evs) < 100"
    and a: "ack_channel a = sched_choice s + 1" "ack_risk_level a = desired_risk (ctrl s (sched_choice s))"
  shows "applied_risk (ctrl (sched_tick s) (sched_choice s)) = desired_risk (ctrl s (sched_choice s))"
    "retry (ctrl (sched_tick s) (sched_choice s)) = 0"
    "channel_status (sched_tick s) =
       (channel_status s)[unat (sched_choice s) := risk_to_status (desired_risk (ctrl s (sched_choice s)))]"
proof -
  have start: "master_wf (tick_start s)" "ack_line_view (tick_start s) = ([], False)" "next_tx_ok (tick_start s)"
    "agenda (tick_start s) = evs @ rest"
    using cursor_wf [OF _ mod4_less] wf view tx ag(1)
    by (simp_all add: tick_start_def Let_def ack_line_view_def next_tx_ok_def)
  have "fst (tick_exchange s) = 1"
    unfolding tick_exchange_def using exchange_confirmed [OF start(1-3) l start(4) ag(2,3) a] .
  then show "applied_risk (ctrl (sched_tick s) (sched_choice s)) = desired_risk (ctrl s (sched_choice s))"
    "retry (ctrl (sched_tick s) (sched_choice s)) = 0"
    "channel_status (sched_tick s) =
       (channel_status s)[unat (sched_choice s) := risk_to_status (desired_risk (ctrl s (sched_choice s)))]"
    using sched_tick_chosen(2) [OF wf ch] sched_tick_status [OF wf ch] by simp_all
qed

subsection \<open>What was sent stays sent\<close>

definition out_grows :: "master \<Rightarrow> master \<Rightarrow> bool" where
  "out_grows s t \<longleftrightarrow> (\<exists>es. out t = out s @ es)"

lemma out_grows_refl [simp]: "out_grows s s"
  by (simp add: out_grows_def)

lemma out_grows_trans: "out_grows s t \<Longrightarrow> out_grows t u \<Longrightarrow> out_grows s u"
  by (auto simp: out_grows_def)

lemma out_grows_frame [simp]:
  "out_grows (s\<lparr> agenda := ag \<rparr>) t = out_grows s t" "out_grows (pass_time d s) t = out_grows s t"
  "out_grows s (pass_time d t) = out_grows s t" "out_grows s (t\<lparr> agenda := ag \<rparr>) = out_grows s t"
  "out_grows s (upd_stats f t) = out_grows s t" "out_grows s (upd_ctrl c g t) = out_grows s t"
  by (simp_all add: out_grows_def pass_time_def)

lemma run_input_out: "out_grows s (run_input i s)"
  by (cases i)
    (simp_all add: out_grows_def run_input_def HAL_UART_ErrorCallback_def HAL_UART_RxCpltCallback_def
      rpi_put_unfold Let_def StartRxTask_iter_def StartCtrlTask_iter_def StartTxTask_iter_def
      StartHeartbeatTask_iter_unfold veda_downlink_queue_get_def veda_uplink_queue_get_def split_def
      frame_simps cmd_put_unfold veda_downlink_resync_def count_frames_bad_def veda_rs485_ack_line_reset_def
      uplink_send_def split: option.split)

lemma ack_block_out: "out_grows s (ack_block ag n s)"
proof (induction ag n s rule: ack_block.induct)
  case (2 d i rest n s)
  let ?s = "run_input i (pass_time d (s\<lparr> agenda := rest \<rparr>))"
  have "out_grows s ?s" using run_input_out [of "pass_time d (s\<lparr> agenda := rest \<rparr>)" i] by simp
  then show ?case using 2 out_grows_trans [of s ?s] by (simp add: Let_def)
qed simp

lemma ack_queue_poll_out: "out (snd (ack_queue_poll s)) = out s"
  by (simp add: ack_queue_poll_def split_def Let_def)

lemma ack_queue_take_out: "out_grows s (snd (ack_queue_take t s))"
  using ack_block_out [of s "agenda s" "unat t"]
  by (simp add: ack_queue_take_def out_grows_def ack_queue_poll_out)

lemma ack_wait_loop_out: "out_grows s (snd (ack_wait_loop start ch r s))"
proof (induction start ch r s rule: ack_wait_loop.induct)
  case (1 start ch r s)
  obtain a s1 where t: "ack_queue_take (RS485_ACK_TIMEOUT_MSEC - (ack_now_ms s - start)) s = (a, s1)"
    by (cases "ack_queue_take (RS485_ACK_TIMEOUT_MSEC - (ack_now_ms s - start)) s")
  have g: "out_grows s s1"
    using ack_queue_take_out [of s "RS485_ACK_TIMEOUT_MSEC - (ack_now_ms s - start)"] t by simp
  have "out_grows s (snd (ack_wait_loop start ch r (count_ack_mismatch s1)))"
    if "\<not> RS485_ACK_TIMEOUT_MSEC \<le> ack_now_ms s - start" "a = Some k"
      "\<not> (ack_channel k = ch \<and> ack_risk_level k = r)" for k
  proof -
    have "out_grows s (count_ack_mismatch s1)" using g by (simp add: count_ack_mismatch_def)
    then show ?thesis using 1 [OF refl that(1) t [symmetric] that(2,3)] out_grows_trans by blast
  qed
  then show ?case
    using t g by (subst ack_wait_loop.simps) (auto simp: Let_def count_ack_timeout_def split: option.split)
qed

lemma idle_out: "out_grows s (idle ag n s)"
proof (induction ag n s rule: idle.induct)
  case (2 d i rest n s)
  let ?s = "run_input i (pass_time d (s\<lparr> agenda := rest \<rparr>))"
  have "out_grows s ?s" using run_input_out [of "pass_time d (s\<lparr> agenda := rest \<rparr>)" i] by simp
  then show ?case using 2 out_grows_trans [of s ?s] by simp
qed simp

lemma dispatch_exchange_sent:
  "\<exists>st. UartTx USART1 (command_frame ch r) RS485_TX_TIMEOUT_MSEC st \<in> set (out (snd (dispatch_exchange ch r s)))"
proof -
  let ?s1 = "drain_ack_queue s"
  let ?s2 = "snd (send_channel_command ch r ?s1)"
  obtain st where "UartTx USART1 (command_frame ch r) RS485_TX_TIMEOUT_MSEC st \<in> set (out (send_start ch r ?s1))"
    by (auto simp: send_start_def frame_simps)
  then have "UartTx USART1 (command_frame ch r) RS485_TX_TIMEOUT_MSEC st \<in> set (out ?s2)"
    using idle_out [of "send_start ch r ?s1" "agenda ?s1" "tx_duration ?s1"]
    by (auto simp: send_channel_command_unfold out_grows_def)
  moreover have "out_grows ?s2 (snd (dispatch_exchange ch r s))"
    using ack_wait_loop_out by (simp add: dispatch_exchange_def wait_for_slave_ack_def Let_def split_def)
  ultimately show ?thesis by (auto simp: out_grows_def)
qed

lemma sched_tick_sent:
  assumes "sched_choice s \<noteq> SCHED_NO_CHANNEL"
  shows "\<exists>st. UartTx USART1 (command_frame (sched_choice s) (desired_risk (ctrl s (sched_choice s))))
      RS485_TX_TIMEOUT_MSEC st \<in> set (out (sched_tick s))"
proof -
  have lat: "out (note_latency ch r t) = out t" for ch r t by (simp add: note_latency_def Let_def)
  have up: "out (enqueue_uplink ch k t) = out t" for ch k t by (simp add: enqueue_uplink_unfold veda_now_ms_def Let_def)
  have "out (dispatch_channel ch r f t) = out (snd (dispatch_exchange ch r t))" for ch r f t
    by (simp add: dispatch_channel_def Let_def split_def dispatch_success_def dispatch_failure_def lat up)
  then show ?thesis using dispatch_exchange_sent by (simp add: sched_tick_dispatch [OF assms])
qed

end
