(* ===== verification/Closed_Loop.thy ===== *)
theory Closed_Loop
  imports Link_Properties Driver_Properties Ack_Arrival
begin

text \<open>The bus between the master and the two slaves: what the master's commands are to a slave, what a
  slave's acknowledgements are to the master and to the other slave, and the closed loop of one
  exchange.\<close>

subsection \<open>The two line formats\<close>

definition home_slave :: "u8 \<Rightarrow> u8" where
  "home_slave ch = ch div CHANNELS_PER_SLAVE + 1"

lemma command_frame_line:
  assumes "ch < 4" "r \<le> 2"
  shows "command_frame ch r = command_bytes (home_slave ch) (ch + 1) r @ [LF]"
  using assms
  by (elim word_upper_cases4 word_le_2_cases)
     (simp_all add: command_frame_def command_bytes_def home_slave_def CHANNELS_PER_SLAVE_def)

lemma ack_frame_line: "r \<le> 2 \<Longrightarrow> ack_frame my c r = ack_bytes my c r @ [LF]"
  by (erule word_le_2_cases) (simp_all add: ack_frame_def ack_bytes_def)

lemma digit_not_eol: "digit19 d \<Longrightarrow> \<not> is_eol (48 + d)" "(d :: u8) \<le> 2 \<Longrightarrow> \<not> is_eol (48 + d)"
proof -
  have "\<not> is_eol (48 + d)" if "d \<le> 9" for d :: u8
  proof -
    have "unat d \<le> 9" using that by (simp add: word_le_nat_alt)
    then have "unat (48 + d) = 48 + unat d" by (simp add: unat_word_ariths)
    then have "48 + d \<noteq> 13" "48 + d \<noteq> 10" by (auto simp: word_unat_eq_iff)
    then show ?thesis by (simp add: is_eol_def)
  qed
  moreover have "d \<le> 2 \<Longrightarrow> d \<le> 9" by (erule order_trans) simp
  ultimately show "digit19 d \<Longrightarrow> \<not> is_eol (48 + d)" "d \<le> 2 \<Longrightarrow> \<not> is_eol (48 + d)"
    by (auto simp: digit19_def)
qed

lemma line_not_eol:
  "digit19 m \<Longrightarrow> digit19 c \<Longrightarrow> r \<le> 2 \<Longrightarrow> \<forall>b\<in>set (command_bytes m c r). \<not> is_eol b"
  "digit19 m \<Longrightarrow> digit19 c \<Longrightarrow> r \<le> 2 \<Longrightarrow> \<forall>b\<in>set (ack_bytes m c r). \<not> is_eol b"
  by (simp_all add: command_bytes_def ack_bytes_def digit_not_eol) (simp_all add: is_eol_def)

lemma line_assembled:
  "digit19 m \<Longrightarrow> digit19 c \<Longrightarrow> r \<le> 2 \<Longrightarrow> assembled 16 (command_bytes m c r @ [LF]) = [command_bytes m c r]"
  "digit19 m \<Longrightarrow> digit19 c \<Longrightarrow> r \<le> 2 \<Longrightarrow> assembled 16 (ack_bytes m c r @ [LF]) = [ack_bytes m c r]"
  using assembled_line [OF line_not_eol(1), of m c r LF 16 "[]"] assembled_line [OF line_not_eol(2), of m c r LF 16 "[]"]
  by (simp_all add: is_eol_def deliverable_def command_bytes_def ack_bytes_def assembled_no_eol)

lemma home_digits: "ch < 4 \<Longrightarrow> digit19 (home_slave ch) \<and> digit19 (ch + 1) \<and> buildable (home_slave ch)"
  by (erule word_upper_cases4) (simp_all add: home_slave_def digit19_def buildable_def)

lemma home_owns:
  assumes "ch < 4" "buildable my"
  shows "own_channel my (ch + 1) \<longleftrightarrow> my = home_slave ch"
    "my = home_slave ch \<Longrightarrow> own_index my (ch + 1) = unat (ch mod 2)"
  using assms
  by (auto elim!: word_upper_cases4 simp: buildable_def own_channel_def home_slave_def own_index_def word_le_nat_alt)

subsection \<open>Commands\<close>

lemma obeyed_command:
  assumes "ch < 4" "r \<le> 2" "buildable my"
  shows "obeyed my (assembled 16 (command_frame ch r)) =
    (if my = home_slave ch then [(unat (ch mod 2), ch + 1, r)] else [])"
proof -
  note d = home_digits [OF assms(1)]
  let ?l = "command_bytes (home_slave ch) (ch + 1) r"
  have read: "read_command ?l = Some \<lparr> cmd_slave = home_slave ch, cmd_channel = ch + 1, cmd_risk = r \<rparr>"
    using d by (simp add: read_command_iff)
  have "verdict_of my ?l = VERDICT_APPLIED \<longleftrightarrow> my = home_slave ch"
    using home_owns(1) [OF assms(1,3)] assms(2) unfolding verdict_of_def read own_channel_def by auto
  moreover have "assembled 16 (command_frame ch r) = [?l]"
    unfolding command_frame_line [OF assms(1,2)] using d assms(2) by (intro line_assembled(1)) simp_all
  ultimately show ?thesis
    using home_owns(2) [OF assms(1,3)] by (simp add: obeyed_def read Let_def)
qed

text \<open>C30: A command of the master reaches exactly one slave: the slave the channel belongs to records
  the level on that channel alone and has the acknowledgement for it waiting, the other slave hears the
  same bytes and changes neither its levels nor its outgoing acknowledgement.\<close>

theorem command_reaches_one:
  assumes "slave_wf s" and "slave_line_view s = ([], False)" and "ack_pending s = 0" and "ch < 4" and "r \<le> 2"
  shows "let t = fold process_rs485_byte (command_frame ch r) s
    in if my_slave_id s = ch div CHANNELS_PER_SLAVE + 1
       then channel_risk t = (channel_risk s)[unat (ch mod CHANNELS_PER_SLAVE) := r]
            \<and> ack_pending t = 1 \<and> ack_channel_slot t = ch + 1 \<and> ack_risk_slot t = r
       else channel_risk t = channel_risk s \<and> ack_pending t = 0"
  using stream_levels [OF assms(1-3), of "command_frame ch r"] slave_wf_parts(2) [OF assms(1)]
  by (simp add: obeyed_command [OF assms(4,5)] Let_def levels_after_def home_slave_def split: if_splits)

theorem command_reaches_one_witness:
  "channel_risk (fold process_rs485_byte (command_frame 1 2) slave_one) = [0, 2]
     \<and> channel_risk (fold process_rs485_byte (command_frame 2 2) slave_one) = [0, 0]"
proof -
  have s: "slave_line_view slave_one = ([], False)" "ack_pending slave_one = 0" "channel_risk slave_one = [0, 0]"
    by (simp_all add: slave_line_view_def slave_one_def slave_state0_def slave_memory_def)
  show ?thesis
    using command_reaches_one [OF slave_one_wf(1) s(1,2), of 1 2] command_reaches_one [OF slave_one_wf(1) s(1,2), of 2 2]
    by (simp add: s(3) slave_one_wf(3) Let_def)
qed

subsection \<open>Acknowledgements\<close>

lemma process_bytes_step:
  "slave_inv s \<Longrightarrow> step_rel s (fold process_rs485_byte bs s) \<and> sl_out (fold process_rs485_byte bs s) = sl_out s"
proof (induction bs arbitrary: s)
  case (Cons b bs)
  have r: "irq_rel s (process_rs485_byte b s)"
    using process_rs485_byte_inv [OF slave_inv_parts(2) [OF Cons.prems]] .
  then have "step_rel s (process_rs485_byte b s)" using step_of_irq [OF Cons.prems] by blast
  moreover have "sl_out (process_rs485_byte b s) = sl_out s"
    using r by (simp add: irq_rel_def task_data_def)
  ultimately show ?case
    using Cons.IH [OF step_inv] step_trans by simp
qed (simp add: step_refl)

lemma waiting_ack_valid:
  assumes "slave_inv s" "ack_pending s \<noteq> 0"
  shows "own_channel (my_slave_id s) (ack_channel_slot s)" "ack_risk_slot s \<le> 2"
    "digit19 (my_slave_id s)" "digit19 (ack_channel_slot s)"
    "valid_ack \<lparr> ack_slave = my_slave_id s, ack_channel = ack_channel_slot s, ack_risk_level = ack_risk_slot s \<rparr>"
proof -
  show own: "own_channel (my_slave_id s) (ack_channel_slot s)" "ack_risk_slot s \<le> 2"
    using slave_inv_parts(2) [OF assms(1)] assms(2) unfolding slave_wf_def ack_slot_ok_def own_channel_def by blast+
  show d: "digit19 (my_slave_id s)" "digit19 (ack_channel_slot s)"
    using digit19_own [OF slave_inv_parts(3) [OF assms(1)]] own(1) by blast+
  show "valid_ack \<lparr> ack_slave = my_slave_id s, ack_channel = ack_channel_slot s, ack_risk_level = ack_risk_slot s \<rparr>"
    using own(2) d by (simp add: valid_ack_def digit19_def)
qed

lemma ack_service_sends:
  assumes "slave_inv s" "de_low s" "ack_pending s \<noteq> 0"
  shows "\<exists>st. sl_out (veda_rs485_ack_service s) = sl_out s @
       [SlaveTx USART1 (ack_frame (my_slave_id s) (ack_channel_slot s) (ack_risk_slot s)) RS485_ACK_TX_TIMEOUT_MSEC st True]"
    "ack_pending (veda_rs485_ack_service s) = 0"
  using rs485_send_ack_step(2) [OF assms(1,2) waiting_ack_valid(1,2) [OF assms(1,3)]] assms(3)
  by (simp_all add: veda_rs485_ack_service_def)

text \<open>A slave does not take an acknowledgement for a command.\<close>

lemma ack_not_obeyed:
  assumes "digit19 m" "digit19 c" "r \<le> 2"
  shows "obeyed my (assembled 16 (ack_frame m c r)) = []"
proof -
  have "verdict_of my (ack_bytes m c r) \<noteq> VERDICT_APPLIED"
  proof
    assume "verdict_of my (ack_bytes m c r) = VERDICT_APPLIED"
    then obtain x where "read_command (ack_bytes m c r) = Some x" by (rule read_verdict_applied)
    then show False by (simp add: read_command_iff ack_bytes_def command_bytes_def)
  qed
  moreover have "assembled 16 (ack_frame m c r) = [ack_bytes m c r]"
    unfolding ack_frame_line [OF assms(3)] using assms by (rule line_assembled(2))
  ultimately show ?thesis by (simp add: obeyed_def)
qed

text \<open>A slave ready on the bus, for the witnesses.\<close>

definition slave_on_bus :: "u8 \<Rightarrow> slave" where
  "slave_on_bus my = rs485_de_init_slave (slave_state0 my 0 empty_plan)"

lemma slave_on_bus:
  assumes "buildable my"
  shows "slave_inv (slave_on_bus my)" "de_low (slave_on_bus my)" "my_slave_id (slave_on_bus my) = my"
    "slave_wf (slave_on_bus my)" "slave_line_view (slave_on_bus my) = ([], False)"
    "ack_pending (slave_on_bus my) = 0" "channel_risk (slave_on_bus my) = [0, 0]"
proof -
  note i = slave_state0_inv [OF assms, of 0 empty_plan]
  show inv: "slave_inv (slave_on_bus my)" "de_low (slave_on_bus my)" "my_slave_id (slave_on_bus my) = my"
    using de_init_inv [OF i] by (simp_all add: slave_on_bus_def) (simp add: slave_state0_def slave_memory_def)
  show "slave_wf (slave_on_bus my)" using slave_inv_parts(2) [OF inv(1)] .
  show "slave_line_view (slave_on_bus my) = ([], False)" "ack_pending (slave_on_bus my) = 0"
    "channel_risk (slave_on_bus my) = [0, 0]"
    by (simp_all add: slave_on_bus_def rs485_de_init_slave_def on_board_def write_pin_def slave_line_view_def
        slave_state0_def slave_memory_def)
qed

text \<open>C31: A waiting acknowledgement travels: the service puts it on the bus once, with the driver
  enabled, and forgets it; the master that hears these bytes and has room queues exactly this
  acknowledgement, and another slave that hears them changes neither its levels nor its own
  acknowledgement.\<close>

theorem acknowledgement_travels:
  assumes "slave_inv s" and "de_low s" and "ack_pending s \<noteq> 0"
    and "master_wf m" and "ack_line_view m = ([], False)" and "length (q_items (ack_queue m)) < ACK_QUEUE_DEPTH"
    and "slave_wf u" and "slave_line_view u = ([], False)" and "ack_pending u = 0"
  shows "\<exists>frame st. let t = veda_rs485_ack_service s in
       sl_out t = sl_out s @ [SlaveTx USART1 frame RS485_ACK_TX_TIMEOUT_MSEC st True] \<and> ack_pending t = 0
     \<and> q_items (ack_queue (fold ack_feed_byte frame m)) = q_items (ack_queue m) @
         [\<lparr> ack_slave = my_slave_id s, ack_channel = ack_channel_slot s, ack_risk_level = ack_risk_slot s \<rparr>]
     \<and> channel_risk (fold process_rs485_byte frame u) = channel_risk u
     \<and> ack_pending (fold process_rs485_byte frame u) = 0"
proof -
  let ?f = "ack_frame (my_slave_id s) (ack_channel_slot s) (ack_risk_slot s)"
  let ?a = "\<lparr> ack_slave = my_slave_id s, ack_channel = ack_channel_slot s, ack_risk_level = ack_risk_slot s \<rparr>"
  note v = waiting_ack_valid [OF assms(1,3)]
  have "assembled 16 ?f = [ack_bytes (my_slave_id s) (ack_channel_slot s) (ack_risk_slot s)]"
    unfolding ack_frame_line [OF v(2)] using v(3,4,2) by (rule line_assembled(2))
  moreover have "parse_ack (ack_bytes (my_slave_id s) (ack_channel_slot s) (ack_risk_slot s)) = Some ?a"
    using v(5) by (simp add: parse_ack_iff)
  ultimately have "acks_in ?f = [?a]" by (simp add: acks_in_def)
  then have "q_items (ack_queue (fold ack_feed_byte ?f m)) = q_items (ack_queue m) @ [?a]"
    using ack_stream_queue [OF assms(4,5), of ?f] assms(6) by (simp add: ACK_QUEUE_DEPTH_def)
  moreover have "channel_risk (fold process_rs485_byte ?f u) = channel_risk u"
    "ack_pending (fold process_rs485_byte ?f u) = 0"
    using stream_levels [OF assms(7-9), of ?f] ack_not_obeyed [OF v(3,4,2)]
    by (simp_all add: Let_def levels_after_def)
  ultimately show ?thesis
    using ack_service_sends [OF assms(1-3)] unfolding Let_def by blast
qed

theorem acknowledgement_travels_witness:
  "\<exists>frame st. let s = fold process_rs485_byte (command_frame 0 2) (slave_on_bus 1); t = veda_rs485_ack_service s in
     sl_out t = sl_out s @ [SlaveTx USART1 frame RS485_ACK_TX_TIMEOUT_MSEC st True] \<and> ack_pending t = 0
   \<and> q_items (ack_queue (fold ack_feed_byte frame fresh)) = q_items (ack_queue fresh) @
       [\<lparr> ack_slave = my_slave_id s, ack_channel = ack_channel_slot s, ack_risk_level = ack_risk_slot s \<rparr>]
   \<and> channel_risk (fold process_rs485_byte frame (slave_on_bus 2)) = channel_risk (slave_on_bus 2)
   \<and> ack_pending (fold process_rs485_byte frame (slave_on_bus 2)) = 0"
proof -
  have b: "buildable 1" "buildable 2" by (simp_all add: buildable_def)
  note s1 = slave_on_bus [OF b(1)] and s2 = slave_on_bus [OF b(2)]
  let ?s = "fold process_rs485_byte (command_frame 0 2) (slave_on_bus 1)"
  have "ack_pending ?s \<noteq> 0"
    using stream_levels [OF s1(4-6), of "command_frame 0 2"] obeyed_command [of 0 2 1] b(1)
    by (simp add: Let_def s1(3) home_slave_def)
  moreover have "slave_inv ?s" "de_low ?s"
    using process_bytes_step [OF s1(1), of "command_frame 0 2"] step_inv step_de s1(2) by blast+
  moreover have "master_wf fresh" by (simp add: fresh_def master_boot_state_wf)
  moreover have "ack_line_view fresh = ([], False)" "length (q_items (ack_queue fresh)) < ACK_QUEUE_DEPTH"
    by code_simp+
  ultimately show ?thesis
    using acknowledgement_travels [of ?s fresh "slave_on_bus 2"] s2(4-6) unfolding Let_def by blast
qed

subsection \<open>The closed loop\<close>

text \<open>C32: One exchange closes the loop: a tick that picks a channel puts its command on the bus, and when
  the addressed slave hears it and the bytes it answers arrive while the master sends and waits, within
  100 ms in all, then after the tick the slave's level, what the master takes to be applied and what it reports
  about the channel are the level asked for, and the channel's failure count is zero.\<close>

theorem exchange_closes:
  assumes "master_wf m" and "ack_line_view m = ([], False)" and "next_tx_ok m"
    and "sched_choice m \<noteq> SCHED_NO_CHANNEL"
    and "slave_inv s" and "de_low s" and "slave_line_view s = ([], False)" and "ack_pending s = 0"
    and "my_slave_id s = sched_choice m div CHANNELS_PER_SLAVE + 1"
    and "sl_out (veda_rs485_ack_service (fold process_rs485_byte
            (command_frame (sched_choice m) (desired_risk (ctrl m (sched_choice m)))) s))
         = sl_out s @ [SlaveTx USART1 bytes RS485_ACK_TX_TIMEOUT_MSEC HAL_OK True]"
    and "agenda m = evs @ rest" and "map snd evs = map Rs485Byte bytes" and "sum_list (map fst evs) < 100"
  shows "let ch = sched_choice m; r = desired_risk (ctrl m ch); t = sched_tick m;
             u = fold process_rs485_byte (command_frame ch r) s
    in (\<exists>st. UartTx USART1 (command_frame ch r) RS485_TX_TIMEOUT_MSEC st \<in> set (out t))
       \<and> channel_risk u ! unat (ch mod CHANNELS_PER_SLAVE) = r \<and> applied_risk (ctrl t ch) = r \<and> retry (ctrl t ch) = 0
       \<and> channel_status t = (channel_status m)[unat ch := risk_to_status r]"
proof -
  let ?ch = "sched_choice m" and ?r = "desired_risk (ctrl m (sched_choice m))"
  let ?u = "fold process_rs485_byte (command_frame ?ch ?r) s"
  note w = slave_inv_parts [OF assms(5)]
  have ch: "?ch < 4" "?r \<le> 2"
    using tick_exchange_facts(1,2) [OF assms(1,4)] by (simp_all add: word_less_nat_alt)
  have lv: "channel_risk ?u = (channel_risk s)[unat (?ch mod 2) := ?r]" "ack_pending ?u = 1"
    "ack_channel_slot ?u = ?ch + 1" "ack_risk_slot ?u = ?r"
    using stream_levels [OF w(2) assms(7,8), of "command_frame ?ch ?r"] obeyed_command [OF ch w(3)] assms(9)
    by (simp_all add: Let_def levels_after_def home_slave_def)
  have st: "step_rel s ?u" "sl_out ?u = sl_out s" using process_bytes_step [OF assms(5)] by blast+
  have id: "my_slave_id ?u = my_slave_id s" using st(1) by (simp add: step_rel_def task_rel_def)
  have u: "slave_inv ?u" "de_low ?u" "ack_pending ?u \<noteq> 0"
    using step_inv [OF st(1)] step_de [OF st(1)] assms(6) lv(2) by simp_all
  note v = waiting_ack_valid [OF u(1,3)]
  have "bytes = ack_frame (my_slave_id ?u) (?ch + 1) ?r"
    using ack_service_sends(1) [OF u] assms(10) unfolding lv st(2) by simp
  then have bytes: "bytes = ack_bytes (my_slave_id ?u) (?ch + 1) ?r @ [LF]"
    using ack_frame_line [OF ch(2)] by simp
  let ?a = "\<lparr> ack_slave = my_slave_id ?u, ack_channel = ?ch + 1, ack_risk_level = ?r \<rparr>"
  have a: "parse_ack (ack_bytes (my_slave_id ?u) (?ch + 1) ?r) = Some ?a"
    using v(5) unfolding lv by (simp add: parse_ack_iff)
  have l: "\<forall>b\<in>set (ack_bytes (my_slave_id ?u) (?ch + 1) ?r). \<not> is_eol b" "is_eol LF"
    using line_not_eol(2) [OF v(3) _ ch(2)] v(4) by (simp_all add: lv is_eol_def)
  note tick = tick_confirmed [OF assms(1,4,2,3) l a assms(11) assms(12)[unfolded bytes] assms(13)]
  have "length (channel_risk s) = 2" using w(2) by (simp add: slave_wf_def)
  moreover have "unat (?ch mod 2) < 2" by (simp add: unat_mod_distrib)
  ultimately have "channel_risk ?u ! unat (?ch mod 2) = ?r" by (simp add: lv(1))
  then show ?thesis using tick sched_tick_sent [OF assms(4)] unfolding Let_def by simp
qed

theorem exchange_closes_witness:
  "applied_risk (ctrl (sched_tick witness_state) 0) = channel_risk (fold process_rs485_byte (command_frame 0 0) (slave_on_bus 1)) ! 0"
proof -
  have b: "buildable 1" by (simp add: buildable_def)
  note s = slave_on_bus [OF b]
  have ch: "sched_choice witness_state = 0" by code_simp
  have r: "desired_risk (ctrl witness_state 0) = 0" by code_simp
  let ?u = "fold process_rs485_byte (command_frame 0 0) (slave_on_bus 1)"
  have out: "sl_out (veda_rs485_ack_service ?u) = sl_out (slave_on_bus 1) @
      [SlaveTx USART1 (ack_bytes 1 1 0 @ [LF]) RS485_ACK_TX_TIMEOUT_MSEC HAL_OK True]"
    by code_simp
  have ag: "agenda witness_state = witness_agenda @ []" "map snd witness_agenda = map Rs485Byte (ack_bytes 1 1 0 @ [LF])"
    "sum_list (map fst witness_agenda) < 100" "next_tx_ok witness_state"
    by code_simp+
  have view: "ack_line_view witness_state = ([], False)"
    using witness_state_view by (simp add: view_of_def)
  show ?thesis
    using exchange_closes [OF witness_state_wf view ag(4) _ s(1,2,5,6) _ _ ag(1-3)] out
    by (simp add: ch r s(3) Let_def del: ack_bytes_def)
qed

subsection \<open>One picture\<close>

text \<open>The report and the lamps are one picture: for the level a reachable slave has recorded on a
  channel, the status the master reports for that level has the siren set exactly when the relay is on,
  the buzzer set exactly when the buzzer pin is on, and the red, yellow or green lamp exactly when the
  strip's colour for the level is the danger, the warning or the idle colour.\<close>

theorem report_matches_outputs:
  assumes "slave_reachable my s" and "i < 2"
  shows "let r = channel_risk s ! i; st = risk_to_status r; co = channel_output my ! i
    in decode_leds st = r
       \<and> pin_shows s (co_relay co) = Some (cs_siren_on st \<noteq> 0)
       \<and> pin_shows s (co_buzzer co) = Some (cs_buzzer_on st \<noteq> 0)
       \<and> (cs_led_red st \<noteq> 0 \<longleftrightarrow> strip_colour r = Some NEOPIXEL_DANGER_RGB)
       \<and> (cs_led_yellow st \<noteq> 0 \<longleftrightarrow> strip_colour r = Some NEOPIXEL_WARNING_RGB)
       \<and> (cs_led_green st \<noteq> 0 \<longleftrightarrow> strip_colour r = Some NEOPIXEL_NONE_RGB)"
proof -
  define r where "r = channel_risk s ! i"
  have *: "r \<le> 2" "pin_shows s (co_relay (channel_output my ! i)) = Some (r \<noteq> VEDA_RISK_NONE)"
    "pin_shows s (co_buzzer (channel_output my ! i)) = Some (r = VEDA_RISK_DANGER)"
    using running_outputs [OF assms(1)] assms(2) by (simp_all add: r_def)
  show ?thesis
    unfolding Let_def r_def [symmetric] *(2,3) using *(1)
    by (rule word_le_2_cases) (simp_all add: decode_leds_def strip_colour_def)
qed

theorem report_matches_outputs_witness:
  "decode_leds (risk_to_status (channel_risk (slave_started 1 0 empty_plan) ! 1)) = channel_risk (slave_started 1 0 empty_plan) ! 1"
  using report_matches_outputs [OF started_one, of 1] by (simp only: Let_def)

end
