(* ===== verification/Legacy_State.thy ===== *)
theory Legacy_State
  imports Slave_Neopixel
begin

text \<open>The ON/OFF generation of the slave firmware, kept in driver/rs485_receive_2/_backup_old_onoff: its
  table, its static variables and the registers its strip driver owns. It runs on the same board as
  the present slaves, so the pins, the register bits and the surroundings are those of the slave
  model; the strips sit on two different timers, and lines carry ON or OFF instead of a level.\<close>

subsection \<open>Configuration and table\<close>

definition VERDICT_BAD_ACTION :: u8 where "VERDICT_BAD_ACTION = 3"
definition NEOPIXEL_SAFE_RGB :: "u8 \<times> u8 \<times> u8" where "NEOPIXEL_SAFE_RGB = (0, 255, 0)"
definition NEOPIXEL_ALARM_RGB :: "u8 \<times> u8 \<times> u8" where "NEOPIXEL_ALARM_RGB = (255, 0, 0)"

lemmas legacy_config [simp] = VERDICT_BAD_ACTION_def NEOPIXEL_SAFE_RGB_def NEOPIXEL_ALARM_RGB_def

definition channel_output_legacy :: "u8 \<Rightarrow> channel_output_t list" where
  "channel_output_legacy my =
     (if my = 1 then
        [\<lparr> co_channel = 1, co_relay = RELAY_A, co_buzzer = BUZZER_A, co_strip = NEOPIXEL_CH_A,
           co_set_name = ''A'', co_wiring = ''PA0/PB5/PA6'' \<rparr>,
         \<lparr> co_channel = 2, co_relay = RELAY_B, co_buzzer = BUZZER_B, co_strip = NEOPIXEL_CH_B,
           co_set_name = ''B'', co_wiring = ''PA1/PA8/PB10'' \<rparr>]
      else if my = 2 then
        [\<lparr> co_channel = 3, co_relay = RELAY_A, co_buzzer = BUZZER_A, co_strip = NEOPIXEL_CH_A,
           co_set_name = ''A'', co_wiring = ''PA0/PB5/PA6'' \<rparr>,
         \<lparr> co_channel = 4, co_relay = RELAY_B, co_buzzer = BUZZER_B, co_strip = NEOPIXEL_CH_B,
           co_set_name = ''B'', co_wiring = ''PA1/PA8/PB10'' \<rparr>]
      else [])"

definition channel_output_index_legacy :: "u8 \<Rightarrow> u8 \<Rightarrow> u8" where
  "channel_output_index_legacy my channel = channel_scan (channel_output_legacy my) 0 channel"

subsection \<open>Registers of the strip driver\<close>

text \<open>Strip A is on channel 1 of TIM3 and stream 4, strip B on channel 3 of TIM2 and stream 1. The number
  of reads for which EN stays set after a switch-off may be infinite (\<open>None\<close>): a stream that never
  stops.\<close>

datatype legacy_timer = TIM3 | TIM2
datatype legacy_stream_id = Stream4 | Stream1
datatype legacy_isr = HISR | LISR
datatype legacy_addr = LAddr_None | LAddr_CCR1 | LAddr_CCR3 | LAddr_pwm_data_1

record legacy_tim =
  lt_CR1 :: u32
  lt_CR2 :: u32
  lt_SMCR :: u32
  lt_DIER :: u32
  lt_SR :: u32
  lt_CCMR1 :: u32
  lt_CCMR2 :: u32
  lt_CCER :: u32
  lt_CNT :: u32
  lt_PSC :: u32
  lt_ARR :: u32
  lt_CCR1 :: u32
  lt_CCR3 :: u32

record legacy_stream =
  ls_CR :: u32
  ls_NDTR :: u32
  ls_PAR :: legacy_addr
  ls_M0AR :: legacy_addr
  ls_FCR :: u32
  ls_lag :: "nat option"

subsection \<open>State\<close>

text \<open>Bytes handed to a UART with the driver's answer, and a frame started on a strip with the driver's
  answer: after success it went out completely, after an error or a timeout only its beginning did.\<close>

datatype legacy_effect =
    LegacyTx uart "u8 list" u32 hal_status
  | LegacyFrame neopixel_channel_t "u16 list" hal_status

record legacy =
  lg_id :: u8
  lg_board :: board
  lg_channel_on :: "u8 list"
  lg_line :: "u8 list"
  lg_line_length :: u8
  lg_line_overflow :: u8
  lg_last_rx_msec :: u32
  lg_rx_armed :: bool
  lg_ack_pending :: u8
  lg_ack_channel :: u8
  lg_ack_turn_on :: u8
  lg_strip_alarm_on :: "u8 list"
  lg_strip_pending :: "u8 list"
  lg_debug_line :: "u8 list"
  lg_debug_verdict :: u8
  lg_debug_ready :: u8
  lg_tim :: "legacy_timer \<Rightarrow> legacy_tim"
  lg_dma :: "legacy_stream_id \<Rightarrow> legacy_stream"
  lg_isr :: "legacy_isr \<Rightarrow> u32"
  lg_pixel_grb :: "(u8 \<times> u8 \<times> u8) list list"
  lg_pwm_data :: "u16 list"
  lg_pwm_period_ticks :: u16
  lg_zero_high_ticks :: u16
  lg_one_high_ticks :: u16
  lg_channel_ready :: "u8 list"
  lg_tick :: u32
  lg_calls :: "(hal_status \<times> (nat \<times> slave_irq) list) list"
  lg_polls :: "poll list list"
  lg_lags :: "nat option list"
  lg_out :: "legacy_effect list"

definition lg_pass :: "nat \<Rightarrow> legacy \<Rightarrow> legacy" where
  "lg_pass n s = s\<lparr> lg_tick := lg_tick s + word_of_nat n \<rparr>"

definition lg_on_board :: "(board \<Rightarrow> board) \<Rightarrow> legacy \<Rightarrow> legacy" where
  "lg_on_board f s = s\<lparr> lg_board := f (lg_board s) \<rparr>"

definition lg_write :: "gpio_port \<times> nat \<Rightarrow> bool \<Rightarrow> legacy \<Rightarrow> legacy" where
  "lg_write p v = lg_on_board (HAL_GPIO_WritePin (fst p) [snd p] v)"

definition lg_emit :: "legacy_effect \<Rightarrow> legacy \<Rightarrow> legacy" where
  "lg_emit x s = s\<lparr> lg_out := lg_out s @ [x] \<rparr>"

definition lg_shows :: "legacy \<Rightarrow> gpio_port \<times> nat \<Rightarrow> bool option" where
  "lg_shows s p = drives (lg_board s) p"

subsection \<open>Channels\<close>

definition channel_hardware_init_legacy :: "legacy \<Rightarrow> legacy" where
  "channel_hardware_init_legacy s =
     fold (\<lambda>co s.
        let s1 = lg_write (co_relay co) False s;
            s2 = lg_on_board (HAL_GPIO_Init (fst (co_relay co)) [snd (co_relay co)] Mode_Output_PP) s1;
            s3 = lg_write (co_buzzer co) BUZZER_LEVEL_OFF s2
        in lg_on_board (HAL_GPIO_Init (fst (co_buzzer co)) [snd (co_buzzer co)] Mode_Output_PP) s3)
       (channel_output_legacy (lg_id s)) s"

definition apply_channel_state_legacy :: "u8 \<Rightarrow> u8 \<Rightarrow> legacy \<Rightarrow> legacy" where
  "apply_channel_state_legacy channel turn_on s =
     (let level = (turn_on \<noteq> 0);
          index = channel_output_index_legacy (lg_id s) channel
      in if index = CHANNEL_OUTPUT_NONE then s
         else
           let co = channel_output_legacy (lg_id s) ! unat index;
               s1 = lg_write (co_relay co) level s;
               s2 = s1\<lparr> lg_channel_on := (lg_channel_on s1)[unat index := of_flag (turn_on \<noteq> 0)] \<rparr>;
               s3 = lg_write (co_buzzer co) (if turn_on \<noteq> 0 then BUZZER_LEVEL_ON else BUZZER_LEVEL_OFF) s2;
               s4 = s3\<lparr> lg_strip_alarm_on := (lg_strip_alarm_on s3)[unat index := of_flag (turn_on \<noteq> 0)],
                        lg_strip_pending := (lg_strip_pending s3)[unat index := 1] \<rparr>;
               any_on = list_ex (\<lambda>scan. lg_channel_on s4 ! scan \<noteq> 0)
                          [0..<length (channel_output_legacy (lg_id s4))]
           in lg_write LD2 any_on s4)"

subsection \<open>Lines\<close>

definition process_rs485_line_legacy :: "u8 list \<Rightarrow> u8 \<Rightarrow> legacy \<Rightarrow> u8 \<times> legacy" where
  "process_rs485_line_legacy line len s =
     (if len < 9 \<or> line ! 0 \<noteq> ascii CHR ''S'' \<or> line ! 2 \<noteq> ascii CHR '':''
         \<or> line ! 3 \<noteq> ascii CHR ''C'' \<or> line ! 4 \<noteq> ascii CHR ''H''
         \<or> line ! 6 \<noteq> ascii CHR '':'' then (VERDICT_BAD_FORMAT, s)
      else if line ! 1 < ascii CHR ''1'' \<or> line ! 1 > ascii CHR ''9''
           \<or> line ! 5 < ascii CHR ''1'' \<or> line ! 5 > ascii CHR ''9'' then (VERDICT_BAD_FORMAT, s)
      else if line ! 1 - ascii CHR ''0'' \<noteq> lg_id s then (VERDICT_OTHER_SLAVE, s)
      else
        case (if len = 9 \<and> line ! 7 = ascii CHR ''O'' \<and> line ! 8 = ascii CHR ''N'' then Some 1
              else if len = 10 \<and> line ! 7 = ascii CHR ''O'' \<and> line ! 8 = ascii CHR ''F''
                   \<and> line ! 9 = ascii CHR ''F'' then Some (0 :: u8)
              else None) of
          None \<Rightarrow> (VERDICT_BAD_ACTION, s)
        | Some turn_on \<Rightarrow>
            let channel = line ! 5 - ascii CHR ''0''
            in if channel_output_index_legacy (lg_id s) channel = CHANNEL_OUTPUT_NONE
               then (VERDICT_OTHER_CHAN, s)
               else
                 let s1 = apply_channel_state_legacy channel turn_on s
                 in (VERDICT_APPLIED,
                     if lg_ack_pending s1 = 0
                     then s1\<lparr> lg_ack_channel := channel, lg_ack_turn_on := of_flag (turn_on \<noteq> 0),
                              lg_ack_pending := 1 \<rparr>
                     else s1))"

definition process_rs485_byte_legacy :: "u8 \<Rightarrow> legacy \<Rightarrow> legacy" where
  "process_rs485_byte_legacy byte s =
     (if byte = CR \<or> byte = LF then
        (let s1 = (if lg_line_overflow s = 0 \<and> lg_line_length s \<noteq> 0 then
                     let (verdict, t) = process_rs485_line_legacy (lg_line s) (lg_line_length s) s
                     in if lg_debug_ready t = 0
                        then t\<lparr> lg_debug_line := take (unat (lg_line_length t)) (lg_line t) @ [0]
                                   @ drop (unat (lg_line_length t) + 1) (lg_debug_line t),
                                lg_debug_verdict := verdict, lg_debug_ready := 1 \<rparr>
                        else t
                   else s)
         in s1\<lparr> lg_line_length := 0, lg_line_overflow := 0 \<rparr>)
      else if lg_line_length s \<ge> RS485_LINE_BUFFER_SIZE then s\<lparr> lg_line_overflow := 1 \<rparr>
      else s\<lparr> lg_line := (lg_line s)[unat (lg_line_length s) := byte],
              lg_line_length := lg_line_length s + 1 \<rparr>)"

subsection \<open>Interrupts and blocking calls\<close>

definition HAL_UART_RxCpltCallback_legacy :: "u8 \<Rightarrow> legacy \<Rightarrow> legacy" where
  "HAL_UART_RxCpltCallback_legacy byte s =
     (let s1 = process_rs485_byte_legacy byte s
      in s1\<lparr> lg_last_rx_msec := lg_tick s1, lg_rx_armed := True \<rparr>)"

definition HAL_UART_ErrorCallback_legacy :: "legacy \<Rightarrow> legacy" where
  "HAL_UART_ErrorCallback_legacy s =
     s\<lparr> lg_line_length := 0, lg_line_overflow := 0, lg_rx_armed := True \<rparr>"

definition lg_irq :: "slave_irq \<Rightarrow> legacy \<Rightarrow> legacy" where
  "lg_irq irq s =
     (if \<not> lg_rx_armed s then s
      else case irq of
             Bus_Byte b \<Rightarrow> HAL_UART_RxCpltCallback_legacy b (s\<lparr> lg_rx_armed := False \<rparr>)
           | Bus_Error \<Rightarrow> HAL_UART_ErrorCallback_legacy (s\<lparr> lg_rx_armed := False \<rparr>))"

definition lg_wait_events :: "(nat \<times> slave_irq) list \<Rightarrow> legacy \<Rightarrow> legacy" where
  "lg_wait_events evs = fold (\<lambda>(d, irq) s. lg_irq irq (lg_pass d s)) evs"

definition lg_next_call :: "legacy \<Rightarrow> (hal_status \<times> (nat \<times> slave_irq) list) \<times> legacy" where
  "lg_next_call s = (case lg_calls s of [] \<Rightarrow> ((HAL_OK, []), s) | c # cs \<Rightarrow> (c, s\<lparr> lg_calls := cs \<rparr>))"

definition lg_osDelay :: "nat \<Rightarrow> legacy \<Rightarrow> legacy" where
  "lg_osDelay ticks s =
     (let ((_, evs), s1) = lg_next_call s
      in lg_pass (ticks - sum_list (map fst evs)) (lg_wait_events evs s1))"

definition lg_HAL_Delay :: "nat \<Rightarrow> legacy \<Rightarrow> legacy" where
  "lg_HAL_Delay ms s = lg_osDelay (ms + 1) s"

definition lg_transmit :: "uart \<Rightarrow> u8 list \<Rightarrow> u32 \<Rightarrow> legacy \<Rightarrow> legacy" where
  "lg_transmit u bytes timeout s =
     (let ((st, evs), s1) = lg_next_call s
      in lg_wait_events evs (lg_emit (LegacyTx u bytes timeout st) s1))"

definition lg_window :: "legacy \<Rightarrow> legacy" where
  "lg_window s = (let ((_, evs), s1) = lg_next_call s in lg_wait_events evs s1)"

end
