(* ===== verification/Legacy_Neopixel.thy ===== *)
theory Legacy_Neopixel
  imports Legacy_State
begin

text \<open>neopixel.c of the ON/OFF firmware. The bit timing is computed from the clock, colours are kept in a
  buffer in wire order, and the wait for a stream to switch off has no limit: a function that may
  wait for ever returns an option, \<open>None\<close> meaning that it does not return.\<close>

definition LEGACY_MAX_PIXEL_COUNT :: u16 where "LEGACY_MAX_PIXEL_COUNT = 300"
definition WS2812_FREQUENCY_HZ :: u32 where "WS2812_FREQUENCY_HZ = 800000"
definition NEOPIXEL_T0H_NS :: u32 where "NEOPIXEL_T0H_NS = 350"
definition NEOPIXEL_T1H_NS :: u32 where "NEOPIXEL_T1H_NS = 700"

lemmas legacy_ws2812 [simp] = LEGACY_MAX_PIXEL_COUNT_def WS2812_FREQUENCY_HZ_def NEOPIXEL_T0H_NS_def
  NEOPIXEL_T1H_NS_def

subsection \<open>The hardware table\<close>

record legacy_hw_t =
  lh_timer :: legacy_timer
  lh_ccmr1 :: bool
  lh_ccmr_pwm_bits :: u32
  lh_ccer_enable :: u32
  lh_dier_dma :: u32
  lh_ccr :: legacy_addr
  lh_stream :: legacy_stream_id
  lh_isr :: legacy_isr
  lh_dma_chsel :: u32
  lh_dma_tc_flag :: u32
  lh_dma_error_flags :: u32
  lh_dma_clear_flags :: u32
  lh_port :: gpio_port
  lh_pin :: nat
  lh_alternate :: nat

definition legacy_hw :: "neopixel_channel_t \<Rightarrow> legacy_hw_t" where
  "legacy_hw c = (case c of
     NEOPIXEL_CH_A \<Rightarrow>
       \<lparr> lh_timer = TIM3, lh_ccmr1 = True, lh_ccmr_pwm_bits = 0x0020 OR 0x0040 OR 0x0008,
         lh_ccer_enable = 0x0001, lh_dier_dma = 0x0200, lh_ccr = LAddr_CCR1, lh_stream = Stream4,
         lh_isr = HISR, lh_dma_chsel = 0x02000000 OR 0x08000000, lh_dma_tc_flag = 0x20,
         lh_dma_error_flags = 0x08 OR 0x04 OR 0x01,
         lh_dma_clear_flags = 0x01 OR 0x04 OR 0x08 OR 0x10 OR 0x20,
         lh_port = GPIOA, lh_pin = 6, lh_alternate = 2 \<rparr>
   | NEOPIXEL_CH_B \<Rightarrow>
       \<lparr> lh_timer = TIM2, lh_ccmr1 = False, lh_ccmr_pwm_bits = 0x0020 OR 0x0040 OR 0x0008,
         lh_ccer_enable = 0x0100, lh_dier_dma = 0x0800, lh_ccr = LAddr_CCR3, lh_stream = Stream1,
         lh_isr = LISR, lh_dma_chsel = 0x02000000 OR 0x04000000, lh_dma_tc_flag = 0x800,
         lh_dma_error_flags = 0x200 OR 0x100 OR 0x40,
         lh_dma_clear_flags = 0x40 OR 0x100 OR 0x200 OR 0x400 OR 0x800,
         lh_port = GPIOB, lh_pin = 10, lh_alternate = 1 \<rparr>)"

subsection \<open>Register access\<close>

definition lg_upd_tim :: "legacy_timer \<Rightarrow> (legacy_tim \<Rightarrow> legacy_tim) \<Rightarrow> legacy \<Rightarrow> legacy" where
  "lg_upd_tim i f s = s\<lparr> lg_tim := (lg_tim s)(i := f (lg_tim s i)) \<rparr>"

definition lg_upd_stream :: "legacy_stream_id \<Rightarrow> (legacy_stream \<Rightarrow> legacy_stream) \<Rightarrow> legacy \<Rightarrow> legacy" where
  "lg_upd_stream i f s = s\<lparr> lg_dma := (lg_dma s)(i := f (lg_dma s i)) \<rparr>"

definition lt_set_ccr :: "legacy_addr \<Rightarrow> u32 \<Rightarrow> legacy_tim \<Rightarrow> legacy_tim" where
  "lt_set_ccr r v t = (if r = LAddr_CCR1 then t\<lparr> lt_CCR1 := v \<rparr> else t\<lparr> lt_CCR3 := v \<rparr>)"

definition lt_set_ccmr :: "bool \<Rightarrow> u32 \<Rightarrow> legacy_tim \<Rightarrow> legacy_tim" where
  "lt_set_ccmr first v t = (if first then t\<lparr> lt_CCMR1 := v \<rparr> else t\<lparr> lt_CCMR2 := v \<rparr>)"

definition lt_get_ccmr :: "bool \<Rightarrow> legacy_tim \<Rightarrow> u32" where
  "lt_get_ccmr first t = (if first then lt_CCMR1 t else lt_CCMR2 t)"

definition lt_write_EGR :: "u32 \<Rightarrow> legacy_tim \<Rightarrow> legacy_tim" where
  "lt_write_EGR v t = (if v AND TIM_EGR_UG \<noteq> 0 then t\<lparr> lt_CNT := 0, lt_SR := lt_SR t OR 1 \<rparr> else t)"

text \<open>Switching a running stream off takes effect after a number of reads, or never.\<close>

definition lg_write_CR :: "legacy_stream_id \<Rightarrow> u32 \<Rightarrow> legacy \<Rightarrow> legacy" where
  "lg_write_CR i v s =
     (if ls_CR (lg_dma s i) AND DMA_SxCR_EN \<noteq> 0 \<and> v AND DMA_SxCR_EN = 0 then
        (case lg_lags s of
           [] \<Rightarrow> lg_upd_stream i (\<lambda>x. x\<lparr> ls_CR := v, ls_lag := Some 0 \<rparr>) s
         | n # ns \<Rightarrow> lg_upd_stream i (\<lambda>x. x\<lparr> ls_CR := v, ls_lag := n \<rparr>) (s\<lparr> lg_lags := ns \<rparr>))
      else lg_upd_stream i (\<lambda>x. x\<lparr> ls_CR := v \<rparr>) s)"

definition lg_read_CR :: "legacy_stream_id \<Rightarrow> legacy \<Rightarrow> u32 \<times> legacy" where
  "lg_read_CR i s =
     (let x = lg_dma s i
      in case ls_lag x of
           None \<Rightarrow> (ls_CR x OR DMA_SxCR_EN, s)
         | Some 0 \<Rightarrow> (ls_CR x, s)
         | Some (Suc n) \<Rightarrow> (ls_CR x OR DMA_SxCR_EN, lg_upd_stream i (\<lambda>x. x\<lparr> ls_lag := Some n \<rparr>) s))"

definition lg_clear_flags :: "legacy_isr \<Rightarrow> u32 \<Rightarrow> legacy \<Rightarrow> legacy" where
  "lg_clear_flags r v s = s\<lparr> lg_isr := (lg_isr s)(r := lg_isr s r AND NOT v) \<rparr>"

subsection \<open>Timing and encoding\<close>

definition compute_bit_timing :: "legacy \<Rightarrow> legacy" where
  "compute_bit_timing s =
     (let timer_clock_hz = HAL_RCC_GetPCLK1Freq (lg_board s);
          timer_clock_hz = (if apb1_divided (lg_board s) then timer_clock_hz * 2 else timer_clock_hz);
          period = ucast (timer_clock_hz div WS2812_FREQUENCY_HZ);
          ticks_per_us = timer_clock_hz div 1000000;
          zero = ucast ((NEOPIXEL_T0H_NS * ticks_per_us) div 1000);
          one = ucast ((NEOPIXEL_T1H_NS * ticks_per_us) div 1000)
      in s\<lparr> lg_pwm_period_ticks := period,
            lg_zero_high_ticks := (if zero \<ge> period then period - 1 else zero),
            lg_one_high_ticks := (if one \<ge> period then period - 1 else one) \<rparr>)"

function encode_bits_legacy :: "u16 \<Rightarrow> u16 \<Rightarrow> u8 \<Rightarrow> u8 \<Rightarrow> u16 list \<times> u32 \<Rightarrow> u16 list \<times> u32" where
  "encode_bits_legacy zero one v bitmask (buf, data_index) =
     (if bitmask = 0 then (buf, data_index)
      else encode_bits_legacy zero one v (drop_bit 1 bitmask)
             (buf[unat data_index := if v AND bitmask \<noteq> 0 then one else zero], data_index + 1))"
  by pat_completeness auto
termination
  by (relation "measure (\<lambda>(z, w, v, m, b). unat m)") (use u8_shift_less in auto)

definition encode_byte_legacy :: "legacy \<Rightarrow> u8 \<Rightarrow> u16 list \<times> u32 \<Rightarrow> u16 list \<times> u32" where
  "encode_byte_legacy s v = encode_bits_legacy (lg_zero_high_ticks s) (lg_one_high_ticks s) v 0x80"

declare encode_bits_legacy.simps [simp del]

subsection \<open>Initialisation and the colour buffer\<close>

definition neopixel_init_legacy :: "u32 \<Rightarrow> legacy \<Rightarrow> hal_status \<times> legacy" where
  "neopixel_init_legacy channel s =
     (if channel \<ge> NEOPIXEL_CH_COUNT then (HAL_ERROR, s)
      else
        let hw = legacy_hw (strip_of channel);
            s1 = compute_bit_timing s;
            s2 = lg_on_board (HAL_GPIO_Init (lh_port hw) [lh_pin hw] (Mode_AF_PP (lh_alternate hw))) s1;
            s3 = lg_upd_tim (lh_timer hw) (\<lambda>t. lt_write_EGR TIM_EGR_UG (lt_set_ccr (lh_ccr hw) 0
                   (lt_set_ccmr (lh_ccmr1 hw) (lh_ccmr_pwm_bits hw)
                     (t\<lparr> lt_CR1 := TIM_CR1_ARPE, lt_CR2 := 0, lt_SMCR := 0, lt_DIER := 0,
                        lt_CCER := lh_ccer_enable hw, lt_PSC := 0,
                        lt_ARR := ucast (lg_pwm_period_ticks s2) - 1 \<rparr>)))) s2;
            s4 = lg_upd_stream (lh_stream hw) (\<lambda>x. x\<lparr> ls_FCR := 0 \<rparr>) (lg_write_CR (lh_stream hw) 0 s3);
            s5 = lg_clear_flags (lh_isr hw) (lh_dma_clear_flags hw) s4;
            s6 = s5\<lparr> lg_pixel_grb := (lg_pixel_grb s5)
                       [unat channel := replicate (unat LEGACY_MAX_PIXEL_COUNT) (0, 0, 0)],
                     lg_channel_ready := (lg_channel_ready s5)[unat channel := 1] \<rparr>
        in (HAL_OK, lg_HAL_Delay 1 s6))"

definition neopixel_set_pixel :: "u32 \<Rightarrow> u16 \<Rightarrow> u8 \<Rightarrow> u8 \<Rightarrow> u8 \<Rightarrow> legacy \<Rightarrow> hal_status \<times> legacy" where
  "neopixel_set_pixel channel index red green blue s =
     (if channel \<ge> NEOPIXEL_CH_COUNT then (HAL_ERROR, s)
      else if index \<ge> LEGACY_MAX_PIXEL_COUNT then (HAL_ERROR, s)
      else (HAL_OK, s\<lparr> lg_pixel_grb := (lg_pixel_grb s)
             [unat channel := (lg_pixel_grb s ! unat channel)[unat index := (green, red, blue)]] \<rparr>))"

definition neopixel_fill :: "u32 \<Rightarrow> u16 \<Rightarrow> u8 \<Rightarrow> u8 \<Rightarrow> u8 \<Rightarrow> legacy \<Rightarrow> hal_status \<times> legacy" where
  "neopixel_fill channel count red green blue s =
     (if channel \<ge> NEOPIXEL_CH_COUNT then (HAL_ERROR, s)
      else if count = 0 \<or> count > LEGACY_MAX_PIXEL_COUNT then (HAL_ERROR, s)
      else (HAL_OK, s\<lparr> lg_pixel_grb := (lg_pixel_grb s)[unat channel :=
              fold (\<lambda>index row. row[index := (green, red, blue)]) [0..<unat count]
                (lg_pixel_grb s ! unat channel)] \<rparr>))"

subsection \<open>Showing\<close>

text \<open>Waiting for EN to drop, for as long as it takes.\<close>

partial_function (option) en_wait :: "legacy_stream_id \<Rightarrow> legacy \<Rightarrow> legacy option" where
  "en_wait i s =
     (let (cr, s1) = lg_read_CR i s in if cr AND DMA_SxCR_EN \<noteq> 0 then en_wait i s1 else Some s1)"

definition encode_row :: "legacy \<Rightarrow> (u8 \<times> u8 \<times> u8) list \<Rightarrow> u16 list \<times> u32 \<Rightarrow> u16 list \<times> u32" where
  "encode_row s row = fold (\<lambda>(c0, c1, c2) b.
     encode_byte_legacy s c2 (encode_byte_legacy s c1 (encode_byte_legacy s c0 b))) row"

function pad_low :: "u32 \<Rightarrow> u16 list \<times> u32 \<Rightarrow> u16 list \<times> u32" where
  "pad_low total_slots (buf, data_index) =
     (if data_index < total_slots then pad_low total_slots (buf[unat data_index := 0], data_index + 1)
      else (buf, data_index))"
  by pat_completeness auto
termination
proof (relation "measure (\<lambda>(n, b, k). unat n - unat k)", simp, goal_cases)
  case (1 n b k)
  then have "unat k < unat n" by (simp add: word_less_nat_alt)
  moreover then have "unat (k + 1) = Suc (unat k)"
    using unat_u32_less [of n] by (simp add: unat_word_ariths)
  ultimately show ?case by simp
qed

declare pad_low.simps [simp del]

definition show_start_legacy :: "legacy_hw_t \<Rightarrow> u32 \<Rightarrow> legacy \<Rightarrow> legacy" where
  "show_start_legacy hw data_index s =
     (let i = lh_stream hw;
          s1 = lg_clear_flags (lh_isr hw) (lh_dma_clear_flags hw) s;
          s2 = lg_upd_stream i (\<lambda>x. x\<lparr> ls_PAR := lh_ccr hw, ls_M0AR := LAddr_pwm_data_1,
                                       ls_NDTR := data_index - 1, ls_FCR := 0 \<rparr>) s1;
          s3 = lg_write_CR i (lh_dma_chsel hw OR DMA_SxCR_DIR_0 OR DMA_SxCR_MINC OR DMA_SxCR_PSIZE_0
                              OR DMA_SxCR_MSIZE_0 OR DMA_SxCR_PL_1) s2;
          s4 = lg_upd_tim (lh_timer hw) (\<lambda>t.
                 (lt_write_EGR TIM_EGR_UG (lt_set_ccr (lh_ccr hw) (ucast (lg_pwm_data s3 ! 0))
                   (t\<lparr> lt_CR1 := lt_CR1 t AND NOT TIM_CR1_CEN, lt_CNT := 0 \<rparr>)))
                 \<lparr> lt_SR := 0, lt_DIER := lh_dier_dma hw \<rparr>) s3;
          s5 = lg_write_CR i (ls_CR (lg_dma s4 i) OR DMA_SxCR_EN) s4
      in lg_upd_tim (lh_timer hw) (\<lambda>t. t\<lparr> lt_CR1 := lt_CR1 t OR TIM_CR1_CEN \<rparr>) s5)"

text \<open>What begins to go out when the timer starts: the duty preset in the compare register, then the half-words
  the stream moves, if timer, channel and stream are set up for it.\<close>

definition lg_on_wire :: "legacy_hw_t \<Rightarrow> legacy \<Rightarrow> u16 list" where
  "lg_on_wire hw s =
     (let x = lg_dma s (lh_stream hw); t = lg_tim s (lh_timer hw)
      in if ls_CR x = lh_dma_chsel hw OR DMA_SxCR_DIR_0 OR DMA_SxCR_MINC OR DMA_SxCR_PSIZE_0
                        OR DMA_SxCR_MSIZE_0 OR DMA_SxCR_PL_1 OR DMA_SxCR_EN
            \<and> ls_PAR x = lh_ccr hw \<and> ls_M0AR x = LAddr_pwm_data_1
            \<and> lt_DIER t = lh_dier_dma hw \<and> lt_CR1 t AND TIM_CR1_CEN \<noteq> 0
            \<and> lt_ARR t = ucast (lg_pwm_period_ticks s) - 1
            \<and> lt_get_ccmr (lh_ccmr1 hw) t = lh_ccmr_pwm_bits hw \<and> lt_CCER t = lh_ccer_enable hw
         then ucast (if lh_ccr hw = LAddr_CCR1 then lt_CCR1 t else lt_CCR3 t)
                # take (unat (ls_NDTR x)) (drop 1 (lg_pwm_data s))
         else [])"

definition lg_raise :: "legacy_isr \<Rightarrow> u32 \<Rightarrow> legacy \<Rightarrow> legacy" where
  "lg_raise r v s = s\<lparr> lg_isr := (lg_isr s)(r := lg_isr s r OR v) \<rparr>"

definition lg_between_looks :: "poll \<Rightarrow> legacy \<Rightarrow> legacy" where
  "lg_between_looks p s = fold lg_irq (poll_irqs p) (lg_pass (poll_ms p) s)"

function show_wait_legacy :: "legacy_hw_t \<Rightarrow> u32 \<Rightarrow> poll list \<Rightarrow> legacy \<Rightarrow> hal_status \<times> legacy" where
  "show_wait_legacy hw start polls s =
     (let (p, rest) = next_poll polls;
          s1 = lg_raise (lh_isr hw) (poll_raised p) s
      in if lg_isr s1 (lh_isr hw) AND lh_dma_tc_flag hw \<noteq> 0 then (HAL_OK, s1)
         else if lg_isr s1 (lh_isr hw) AND lh_dma_error_flags hw \<noteq> 0 then (HAL_ERROR, s1)
         else if lg_tick s1 - start \<ge> WS2812_DMA_TIMEOUT_MS then (HAL_TIMEOUT, s1)
         else show_wait_legacy hw start rest (lg_between_looks p s1))"
  by pat_completeness auto
termination
proof (relation "measures [\<lambda>(hw, start, polls, s). length polls,
    \<lambda>(hw, start, polls, s). 50 - unat (lg_tick s - start)]", simp, goal_cases)
  case (1 hw start polls s x p rest s1)
  show ?case
  proof (cases polls)
    case Nil
    then have "p = silent_poll" "rest = []" using 1(1,2) by (simp_all add: next_poll_def)
    moreover have "lg_tick s - start < 50" using 1 by (simp add: lg_raise_def)
    moreover from this have "unat (lg_tick s + 1 - start) = unat (lg_tick s - start) + 1"
      using silent_poll_ms [of "lg_tick s - start"] by (simp add: algebra_simps)
    ultimately show ?thesis
      using Nil 1
      by (simp add: lg_between_looks_def silent_poll_def lg_pass_def lg_raise_def word_less_nat_alt)
  next
    case (Cons q qs)
    then show ?thesis using 1(1,2) by (simp add: next_poll_def)
  qed
qed

declare show_wait_legacy.simps [simp del]

definition lg_next_polls :: "legacy \<Rightarrow> poll list \<times> legacy" where
  "lg_next_polls s = (case lg_polls s of [] \<Rightarrow> ([], s) | ps # pss \<Rightarrow> (ps, s\<lparr> lg_polls := pss \<rparr>))"

definition show_stop_legacy :: "legacy_hw_t \<Rightarrow> legacy \<Rightarrow> legacy" where
  "show_stop_legacy hw s =
     (let s1 = lg_upd_tim (lh_timer hw) (\<lambda>t. lt_write_EGR TIM_EGR_UG (lt_set_ccr (lh_ccr hw) 0
                 (t\<lparr> lt_DIER := 0, lt_CR1 := lt_CR1 t AND NOT TIM_CR1_CEN \<rparr>))) s;
          i = lh_stream hw;
          s2 = lg_write_CR i (ls_CR (lg_dma s1 i) AND NOT DMA_SxCR_EN) s1
      in lg_clear_flags (lh_isr hw) (lh_dma_clear_flags hw) s2)"

definition neopixel_show_legacy :: "u32 \<Rightarrow> u16 \<Rightarrow> legacy \<Rightarrow> (hal_status \<times> legacy) option" where
  "neopixel_show_legacy channel count s =
     (if channel \<ge> NEOPIXEL_CH_COUNT then Some (HAL_ERROR, s)
      else if count = 0 \<or> count > LEGACY_MAX_PIXEL_COUNT then Some (HAL_ERROR, s)
      else if lg_channel_ready s ! unat channel = 0 then Some (HAL_ERROR, s)
      else
        let hw = legacy_hw (strip_of channel); i = lh_stream hw;
            encoded = encode_row s (take (unat count) (lg_pixel_grb s ! unat channel)) (lg_pwm_data s, 0);
            total_slots = ucast count * word_of_nat WS2812_BITS_PER_PIXEL + WS2812_RESET_SLOT_COUNT;
            (buf, data_index) = pad_low total_slots encoded;
            s1 = s\<lparr> lg_pwm_data := buf \<rparr>
        in case en_wait i (lg_write_CR i (ls_CR (lg_dma s1 i) AND NOT DMA_SxCR_EN) s1) of
             None \<Rightarrow> None
           | Some s2 \<Rightarrow>
               let s3 = show_start_legacy hw data_index s2;
                   frame = lg_on_wire hw s3;
                   (polls, s4) = lg_next_polls s3;
                   (status, s5) = show_wait_legacy hw (lg_tick s4) polls s4;
                   s6 = lg_emit (LegacyFrame (strip_of channel) frame status) (show_stop_legacy hw s5)
               in Some (status, if status = HAL_OK then lg_HAL_Delay 1 s6 else s6))"

definition neopixel_clear :: "u32 \<Rightarrow> u16 \<Rightarrow> legacy \<Rightarrow> (hal_status \<times> legacy) option" where
  "neopixel_clear channel count s =
     (let (status, s1) = neopixel_fill channel count 0 0 0 s
      in if status \<noteq> HAL_OK then Some (status, s1) else neopixel_show_legacy channel count s1)"

definition neopixel_show_solid_legacy :: "u32 \<Rightarrow> u16 \<Rightarrow> u8 \<Rightarrow> u8 \<Rightarrow> u8 \<Rightarrow> legacy \<Rightarrow> (hal_status \<times> legacy) option" where
  "neopixel_show_solid_legacy channel count red green blue s =
     (let (status, s1) = neopixel_fill channel count red green blue s
      in if status \<noteq> HAL_OK then Some (status, s1) else neopixel_show_legacy channel count s1)"

end
