(* ===== verification/Legacy_Task.thy ===== *)
theory Legacy_Task
  imports Legacy_Neopixel Slave_Boot
begin

text \<open>The task side of the ON/OFF firmware: acknowledgement, debug line, strips, StartDefaultTask and
  main. A turn of the loop is an option, because drawing a strip may not return.\<close>

definition lg_print :: "u8 list \<Rightarrow> legacy \<Rightarrow> legacy" where
  "lg_print bytes = lg_transmit USART2 bytes 100"

definition lg_print_digit :: "u8 \<Rightarrow> legacy \<Rightarrow> legacy" where
  "lg_print_digit v = lg_print [ascii CHR ''0'' + v mod 10]"

definition verdict_text_legacy :: "u8 \<Rightarrow> string" where
  "verdict_text_legacy v =
     [''APPLIED (relay+buzzer+strip)'', ''dropped: bad format'', ''dropped: another slave'',
      ''dropped: bad ON/OFF'', ''dropped: not my channel''] ! unat v"

subsection \<open>Acknowledgement\<close>

definition ack_frame_legacy :: "u8 \<Rightarrow> u8 \<Rightarrow> u8 \<Rightarrow> u8 list" where
  "ack_frame_legacy my channel turn_on =
     [ascii CHR ''A'', ascii CHR ''0'' + my, ascii CHR '':'', ascii CHR ''C'', ascii CHR ''H'',
      ascii CHR ''0'' + channel, ascii CHR '':'', ascii CHR ''O'']
     @ (if turn_on \<noteq> 0 then [ascii CHR ''N''] else [ascii CHR ''F'', ascii CHR ''F'']) @ [LF]"

definition rs485_send_ack_legacy :: "u8 \<Rightarrow> u8 \<Rightarrow> legacy \<Rightarrow> legacy" where
  "rs485_send_ack_legacy channel turn_on s =
     lg_transmit USART1 (ack_frame_legacy (lg_id s) channel turn_on) RS485_ACK_TX_TIMEOUT_MSEC s"

text \<open>RS485_DE_ENABLED is 0: there is no pin to set up.\<close>

definition rs485_de_init_legacy :: "legacy \<Rightarrow> legacy" where
  "rs485_de_init_legacy s = s"

subsection \<open>Strips\<close>

definition strip_show_legacy :: "nat \<Rightarrow> u8 \<Rightarrow> legacy \<Rightarrow> legacy option" where
  "strip_show_legacy index alarm_on s =
     (let co = channel_output_legacy (lg_id s) ! index;
          (red, green, blue) = (if alarm_on \<noteq> 0 then NEOPIXEL_ALARM_RGB else NEOPIXEL_SAFE_RGB)
      in map_option snd (neopixel_show_solid_legacy (word_of_nat (strip_index (co_strip co)))
           NEOPIXEL_PIXEL_COUNT red green blue s))"

definition neopixel_service_one_legacy :: "nat \<Rightarrow> legacy \<Rightarrow> legacy option" where
  "neopixel_service_one_legacy index s =
     (if lg_strip_pending s ! index = 0 then Some s
      else
        let s1 = s\<lparr> lg_strip_pending := (lg_strip_pending s)[index := 0] \<rparr>
        in strip_show_legacy index (lg_strip_alarm_on s1 ! index) s1)"

fun opt_fold :: "('a \<Rightarrow> 's \<Rightarrow> 's option) \<Rightarrow> 'a list \<Rightarrow> 's \<Rightarrow> 's option" where
  "opt_fold f [] s = Some s"
| "opt_fold f (x # xs) s = Option.bind (f x s) (opt_fold f xs)"

definition neopixel_service_legacy :: "legacy \<Rightarrow> legacy option" where
  "neopixel_service_legacy s =
     opt_fold neopixel_service_one_legacy [0..<length (channel_output_legacy (lg_id s))] s"

subsection \<open>StartDefaultTask\<close>

definition blink_id_legacy :: "legacy \<Rightarrow> legacy" where
  "blink_id_legacy s =
     ((\<lambda>s. lg_osDelay SLAVE_ID_BLINK_MSEC (lg_write LD2 False
             (lg_osDelay SLAVE_ID_BLINK_MSEC (lg_write LD2 True s)))) ^^ unat (lg_id s)) s"

definition banner_entry_legacy :: "nat \<Rightarrow> legacy \<Rightarrow> legacy" where
  "banner_entry_legacy index s =
     (let co = channel_output_legacy (lg_id s) ! index;
          s1 = (if index \<noteq> 0 then lg_print (cstr '', '') s else s);
          s2 = lg_print_digit (co_channel co) (lg_print (cstr ''CH'') s1);
          s3 = lg_print (cstr (co_set_name co)) (lg_print (cstr ''='') s2);
          s4 = lg_print (cstr '')'') (lg_print (cstr (co_wiring co)) (lg_print (cstr ''('') s3))
      in if co_channel co < MY_FIRST_CHANNEL (lg_id s) \<or> co_channel co > MY_LAST_CHANNEL (lg_id s)
         then lg_print (cstr ''!!OUT-OF-RANGE'') s4 else s4)"

definition banner_legacy :: "legacy \<Rightarrow> legacy" where
  "banner_legacy s =
     (let s1 = lg_print_digit (lg_id s) (lg_print ([CR, LF] @ cstr ''SLAVE #'') s);
          s2 = lg_print (cstr '' READY - owns '') s1;
          s3 = fold banner_entry_legacy [0..<length (channel_output_legacy (lg_id s))] s2;
          s4 = lg_print (cstr ''active-high'') (lg_print (cstr '', buzzer='') s3);
          s5 = lg_print (cstr '', strip x'') s4;
          s6 = lg_print_digit (ucast ((NEOPIXEL_PIXEL_COUNT div 100) mod 10)) s5;
          s7 = lg_print_digit (ucast ((NEOPIXEL_PIXEL_COUNT div 10) mod 10)) s6;
          s8 = lg_print_digit (ucast (NEOPIXEL_PIXEL_COUNT mod 10)) s7
      in lg_print [CR, LF] s8)"

definition strip_boot_one_legacy :: "nat \<Rightarrow> legacy \<Rightarrow> legacy option" where
  "strip_boot_one_legacy index s =
     (let co = channel_output_legacy (lg_id s) ! index;
          (_, s1) = neopixel_init_legacy (word_of_nat (strip_index (co_strip co))) s
      in strip_show_legacy index 0 s1)"

definition StartDefaultTask_entry :: "legacy \<Rightarrow> legacy option" where
  "StartDefaultTask_entry s =
     Option.bind (opt_fold strip_boot_one_legacy [0..<length (channel_output_legacy (lg_id s))]
                   (banner_legacy (blink_id_legacy s)))
       (\<lambda>t. Some ((rs485_de_init_legacy t)\<lparr> lg_rx_armed := True \<rparr>))"

definition ack_service_legacy :: "legacy \<Rightarrow> legacy" where
  "ack_service_legacy s =
     (if lg_ack_pending s \<noteq> 0
      then (rs485_send_ack_legacy (lg_ack_channel s) (lg_ack_turn_on s) s)\<lparr> lg_ack_pending := 0 \<rparr>
      else s)"

definition debug_service_legacy :: "legacy \<Rightarrow> legacy" where
  "debug_service_legacy s =
     (if lg_debug_ready s = 0 then s
      else
        let s1 = lg_print (cstr ''RX \"'') s;
            s2 = lg_print (c_string (lg_debug_line s1)) s1;
            s3 = lg_print (cstr ''\" -> '') s2;
            s4 = lg_print (cstr (verdict_text_legacy (lg_debug_verdict s3))) s3;
            s5 = lg_print [CR, LF] s4
        in s5\<lparr> lg_debug_ready := 0 \<rparr>)"

definition idle_service_legacy :: "legacy \<Rightarrow> legacy" where
  "idle_service_legacy s =
     (if (lg_line_length s \<noteq> 0 \<or> lg_line_overflow s \<noteq> 0)
         \<and> lg_tick s - lg_last_rx_msec s \<ge> RS485_IDLE_RESET_MSEC
      then s\<lparr> lg_line_length := 0, lg_line_overflow := 0 \<rparr> else s)"

definition StartDefaultTask_iter :: "legacy \<Rightarrow> legacy option" where
  "StartDefaultTask_iter s =
     (let s1 = lg_window (ack_service_legacy s);
          s2 = lg_window (debug_service_legacy s1)
      in Option.bind (neopixel_service_legacy s2)
           (\<lambda>s3. Some (lg_osDelay 10 (lg_window (idle_service_legacy (lg_window s3))))))"

subsection \<open>main\<close>

definition legacy_memory :: "u8 \<Rightarrow> u32 \<Rightarrow> slave_plan \<Rightarrow> nat option list \<Rightarrow> board \<Rightarrow> legacy" where
  "legacy_memory my t plan lags b = \<lparr> lg_id = my, lg_board = b, lg_channel_on = [0, 0],
     lg_line = replicate 16 0, lg_line_length = 0, lg_line_overflow = 0, lg_last_rx_msec = 0,
     lg_rx_armed = False, lg_ack_pending = 0, lg_ack_channel = 0, lg_ack_turn_on = 0,
     lg_strip_alarm_on = [0, 0], lg_strip_pending = [0, 0], lg_debug_line = replicate 17 0,
     lg_debug_verdict = 0, lg_debug_ready = 0,
     lg_tim = (\<lambda>_. \<lparr> lt_CR1 = 0, lt_CR2 = 0, lt_SMCR = 0, lt_DIER = 0, lt_SR = 0, lt_CCMR1 = 0,
       lt_CCMR2 = 0, lt_CCER = 0, lt_CNT = 0, lt_PSC = 0, lt_ARR = 0xFFFF, lt_CCR1 = 0, lt_CCR3 = 0 \<rparr>),
     lg_dma = (\<lambda>_. \<lparr> ls_CR = 0, ls_NDTR = 0, ls_PAR = LAddr_None, ls_M0AR = LAddr_None, ls_FCR = 0x21,
       ls_lag = Some 0 \<rparr>),
     lg_isr = (\<lambda>_. 0), lg_pixel_grb = replicate 2 (replicate 300 (0, 0, 0)),
     lg_pwm_data = replicate 7440 0, lg_pwm_period_ticks = 0, lg_zero_high_ticks = 0,
     lg_one_high_ticks = 0, lg_channel_ready = [0, 0], lg_tick = t, lg_calls = plan_calls plan,
     lg_polls = plan_polls plan, lg_lags = lags, lg_out = [] \<rparr>"

text \<open>The result of osThreadNew is not looked at: without the thread the scheduler runs and nothing
  ever happens. The flag says whether there is a task.\<close>

definition legacy_main :: "slave_env \<Rightarrow> u8 \<Rightarrow> u32 \<Rightarrow> slave_plan \<Rightarrow> nat option list \<Rightarrow> boot_error + bool \<times> legacy" where
  "legacy_main e my t plan lags =
     bind_boot (SystemClock_Config (se_osc_ok e) (se_clk_ok e) board_reset) (\<lambda>b.
     bind_boot (MX_USART2_UART_Init_slave e (MX_GPIO_Init_slave b)) (\<lambda>b.
     bind_boot (MX_USART1_UART_Init_slave e b) (\<lambda>b.
     Inr (se_thread_ok e, channel_hardware_init_legacy (legacy_memory my t plan lags b)))))"

end
