(* ===== verification/Legacy_Facts.thy ===== *)
theory Legacy_Facts
  imports Legacy_Task Slave_Run
begin

text \<open>What the ON/OFF firmware keeps: the pins show what is recorded, the buffers stay in range, and the
  bus only ever sees acknowledgements of own channels. The meaning of a line is read off by cases.\<close>

subsection \<open>Table and pins\<close>

lemma index_legacy_same: "channel_output_index_legacy my c = channel_output_index my c"
  by (simp add: channel_output_index_legacy_def channel_output_index_def channel_output_legacy_def
      channel_output_def)

lemma table_legacy [simp]:
  assumes "buildable my"
  shows "length (channel_output_legacy my) = 2"
    "co_relay (channel_output_legacy my ! 0) = (GPIOA, 0)" "co_buzzer (channel_output_legacy my ! 0) = (GPIOB, 5)"
    "co_relay (channel_output_legacy my ! Suc 0) = (GPIOA, 1)" "co_buzzer (channel_output_legacy my ! Suc 0) = (GPIOA, 8)"
    "strip_index (co_strip (channel_output_legacy my ! 0)) = 0"
    "strip_index (co_strip (channel_output_legacy my ! Suc 0)) = 1"
  using assms by (auto simp: buildable_def channel_output_legacy_def strip_index_def)

lemma own_index_legacy:
  assumes "buildable my" "channel_output_index_legacy my c \<noteq> CHANNEL_OUTPUT_NONE"
  obtains "channel_output_index_legacy my c = 0" | "channel_output_index_legacy my c = 1"
  using assms by (auto simp: index_legacy_same channel_output_index_cases split: if_splits)

lemma own_channel_legacy:
  "buildable my \<Longrightarrow> channel_output_index_legacy my c \<noteq> CHANNEL_OUTPUT_NONE \<longleftrightarrow> own_channel my c"
  by (simp only: index_legacy_same channel_output_range own_channel_def)

lemma lg_shows_write [simp]:
  "lg_shows (lg_write p v s) q = (if q = p \<and> lg_shows s q \<noteq> None then Some v else lg_shows s q)"
  by (cases p; cases q) (simp add: lg_shows_def lg_write_def lg_on_board_def drives_def HAL_GPIO_WritePin_def)

lemma lg_write_fields:
  "lg_id (lg_write p v t) = lg_id t" "lg_channel_on (lg_write p v t) = lg_channel_on t"
    "lg_line (lg_write p v t) = lg_line t" "lg_line_length (lg_write p v t) = lg_line_length t"
    "lg_debug_line (lg_write p v t) = lg_debug_line t" "lg_strip_alarm_on (lg_write p v t) = lg_strip_alarm_on t"
    "lg_strip_pending (lg_write p v t) = lg_strip_pending t" "lg_ack_pending (lg_write p v t) = lg_ack_pending t"
    "lg_ack_channel (lg_write p v t) = lg_ack_channel t" "lg_out (lg_write p v t) = lg_out t"
  by (simp_all add: lg_write_def lg_on_board_def)

lemma lg_shows_fields [simp]:
  "lg_shows (s\<lparr> lg_channel_on := x1 \<rparr>) q = lg_shows s q" "lg_shows (s\<lparr> lg_strip_alarm_on := x2 \<rparr>) q = lg_shows s q"
  "lg_shows (s\<lparr> lg_strip_pending := x3 \<rparr>) q = lg_shows s q" "lg_shows (s\<lparr> lg_line := x4 \<rparr>) q = lg_shows s q"
  "lg_shows (s\<lparr> lg_line_length := x5 \<rparr>) q = lg_shows s q" "lg_shows (s\<lparr> lg_line_overflow := x6 \<rparr>) q = lg_shows s q"
  "lg_shows (s\<lparr> lg_last_rx_msec := x7 \<rparr>) q = lg_shows s q" "lg_shows (s\<lparr> lg_rx_armed := x8 \<rparr>) q = lg_shows s q"
  "lg_shows (s\<lparr> lg_ack_pending := x5 \<rparr>) q = lg_shows s q" "lg_shows (s\<lparr> lg_ack_channel := x5 \<rparr>) q = lg_shows s q"
  "lg_shows (s\<lparr> lg_ack_turn_on := x5 \<rparr>) q = lg_shows s q" "lg_shows (s\<lparr> lg_debug_line := x4 \<rparr>) q = lg_shows s q"
  "lg_shows (s\<lparr> lg_debug_verdict := x5 \<rparr>) q = lg_shows s q" "lg_shows (s\<lparr> lg_debug_ready := x5 \<rparr>) q = lg_shows s q"
  "lg_shows (s\<lparr> lg_tim := y1 \<rparr>) q = lg_shows s q" "lg_shows (s\<lparr> lg_dma := y2 \<rparr>) q = lg_shows s q"
  "lg_shows (s\<lparr> lg_isr := y3 \<rparr>) q = lg_shows s q" "lg_shows (s\<lparr> lg_pixel_grb := y4 \<rparr>) q = lg_shows s q"
  "lg_shows (s\<lparr> lg_pwm_data := y5 \<rparr>) q = lg_shows s q" "lg_shows (s\<lparr> lg_channel_ready := x4 \<rparr>) q = lg_shows s q"
  "lg_shows (s\<lparr> lg_pwm_period_ticks := y6 \<rparr>) q = lg_shows s q" "lg_shows (s\<lparr> lg_zero_high_ticks := y6 \<rparr>) q = lg_shows s q"
  "lg_shows (s\<lparr> lg_one_high_ticks := y6 \<rparr>) q = lg_shows s q" "lg_shows (s\<lparr> lg_tick := x7 \<rparr>) q = lg_shows s q"
  "lg_shows (s\<lparr> lg_calls := z1 \<rparr>) q = lg_shows s q" "lg_shows (s\<lparr> lg_polls := z2 \<rparr>) q = lg_shows s q"
  "lg_shows (s\<lparr> lg_lags := z3 \<rparr>) q = lg_shows s q" "lg_shows (s\<lparr> lg_out := z4 \<rparr>) q = lg_shows s q"
  by (simp_all add: lg_shows_def)

subsection \<open>The invariant\<close>

definition lg_outputs_ok :: "legacy \<Rightarrow> bool" where
  "lg_outputs_ok s \<longleftrightarrow>
     lg_shows s (GPIOA, 0) = Some (lg_channel_on s ! 0 \<noteq> 0) \<and> lg_shows s (GPIOB, 5) = Some (lg_channel_on s ! 0 \<noteq> 0)
     \<and> lg_shows s (GPIOA, 1) = Some (lg_channel_on s ! 1 \<noteq> 0) \<and> lg_shows s (GPIOA, 8) = Some (lg_channel_on s ! 1 \<noteq> 0)
     \<and> lg_shows s (GPIOA, 5) = Some (lg_channel_on s ! 0 \<noteq> 0 \<or> lg_channel_on s ! 1 \<noteq> 0)"

definition lg_effect_ok :: "u8 \<Rightarrow> legacy_effect \<Rightarrow> bool" where
  "lg_effect_ok my e = (case e of
      LegacyTx u bytes timeout st \<Rightarrow> u \<noteq> USART1 \<or> (\<exists>c on. own_channel my c \<and> bytes = ack_frame_legacy my c on)
    | LegacyFrame c slots st \<Rightarrow> True)"

definition legacy_wf :: "legacy \<Rightarrow> bool" where
  "legacy_wf s \<longleftrightarrow> buildable (lg_id s) \<and> lg_outputs_ok s
     \<and> length (lg_line s) = 16 \<and> lg_line_length s \<le> 16 \<and> length (lg_debug_line s) = 17
     \<and> length (lg_channel_on s) = 2 \<and> lg_strip_alarm_on s = lg_channel_on s \<and> length (lg_strip_pending s) = 2
     \<and> (lg_ack_pending s \<noteq> 0 \<longrightarrow> own_channel (lg_id s) (lg_ack_channel s))
     \<and> list_all (lg_effect_ok (lg_id s)) (lg_out s)"

lemma legacy_wf_driver [simp]:
  "legacy_wf (s\<lparr> lg_tim := y1 \<rparr>) = legacy_wf s" "legacy_wf (s\<lparr> lg_dma := y2 \<rparr>) = legacy_wf s"
  "legacy_wf (s\<lparr> lg_isr := y3 \<rparr>) = legacy_wf s" "legacy_wf (s\<lparr> lg_pixel_grb := y4 \<rparr>) = legacy_wf s"
  "legacy_wf (s\<lparr> lg_pwm_data := y5 \<rparr>) = legacy_wf s" "legacy_wf (s\<lparr> lg_channel_ready := x4 \<rparr>) = legacy_wf s"
  "legacy_wf (s\<lparr> lg_pwm_period_ticks := y6 \<rparr>) = legacy_wf s" "legacy_wf (s\<lparr> lg_zero_high_ticks := y6 \<rparr>) = legacy_wf s"
  "legacy_wf (s\<lparr> lg_one_high_ticks := y6 \<rparr>) = legacy_wf s" "legacy_wf (s\<lparr> lg_tick := x7 \<rparr>) = legacy_wf s"
  "legacy_wf (s\<lparr> lg_calls := z1 \<rparr>) = legacy_wf s" "legacy_wf (s\<lparr> lg_polls := z2 \<rparr>) = legacy_wf s"
  "legacy_wf (s\<lparr> lg_lags := z3 \<rparr>) = legacy_wf s" "legacy_wf (s\<lparr> lg_last_rx_msec := x7 \<rparr>) = legacy_wf s"
  "legacy_wf (s\<lparr> lg_rx_armed := x8 \<rparr>) = legacy_wf s" "legacy_wf (s\<lparr> lg_debug_ready := x5 \<rparr>) = legacy_wf s"
  "legacy_wf (s\<lparr> lg_debug_verdict := x5 \<rparr>) = legacy_wf s" "legacy_wf (s\<lparr> lg_line_overflow := x5 \<rparr>) = legacy_wf s"
  "legacy_wf (lg_pass n s) = legacy_wf s"
  by (simp_all add: legacy_wf_def lg_outputs_ok_def lg_pass_def)

lemma lg_wf_emit: "legacy_wf s \<Longrightarrow> lg_effect_ok (lg_id s) e \<Longrightarrow> legacy_wf (lg_emit e s)"
  by (simp add: legacy_wf_def lg_outputs_ok_def lg_emit_def)

lemma apply_legacy_wf:
  assumes "legacy_wf s"
  shows "legacy_wf (apply_channel_state_legacy c on s)"
proof (cases "channel_output_index_legacy (lg_id s) c = CHANNEL_OUTPUT_NONE")
  case True
  then show ?thesis using assms by (simp add: apply_channel_state_legacy_def)
next
  case False
  have b: "buildable (lg_id s)" using assms by (simp add: legacy_wf_def)
  have two: "[0..<2] = [0, 1 :: nat]" by (simp add: upt_rec)
  from b False show ?thesis
  proof (cases rule: own_index_legacy)
    case 1
    then show ?thesis
      using assms b
      by (simp add: apply_channel_state_legacy_def Let_def lg_write_fields two legacy_wf_def lg_outputs_ok_def del: not_gr_zero)
  next
    case 2
    then show ?thesis
      using assms b
      by (simp add: apply_channel_state_legacy_def Let_def lg_write_fields two legacy_wf_def lg_outputs_ok_def del: not_gr_zero)
  qed
qed

subsection \<open>Lines\<close>

definition onoff_bytes :: "u8 \<Rightarrow> u8 \<Rightarrow> bool \<Rightarrow> u8 list" where
  "onoff_bytes slave channel on =
     [ascii CHR ''S'', ascii CHR ''0'' + slave, ascii CHR '':'', ascii CHR ''C'', ascii CHR ''H'',
      ascii CHR ''0'' + channel, ascii CHR '':'', ascii CHR ''O'']
     @ (if on then [ascii CHR ''N''] else [ascii CHR ''F'', ascii CHR ''F''])"

definition legacy_obey :: "u8 \<Rightarrow> u8 \<Rightarrow> legacy \<Rightarrow> legacy" where
  "legacy_obey channel turn_on s =
     (let t = apply_channel_state_legacy channel turn_on s
      in if lg_ack_pending t = 0
         then t\<lparr> lg_ack_channel := channel, lg_ack_turn_on := of_flag (turn_on \<noteq> 0), lg_ack_pending := 1 \<rparr> else t)"

text \<open>The chain of tests, by what the line says: the action, the form, the address.\<close>

definition legacy_action :: "u8 list \<Rightarrow> u8 option" where
  "legacy_action l =
     (if length l = 9 \<and> l ! 7 = 79 \<and> l ! 8 = 78 then Some 1
      else if length l = 10 \<and> l ! 7 = 79 \<and> l ! 8 = 70 \<and> l ! 9 = 70 then Some 0 else None)"

definition legacy_form :: "u8 list \<Rightarrow> bool" where
  "legacy_form l \<longleftrightarrow> 9 \<le> length l \<and> l ! 0 = 83 \<and> l ! 2 = 58 \<and> l ! 3 = 67 \<and> l ! 4 = 72 \<and> l ! 6 = 58
     \<and> digit19 (l ! 1 - 48) \<and> digit19 (l ! 5 - 48)"

definition legacy_verdict :: "u8 \<Rightarrow> u8 list \<Rightarrow> u8" where
  "legacy_verdict my l =
     (if \<not> legacy_form l then VERDICT_BAD_FORMAT
      else if l ! 1 - 48 \<noteq> my then VERDICT_OTHER_SLAVE
      else if legacy_action l = None then VERDICT_BAD_ACTION
      else if \<not> own_channel my (l ! 5 - 48) then VERDICT_OTHER_CHAN else VERDICT_APPLIED)"

lemma length_tests:
  assumes "length l = unat (len :: u8)"
  shows "len < 9 \<longleftrightarrow> length l < 9" "len = 9 \<longleftrightarrow> length l = 9" "len = 10 \<longleftrightarrow> length l = 10"
  using assms by (simp_all add: word_less_nat_alt word_unat_eq_iff)

lemma process_line_legacy_spec:
  assumes "buildable (lg_id s)" "length l = unat len"
  shows "process_rs485_line_legacy l len s = (legacy_verdict (lg_id s) l,
     if legacy_verdict (lg_id s) l = VERDICT_APPLIED
     then legacy_obey (l ! 5 - 48) (the (legacy_action l)) s else s)"
proof -
  have form: "legacy_form l \<longleftrightarrow> \<not> (len < 9 \<or> l ! 0 \<noteq> 83 \<or> l ! 2 \<noteq> 58 \<or> l ! 3 \<noteq> 67 \<or> l ! 4 \<noteq> 72 \<or> l ! 6 \<noteq> 58)
      \<and> \<not> (l ! 1 < 49 \<or> 57 < l ! 1 \<or> l ! 5 < 49 \<or> 57 < l ! 5)"
    using digit19_test [of "l ! 1"] digit19_test [of "l ! 5"]
    unfolding legacy_form_def length_tests(1) [OF assms(2)] by auto
  have act: "(if len = 9 \<and> l ! 7 = 79 \<and> l ! 8 = 78 then Some 1
      else if len = 10 \<and> l ! 7 = 79 \<and> l ! 8 = 70 \<and> l ! 9 = 70 then Some (0 :: u8) else None) = legacy_action l"
    by (simp add: legacy_action_def length_tests [OF assms(2)])
  have own: "channel_output_index_legacy (lg_id s) c = CHANNEL_OUTPUT_NONE \<longleftrightarrow> \<not> own_channel (lg_id s) c" for c
    using own_channel_legacy [OF assms(1)] by blast
  show ?thesis
  proof (cases "legacy_form l")
    case False
    then show ?thesis
      using form by (auto simp: process_rs485_line_legacy_def legacy_verdict_def)
  next
    case True
    then have f: "\<not> (len < 9 \<or> l ! 0 \<noteq> 83 \<or> l ! 2 \<noteq> 58 \<or> l ! 3 \<noteq> 67 \<or> l ! 4 \<noteq> 72 \<or> l ! 6 \<noteq> 58)"
      "\<not> (l ! 1 < 49 \<or> 57 < l ! 1 \<or> l ! 5 < 49 \<or> 57 < l ! 5)" using form by blast+
    have a: "ascii CHR ''S'' = 83" "ascii CHR '':'' = 58" "ascii CHR ''C'' = 67" "ascii CHR ''H'' = 72"
      "ascii CHR ''1'' = 49" "ascii CHR ''9'' = 57" "ascii CHR ''0'' = 48" "ascii CHR ''O'' = 79"
      "ascii CHR ''N'' = 78" "ascii CHR ''F'' = 70" by simp_all
    show ?thesis
      unfolding process_rs485_line_legacy_def a act own if_not_P [OF f(1)] if_not_P [OF f(2)] legacy_verdict_def
      using True by (simp add: legacy_obey_def Let_def split: option.split)
  qed
qed

lemma two_ex: "P a b \<Longrightarrow> \<exists>a b. P a b"
  by (rule exI) (rule exI)

lemma spelt_9: "length l = 9 \<Longrightarrow> l = [l ! 0, l ! 1, l ! 2, l ! 3, l ! 4, l ! 5, l ! 6, l ! 7, l ! 8]"
  by (auto simp: numeral_eq_Suc length_Suc_conv)

lemma spelt_10:
  "length l = 10 \<Longrightarrow> l = [l ! 0, l ! 1, l ! 2, l ! 3, l ! 4, l ! 5, l ! 6, l ! 7, l ! 8, l ! 9]"
  by (auto simp: numeral_eq_Suc length_Suc_conv)

lemma legacy_applied_iff:
  assumes "buildable my"
  shows "legacy_verdict my l = VERDICT_APPLIED \<longleftrightarrow> (\<exists>c on. own_channel my c \<and> l = onoff_bytes my c on)"
proof
  assume "legacy_verdict my l = VERDICT_APPLIED"
  then have v: "legacy_form l" "l ! 1 - 48 = my" "legacy_action l \<noteq> None" "own_channel my (l ! 5 - 48)"
    by (auto simp: legacy_verdict_def split: if_splits)
  have one: "48 + my = l ! 1" using v(2) by (simp add: algebra_simps flip: v(2))
  have head: "l ! 0 = 83" "l ! 2 = 58" "l ! 3 = 67" "l ! 4 = 72" "l ! 6 = 58"
    using v(1) by (simp_all add: legacy_form_def)
  consider "length l = 9" "l ! 7 = 79" "l ! 8 = 78" | "length l = 10" "l ! 7 = 79" "l ! 8 = 70" "l ! 9 = 70"
    using v(3) by (auto simp: legacy_action_def split: if_splits)
  then show "\<exists>c on. own_channel my c \<and> l = onoff_bytes my c on"
  proof cases
    case 1
    have "[l ! 0, l ! 1, l ! 2, l ! 3, l ! 4, l ! 5, l ! 6, l ! 7, l ! 8] = onoff_bytes my (l ! 5 - 48) True"
      using head 1 one by (simp add: onoff_bytes_def)
    then have "l = onoff_bytes my (l ! 5 - 48) True" using spelt_9 [OF 1(1)] by (rule trans [rotated])
    with v(4) have "own_channel my (l ! 5 - 48) \<and> l = onoff_bytes my (l ! 5 - 48) True" by (rule conjI)
    then show ?thesis by (rule two_ex)
  next
    case 2
    have "[l ! 0, l ! 1, l ! 2, l ! 3, l ! 4, l ! 5, l ! 6, l ! 7, l ! 8, l ! 9] = onoff_bytes my (l ! 5 - 48) False"
      using head 2 one by (simp add: onoff_bytes_def)
    then have "l = onoff_bytes my (l ! 5 - 48) False" using spelt_10 [OF 2(1)] by (rule trans [rotated])
    with v(4) have "own_channel my (l ! 5 - 48) \<and> l = onoff_bytes my (l ! 5 - 48) False" by (rule conjI)
    then show ?thesis by (rule two_ex)
  qed
next
  have d: "digit19 my" "own_channel my c \<Longrightarrow> digit19 c" for c
    using assms by (auto simp: buildable_def digit19_def own_channel_def word_le_nat_alt)
  assume "\<exists>c on. own_channel my c \<and> l = onoff_bytes my c on"
  then obtain c on where o: "own_channel my c" and l: "l = onoff_bytes my c on" by (elim exE conjE)
  have form: "legacy_form (onoff_bytes my c on)" and act: "legacy_action (onoff_bytes my c on) \<noteq> None"
    using d(1) d(2) [OF o] by (cases on; simp add: legacy_form_def legacy_action_def onoff_bytes_def)+
  have "onoff_bytes my c on ! 1 - 48 = my" "onoff_bytes my c on ! 5 - 48 = c"
    by (simp_all add: onoff_bytes_def)
  then show "legacy_verdict my l = VERDICT_APPLIED"
    unfolding l legacy_verdict_def using form act o by simp
qed

lemma process_line_legacy_take:
  assumes "length buf = 16" "len \<le> 16"
  shows "process_rs485_line_legacy buf len s = process_rs485_line_legacy (take (unat len) buf) len s"
proof (cases "len < 9")
  case True
  then show ?thesis by (simp add: process_rs485_line_legacy_def)
next
  case False
  then have n: "\<And>i. i < 9 \<Longrightarrow> take (unat len) buf ! i = buf ! i" by (simp add: word_less_nat_alt)
  have t: "len = 10 \<Longrightarrow> take (unat len) buf ! 9 = buf ! 9" by simp
  show ?thesis
    using t unfolding process_rs485_line_legacy_def by (simp add: n cong: conj_cong)
qed

lemma legacy_obey_wf:
  assumes "legacy_wf s" "own_channel (lg_id s) c"
  shows "legacy_wf (legacy_obey c on s)" "lg_id (legacy_obey c on s) = lg_id s"
proof -
  have id: "lg_id (apply_channel_state_legacy c on s) = lg_id s"
    by (simp add: apply_channel_state_legacy_def Let_def lg_write_def lg_on_board_def)
  then show "lg_id (legacy_obey c on s) = lg_id s" by (simp add: legacy_obey_def Let_def)
  show "legacy_wf (legacy_obey c on s)"
    using apply_legacy_wf [OF assms(1), of c on] assms(2) id
    by (simp add: legacy_obey_def Let_def legacy_wf_def lg_outputs_ok_def)
qed

subsection \<open>Interrupts\<close>

text \<open>\<open>lg_ok my s\<close>: the invariant of the slave with this number.\<close>

definition lg_ok :: "u8 \<Rightarrow> legacy \<Rightarrow> bool" where
  "lg_ok my s \<longleftrightarrow> legacy_wf s \<and> lg_id s = my"

lemma legacy_wf_line [simp]:
  "legacy_wf t \<Longrightarrow> legacy_wf (t\<lparr> lg_line_length := 0 \<rparr>)"
  "legacy_wf t \<Longrightarrow> legacy_wf (t\<lparr> lg_line_length := 0, lg_line_overflow := k \<rparr>)"
  "legacy_wf t \<Longrightarrow> legacy_wf (t\<lparr> lg_line_length := 0, lg_line_overflow := k, lg_rx_armed := b \<rparr>)"
  "legacy_wf t \<Longrightarrow> legacy_wf (t\<lparr> lg_ack_pending := 0 \<rparr>)"
  "legacy_wf t \<Longrightarrow> length d = 17 \<Longrightarrow> legacy_wf (t\<lparr> lg_debug_line := d \<rparr>)"
  "legacy_wf t \<Longrightarrow> length d = 17 \<Longrightarrow> legacy_wf (t\<lparr> lg_debug_line := d, lg_debug_verdict := v, lg_debug_ready := r \<rparr>)"
  "legacy_wf t \<Longrightarrow> length l = 16 \<Longrightarrow> n \<le> 16 \<Longrightarrow> legacy_wf (t\<lparr> lg_line := l, lg_line_length := n \<rparr>)"
  "legacy_wf t \<Longrightarrow> length q = 2 \<Longrightarrow> legacy_wf (t\<lparr> lg_strip_pending := q \<rparr>)"
  unfolding legacy_wf_def lg_outputs_ok_def by (simp_all only: lg_shows_fields) simp_all

lemma process_byte_legacy_ok:
  assumes "lg_ok my s"
  shows "lg_ok my (process_rs485_byte_legacy b s)"
proof -
  have wf: "legacy_wf s" "lg_id s = my" using assms by (simp_all add: lg_ok_def)
  then have p: "buildable (lg_id s)" "length (lg_line s) = 16" "lg_line_length s \<le> 16" by (simp_all add: legacy_wf_def)
  let ?l = "take (unat (lg_line_length s)) (lg_line s)"
  have len: "length ?l = unat (lg_line_length s)" using p by (simp add: word_le_nat_alt)
  have end_: "lg_ok my (t\<lparr> lg_line_length := 0, lg_line_overflow := 0 \<rparr>)" if "lg_ok my t" for t
    using that by (simp add: lg_ok_def)
  have line: "lg_ok my (snd (process_rs485_line_legacy (lg_line s) (lg_line_length s) s))"
    unfolding process_line_legacy_take [OF p(2,3)] process_line_legacy_spec [OF p(1) len] snd_conv
    using wf legacy_obey_wf [OF wf(1)] by (auto simp: lg_ok_def legacy_verdict_def)
  have debug: "lg_ok my (t\<lparr> lg_debug_line := take (unat (lg_line_length t)) (lg_line t) @ [0]
        @ drop (unat (lg_line_length t) + 1) (lg_debug_line t), lg_debug_verdict := v, lg_debug_ready := 1 \<rparr>)"
    if "lg_ok my t" for t v
  proof -
    have "legacy_wf t" "lg_id t = my" using that by (simp_all add: lg_ok_def)
    moreover from this have "lg_line_length t \<le> 16" "length (lg_line t) = 16" "length (lg_debug_line t) = 17"
      by (simp_all add: legacy_wf_def)
    ultimately show ?thesis by (simp add: lg_ok_def word_le_nat_alt)
  qed
  have store: "lg_ok my (s\<lparr> lg_line := (lg_line s)[unat (lg_line_length s) := b], lg_line_length := lg_line_length s + 1 \<rparr>)"
    if "\<not> 16 \<le> lg_line_length s"
  proof -
    have "lg_line_length s + 1 \<le> 16" using that by (simp add: inc_le not_le)
    then show ?thesis using wf p by (simp add: lg_ok_def)
  qed
  have ovf: "lg_ok my (s\<lparr> lg_line_overflow := 1 \<rparr>)" using assms by (simp add: lg_ok_def)
  show ?thesis
    unfolding process_rs485_byte_legacy_def Let_def split_def RS485_LINE_BUFFER_SIZE_def
    using assms end_ line debug store ovf by (simp split: if_split)
qed

lemma lg_ok_upd [simp]:
  "lg_ok my (s\<lparr> lg_rx_armed := b \<rparr>) = lg_ok my s" "lg_ok my (s\<lparr> lg_last_rx_msec := t \<rparr>) = lg_ok my s"
  "lg_ok my (lg_pass n s) = lg_ok my s" "lg_ok my (s\<lparr> lg_calls := c \<rparr>) = lg_ok my s"
  "lg_ok my (s\<lparr> lg_polls := pp \<rparr>) = lg_ok my s" "lg_ok my (s\<lparr> lg_lags := ll \<rparr>) = lg_ok my s"
  "lg_ok my (s\<lparr> lg_debug_ready := d \<rparr>) = lg_ok my s" "lg_ok my (s\<lparr> lg_pixel_grb := g \<rparr>) = lg_ok my s"
  "lg_ok my (s\<lparr> lg_pwm_data := w \<rparr>) = lg_ok my s" "lg_ok my (s\<lparr> lg_channel_ready := cr \<rparr>) = lg_ok my s"
  "lg_ok my (s\<lparr> lg_isr := r \<rparr>) = lg_ok my s" "lg_ok my (s\<lparr> lg_dma := dd \<rparr>) = lg_ok my s"
  "lg_ok my (s\<lparr> lg_tim := tt \<rparr>) = lg_ok my s" "lg_ok my (s\<lparr> lg_pwm_period_ticks := k \<rparr>) = lg_ok my s"
  "lg_ok my (s\<lparr> lg_zero_high_ticks := k \<rparr>) = lg_ok my s" "lg_ok my (s\<lparr> lg_one_high_ticks := k \<rparr>) = lg_ok my s"
  by (simp_all add: lg_ok_def lg_pass_def)

lemma lg_irq_ok: "lg_ok my s \<Longrightarrow> lg_ok my (lg_irq irq s)"
  using process_byte_legacy_ok [of my "s\<lparr> lg_rx_armed := False \<rparr>"]
  by (simp add: lg_irq_def HAL_UART_RxCpltCallback_legacy_def HAL_UART_ErrorCallback_legacy_def Let_def
      split: slave_irq.split) (simp add: lg_ok_def)

lemma lg_emit_ok: "lg_ok my s \<Longrightarrow> lg_effect_ok my e \<Longrightarrow> lg_ok my (lg_emit e s)"
  using lg_wf_emit by (auto simp: lg_ok_def lg_emit_def)

end
