(* ===== verification/Legacy_Encoding.thy ===== *)
theory Legacy_Encoding
  imports Legacy_Neopixel Strip_Encoding
begin

text \<open>The slots of the ON/OFF driver: with the timing its clock gives, a row of colours becomes the
  half-words a strip decodes to that row. The slots and the receiver are those of the present driver.\<close>

subsection \<open>Timing\<close>

definition lg_clocked :: "legacy \<Rightarrow> bool" where
  "lg_clocked s \<longleftrightarrow> HAL_RCC_GetPCLK1Freq (lg_board s) = 42000000 \<and> apb1_divided (lg_board s)"

definition lg_timed :: "legacy \<Rightarrow> bool" where
  "lg_timed s \<longleftrightarrow> lg_pwm_period_ticks s = 105 \<and> lg_zero_high_ticks s = 29 \<and> lg_one_high_ticks s = 58"

lemma compute_bit_timing_clocked:
  assumes "lg_clocked s"
  shows "compute_bit_timing s = s\<lparr> lg_pwm_period_ticks := 105, lg_zero_high_ticks := 29, lg_one_high_ticks := 58 \<rparr>"
  using assms by (simp add: compute_bit_timing_def lg_clocked_def Let_def)

subsection \<open>Bits, bytes and rows\<close>

lemma encode_bits_legacy_same: "encode_bits_legacy 29 58 v m b = encode_bits v m b"
proof -
  have "z = 29 \<Longrightarrow> w = 58 \<Longrightarrow> encode_bits_legacy z w v m (buf, k) = encode_bits v m (buf, k)" for z w v m buf k
  proof (induction z w v m "(buf, k)" arbitrary: buf k rule: encode_bits_legacy.induct)
    case (1 z w v m buf k)
    then show ?case
      by (subst encode_bits_legacy.simps, subst encode_bits.simps) auto
  qed
  then show ?thesis by (cases b) simp
qed

lemma encode_byte_legacy_same: "lg_timed s \<Longrightarrow> encode_byte_legacy s v b = encode_byte v b"
  by (simp add: encode_byte_legacy_def lg_timed_def encode_bits_legacy_same encode_byte_def)

definition triple_slots :: "u8 \<times> u8 \<times> u8 \<Rightarrow> u16 list" where
  "triple_slots = (\<lambda>(c0, c1, c2). pixel_slots c1 c2 c0)"

definition triple_bits :: "u8 \<times> u8 \<times> u8 \<Rightarrow> bool list" where
  "triple_bits = (\<lambda>(c0, c1, c2). pixel_bits c1 c2 c0)"

definition triple_bytes :: "u8 \<times> u8 \<times> u8 \<Rightarrow> u8 list" where
  "triple_bytes = (\<lambda>(c0, c1, c2). [c0, c1, c2])"

lemma length_triple_slots [simp]: "length (triple_slots c) = 24"
  by (cases c) (simp add: triple_slots_def)

lemma length_row_slots [simp]: "length (concat (map triple_slots row)) = length row * 24"
  by (induction row) simp_all

lemma encode_row_put:
  assumes "lg_timed s" "unat k + length row * 24 \<le> length buf" "length buf < 2 ^ 32"
  shows "encode_row s row (buf, k) =
    (put_at (unat k) (concat (map triple_slots row)) buf, k + word_of_nat (length row * 24))"
  using assms(2,3)
proof (induction row arbitrary: buf k)
  case Nil
  then show ?case by (simp add: encode_row_def put_at_def)
next
  case (Cons c row)
  obtain c0 c1 c2 where c: "c = (c0, c1, c2)" by (cases c)
  let ?b = "put_at (unat k) (triple_slots c) buf"
  have len: "length ?b = length buf" using Cons.prems by simp
  have k: "unat (k + 24) = unat k + 24" using Cons.prems by (simp add: unat_word_ariths)
  have "encode_row s (c # row) (buf, k) = encode_row s row (?b, k + 24)"
    using encode_pixel_put [of k buf c2 c1 c0] Cons.prems
    by (simp add: encode_row_def c encode_byte_legacy_same [OF assms(1)] triple_slots_def)
  also have "\<dots> = (put_at (unat (k + 24)) (concat (map triple_slots row)) ?b, k + 24 + word_of_nat (length row * 24))"
    using Cons.IH [of "k + 24" ?b] Cons.prems k len by simp
  also have "put_at (unat (k + 24)) (concat (map triple_slots row)) ?b
      = put_at (unat k) (concat (map triple_slots (c # row))) buf"
    using put_at_append [of "unat k" "triple_slots c" buf "concat (map triple_slots row)"] Cons.prems k by simp
  finally show ?case by (simp add: algebra_simps)
qed

lemma pad_low_put:
  assumes "k \<le> n" "unat n \<le> length buf"
  shows "pad_low n (buf, k) = (put_at (unat k) (replicate (unat n - unat k) 0) buf, n)"
  using assms
proof (induction "unat n - unat k" arbitrary: k buf)
  case 0
  then have "k = n" by (simp add: word_le_nat_alt word_unat_eq_iff)
  then show ?case by (subst pad_low.simps) (simp add: put_at_def)
next
  case (Suc m)
  then have less: "unat k < unat n" "k < n" by (simp_all add: word_less_nat_alt)
  have k: "unat (k + 1) = Suc (unat k)" using less unat_u32_less [of n] by (simp add: unat_word_ariths)
  have "pad_low n (buf, k) = pad_low n (buf[unat k := 0], k + 1)"
    using less by (subst pad_low.simps) simp
  also have "\<dots> = (put_at (Suc (unat k)) (replicate (unat n - Suc (unat k)) 0) (buf[unat k := 0]), n)"
    using Suc(1) [of "k + 1" "buf[unat k := 0]"] Suc(2-4) k less by (simp add: word_le_nat_alt)
  also have "put_at (Suc (unat k)) (replicate (unat n - Suc (unat k)) 0) (buf[unat k := 0])
      = put_at (unat k) (replicate (unat n - unat k) 0) buf"
  proof -
    have "unat n - unat k = Suc (unat n - Suc (unat k))" using less by simp
    then show ?thesis
      using list_put_next(1) [of "unat k" buf 0] list_put_next(2) [of "unat k" buf "unat n - Suc (unat k)" 0]
        less Suc.prems(2)
      by (simp add: put_at_def)
  qed
  finally show ?case .
qed

definition legacy_slots :: "(u8 \<times> u8 \<times> u8) list \<Rightarrow> u16 list" where
  "legacy_slots row = concat (map triple_slots row) @ replicate 240 0"

lemma length_legacy_slots [simp]: "length (legacy_slots row) = length row * 24 + 240"
  by (simp add: legacy_slots_def)

lemma encode_whole_row:
  assumes "lg_timed s" "length row \<le> 300" "length buf = 7440"
  defines "slots \<equiv> word_of_nat (length row) * word_of_nat WS2812_BITS_PER_PIXEL + WS2812_RESET_SLOT_COUNT"
  shows "pad_low slots (encode_row s row (buf, 0)) = (put_at 0 (legacy_slots row) buf, slots)"
    "unat slots = length row * 24 + 240"
proof -
  have n: "unat (word_of_nat (length row * 24) :: u32) = length row * 24"
    using assms(2) by (simp add: unat_of_nat del: of_nat_mult)
  have t: "slots = word_of_nat (length row * 24) + 240" by (simp add: slots_def)
  show u: "unat slots = length row * 24 + 240"
    using assms(2) unfolding t unat_word_ariths(1) n by simp
  have le: "(word_of_nat (length row * 24) :: u32) \<le> slots"
    unfolding word_le_nat_alt u n by simp
  have "encode_row s row (buf, 0) = (put_at 0 (concat (map triple_slots row)) buf, word_of_nat (length row * 24))"
    using encode_row_put [OF assms(1), of 0 row buf] assms(2,3) by simp
  moreover have "pad_low slots (put_at 0 (concat (map triple_slots row)) buf, word_of_nat (length row * 24))
      = (put_at (length row * 24) (replicate 240 0) (put_at 0 (concat (map triple_slots row)) buf), slots)"
    using pad_low_put [OF le, of "put_at 0 (concat (map triple_slots row)) buf"] assms(2,3)
    by (simp add: u n del: of_nat_mult)
  moreover have "put_at (length row * 24) (replicate 240 0) (put_at 0 (concat (map triple_slots row)) buf)
      = put_at 0 (legacy_slots row) buf"
    using put_at_append [of 0 "concat (map triple_slots row)" buf "replicate 240 0"] assms(2,3)
    by (simp add: legacy_slots_def)
  ultimately show "pad_low slots (encode_row s row (buf, 0)) = (put_at 0 (legacy_slots row) buf, slots)" by simp
qed

subsection \<open>What a strip reads\<close>

lemma triple_slots_bits: "concat (map triple_slots row) = map slot_of_bit (concat (map triple_bits row))"
  by (induction row) (auto simp: triple_slots_def triple_bits_def pixel_slots_bits)

lemma bytes_of_triples: "bytes_of_bits (concat (map triple_bits row)) = concat (map triple_bytes row)"
  by (induction row) (auto simp: triple_bits_def triple_bytes_def pixel_bits_def bytes_of_byte_bits)

lemma strip_receive_slots: "strip_receive (map slot_of_bit bits @ replicate k 0) = Some (bytes_of_bits bits)"
proof -
  have t: "takeWhile (\<lambda>d. d \<noteq> 0) (map slot_of_bit bits @ replicate k 0) = map slot_of_bit bits" for bits
    by (induction bits) (simp_all add: takeWhile_eq_Nil_iff)
  have "takeWhile (\<lambda>d. d \<noteq> 0) (dropWhile (\<lambda>d. d = 0) (map slot_of_bit bits @ replicate k 0)) = map slot_of_bit bits"
  proof (cases bits)
    case Nil
    then show ?thesis by (simp add: dropWhile_eq_Nil_conv)
  next
    case (Cons b bs)
    then have "dropWhile (\<lambda>d. d = 0) (map slot_of_bit bits @ replicate k 0) = map slot_of_bit bits @ replicate k 0"
      by simp
    then show ?thesis using t by simp
  qed
  then show ?thesis by (simp add: strip_receive_def list_all_iff comp_def)
qed

lemma legacy_slots_read:
  assumes "row \<noteq> []"
  shows "strip_receive (butlast (legacy_slots row)) = Some (concat (map triple_bytes row))"
    "280000 \<le> low_time_ns (length (takeWhile (\<lambda>d. d = 0) (rev (butlast (legacy_slots row)))))"
proof -
  let ?bits = "concat (map triple_bits row)"
  have b: "butlast (legacy_slots row) = map slot_of_bit ?bits @ replicate 239 0"
    unfolding legacy_slots_def triple_slots_bits replicate_240_snoc by (simp flip: append_assoc)
  show "strip_receive (butlast (legacy_slots row)) = Some (concat (map triple_bytes row))"
    unfolding b strip_receive_slots bytes_of_triples ..
  have "?bits \<noteq> []"
    using assms by (cases row) (auto simp: triple_bits_def pixel_bits_def byte_bits_def split: prod.splits)
  then obtain z zs where "rev ?bits = z # zs" by (metis list.exhaust rev_is_Nil_conv)
  then have "rev (butlast (legacy_slots row)) = replicate 239 0 @ slot_of_bit z # map slot_of_bit zs"
    unfolding b by (simp add: rev_map)
  then have "length (takeWhile (\<lambda>d. d = 0) (rev (butlast (legacy_slots row)))) = 239"
    by (simp add: takeWhile_low)
  then show "280000 \<le> low_time_ns (length (takeWhile (\<lambda>d. d = 0) (rev (butlast (legacy_slots row)))))"
    by (simp add: low_time_ns_def)
qed

end
