(* ===== verification/Legacy_Show.thy ===== *)
theory Legacy_Show
  imports Legacy_Facts Legacy_Encoding
begin

text \<open>One frame of the ON/OFF strip driver: when the wait for the stream ends, what is on the wire, and
  that the driver's set-up survives interrupts and frames.\<close>

subsection \<open>Waiting for the stream\<close>

lemma lg_upd_stream_at [simp]:
  "lg_dma (lg_upd_stream i f s) i = f (lg_dma s i)" "j \<noteq> i \<Longrightarrow> lg_dma (lg_upd_stream i f s) j = lg_dma s j"
  by (simp_all add: lg_upd_stream_def)

lemma lg_upd_stream_twice: "lg_upd_stream i f (lg_upd_stream i g s) = lg_upd_stream i (f \<circ> g) s"
  by (simp add: lg_upd_stream_def)

lemma lag_twice: "(\<lambda>x. x\<lparr> ls_lag := a \<rparr>) \<circ> (\<lambda>x. x\<lparr> ls_lag := b \<rparr>) = (\<lambda>x. x\<lparr> ls_lag := a \<rparr>)"
  by (simp add: fun_eq_iff)

lemma lag_same: "ls_lag (lg_dma s i) = a \<Longrightarrow> lg_upd_stream i (\<lambda>x. x\<lparr> ls_lag := a \<rparr>) s = s"
  by (auto simp: lg_upd_stream_def)

lemma en_wait_ends:
  "ls_lag (lg_dma s i) = Some n \<Longrightarrow> ls_CR (lg_dma s i) AND DMA_SxCR_EN = 0 \<Longrightarrow>
     en_wait i s = Some (lg_upd_stream i (\<lambda>x. x\<lparr> ls_lag := Some 0 \<rparr>) s)"
proof (induction n arbitrary: s)
  case 0
  then show ?case by (subst en_wait.simps) (simp add: lg_read_CR_def lag_same)
next
  case (Suc n)
  have "(ls_CR (lg_dma s i) OR DMA_SxCR_EN) AND DMA_SxCR_EN \<noteq> 0"
    by (simp add: reg_bits bit.conj_disj_distrib2)
  then show ?case
    using Suc.prems Suc.IH [of "lg_upd_stream i (\<lambda>x. x\<lparr> ls_lag := Some n \<rparr>) s"]
    by (subst en_wait.simps) (simp add: lg_read_CR_def lg_upd_stream_twice lag_twice)
qed

lemma en_wait_None: "en_wait i s = Some t \<Longrightarrow> ls_lag (lg_dma s i) \<noteq> None"
proof (rule en_wait.raw_induct [of "\<lambda>i s t. ls_lag (lg_dma s i) \<noteq> None" i s t])
  fix f :: "legacy_stream_id \<Rightarrow> legacy \<Rightarrow> legacy option" and i s t
  assume ih: "\<And>i s t. f i s = Some t \<Longrightarrow> ls_lag (lg_dma s i) \<noteq> None"
    and step: "(let (cr, s1) = lg_read_CR i s in if cr AND DMA_SxCR_EN \<noteq> 0 then f i s1 else Some s1) = Some t"
  show "ls_lag (lg_dma s i) \<noteq> None"
  proof
    assume l: "ls_lag (lg_dma s i) = None"
    have "(ls_CR (lg_dma s i) OR DMA_SxCR_EN) AND DMA_SxCR_EN \<noteq> 0"
      by (simp add: reg_bits bit.conj_disj_distrib2)
    then have "f i s = Some t" using step l by (simp add: lg_read_CR_def)
    then show False using ih l by blast
  qed
qed simp

lemma en_wait_never: "ls_lag (lg_dma s i) = None \<Longrightarrow> en_wait i s = None"
  using en_wait_None by (cases "en_wait i s") auto

text \<open>The request to switch a stream off, and whether it will ever be granted.\<close>

definition lg_switch_off :: "legacy_stream_id \<Rightarrow> legacy \<Rightarrow> legacy" where
  "lg_switch_off i s = lg_write_CR i (ls_CR (lg_dma s i) AND NOT DMA_SxCR_EN) s"

lemma switch_off_CR: "ls_CR (lg_dma (lg_switch_off i s) i) AND DMA_SxCR_EN = 0"
  by (simp add: lg_switch_off_def lg_write_CR_def and.assoc split: list.split)

lemma en_wait_switch_off:
  "en_wait i (lg_switch_off i s) = (if ls_lag (lg_dma (lg_switch_off i s) i) = None then None
     else Some (lg_upd_stream i (\<lambda>x. x\<lparr> ls_lag := Some 0 \<rparr>) (lg_switch_off i s)))"
  using en_wait_never en_wait_ends switch_off_CR by fastforce

text \<open>Asking does not depend on what is in the buffers.\<close>

lemma switch_off_pwm: "lg_switch_off i (s\<lparr> lg_pwm_data := b \<rparr>) = (lg_switch_off i s)\<lparr> lg_pwm_data := b \<rparr>"
  by (simp add: lg_switch_off_def lg_write_CR_def lg_upd_stream_def split: list.split)

lemma show_returns_iff:
  assumes "channel < 2" "0 < count" "count \<le> 300" "lg_channel_ready s ! unat channel \<noteq> 0"
  shows "neopixel_show_legacy channel count s = None
    \<longleftrightarrow> ls_lag (lg_dma (lg_switch_off (lh_stream (legacy_hw (strip_of channel))) s)
          (lh_stream (legacy_hw (strip_of channel)))) = None"
proof -
  have g: "\<not> channel \<ge> NEOPIXEL_CH_COUNT" "\<not> (count = 0 \<or> count > LEGACY_MAX_PIXEL_COUNT)"
    using assms(1-3) by auto
  show ?thesis
    unfolding neopixel_show_legacy_def if_not_P [OF g(1)] if_not_P [OF g(2)] if_not_P [OF assms(4)] Let_def
      lg_switch_off_def [symmetric] split_def en_wait_switch_off
    by (simp add: switch_off_pwm split: prod.split)
qed

subsection \<open>The set-up of the driver\<close>

definition strip_set_up :: "neopixel_channel_t \<Rightarrow> legacy \<Rightarrow> bool" where
  "strip_set_up c s \<longleftrightarrow> lt_ARR (lg_tim s (lh_timer (legacy_hw c))) = 104
     \<and> lt_get_ccmr (lh_ccmr1 (legacy_hw c)) (lg_tim s (lh_timer (legacy_hw c))) = lh_ccmr_pwm_bits (legacy_hw c)
     \<and> lt_CCER (lg_tim s (lh_timer (legacy_hw c))) = lh_ccer_enable (legacy_hw c)"

definition drv_ok :: "legacy \<Rightarrow> bool" where
  "drv_ok s \<longleftrightarrow> lg_clocked s \<and> length (lg_pwm_data s) = 7440 \<and> map length (lg_pixel_grb s) = [300, 300]
     \<and> length (lg_channel_ready s) = 2
     \<and> (\<forall>c. lg_channel_ready s ! strip_index c \<noteq> 0 \<longrightarrow> lg_timed s \<and> strip_set_up c s)"

text \<open>\<open>lg_inv my rdy s\<close>: the slave with this number, its strips set up as far as \<open>rdy\<close> says.\<close>

definition lg_inv :: "u8 \<Rightarrow> u8 list \<Rightarrow> legacy \<Rightarrow> bool" where
  "lg_inv my rdy s \<longleftrightarrow> lg_ok my s \<and> drv_ok s \<and> lg_channel_ready s = rdy"

lemma drv_ok_fields [simp]:
  "drv_ok (s\<lparr> lg_channel_on := x1 \<rparr>) = drv_ok s" "drv_ok (s\<lparr> lg_strip_alarm_on := x1 \<rparr>) = drv_ok s"
  "drv_ok (s\<lparr> lg_strip_pending := x3 \<rparr>) = drv_ok s" "drv_ok (s\<lparr> lg_line := x4 \<rparr>) = drv_ok s"
  "drv_ok (s\<lparr> lg_line_length := x5 \<rparr>) = drv_ok s" "drv_ok (s\<lparr> lg_line_overflow := x6 \<rparr>) = drv_ok s"
  "drv_ok (s\<lparr> lg_last_rx_msec := x7 \<rparr>) = drv_ok s" "drv_ok (s\<lparr> lg_rx_armed := x8 \<rparr>) = drv_ok s"
  "drv_ok (s\<lparr> lg_ack_pending := x5 \<rparr>) = drv_ok s" "drv_ok (s\<lparr> lg_ack_channel := x5 \<rparr>) = drv_ok s"
  "drv_ok (s\<lparr> lg_ack_turn_on := x5 \<rparr>) = drv_ok s" "drv_ok (s\<lparr> lg_debug_line := x4 \<rparr>) = drv_ok s"
  "drv_ok (s\<lparr> lg_debug_verdict := x5 \<rparr>) = drv_ok s" "drv_ok (s\<lparr> lg_debug_ready := x5 \<rparr>) = drv_ok s"
  "drv_ok (s\<lparr> lg_dma := y2 \<rparr>) = drv_ok s" "drv_ok (s\<lparr> lg_isr := y3 \<rparr>) = drv_ok s"
  "drv_ok (s\<lparr> lg_tick := x7 \<rparr>) = drv_ok s" "drv_ok (s\<lparr> lg_calls := z1 \<rparr>) = drv_ok s"
  "drv_ok (s\<lparr> lg_polls := z2 \<rparr>) = drv_ok s" "drv_ok (s\<lparr> lg_lags := z3 \<rparr>) = drv_ok s"
  "drv_ok (s\<lparr> lg_out := z4 \<rparr>) = drv_ok s" "drv_ok (lg_pass n s) = drv_ok s" "drv_ok (lg_emit e s) = drv_ok s"
  "drv_ok (lg_upd_stream i f s) = drv_ok s" "drv_ok (lg_write_CR i v s) = drv_ok s"
  "drv_ok (lg_switch_off i s) = drv_ok s" "drv_ok (lg_clear_flags r v s) = drv_ok s" "drv_ok (lg_raise r v s) = drv_ok s"
  by (simp_all add: drv_ok_def lg_clocked_def lg_timed_def strip_set_up_def lg_pass_def lg_emit_def
      lg_upd_stream_def lg_write_CR_def lg_switch_off_def lg_clear_flags_def lg_raise_def split: list.split)

lemma clock_pins [simp]:
  "HAL_RCC_GetPCLK1Freq (HAL_GPIO_WritePin p l v b) = HAL_RCC_GetPCLK1Freq b"
  "apb1_divided (HAL_GPIO_WritePin p l v b) = apb1_divided b"
  "HAL_RCC_GetPCLK1Freq (HAL_GPIO_Init p l m b) = HAL_RCC_GetPCLK1Freq b"
  "apb1_divided (HAL_GPIO_Init p l m b) = apb1_divided b"
  by (simp_all add: HAL_RCC_GetPCLK1Freq_def apb1_divided_def HAL_GPIO_WritePin_def HAL_GPIO_Init_def)

lemma drv_ok_write [simp]: "drv_ok (lg_write p v s) = drv_ok s"
  by (simp add: drv_ok_def lg_clocked_def lg_timed_def strip_set_up_def lg_write_def lg_on_board_def)

lemma ready_write [simp]: "lg_channel_ready (lg_write p v s) = lg_channel_ready s"
  by (simp add: lg_write_def lg_on_board_def)

lemma apply_legacy_drv:
  "drv_ok (apply_channel_state_legacy c on s) = drv_ok s"
  "lg_channel_ready (apply_channel_state_legacy c on s) = lg_channel_ready s"
  by (simp_all add: apply_channel_state_legacy_def Let_def)

lemma process_line_legacy_drv:
  "drv_ok (snd (process_rs485_line_legacy l n s)) = drv_ok s"
  "lg_channel_ready (snd (process_rs485_line_legacy l n s)) = lg_channel_ready s"
  by (simp_all add: process_rs485_line_legacy_def Let_def apply_legacy_drv split: option.split)

lemma process_byte_legacy_drv:
  "drv_ok (process_rs485_byte_legacy b s) = drv_ok s"
  "lg_channel_ready (process_rs485_byte_legacy b s) = lg_channel_ready s"
  by (simp_all add: process_rs485_byte_legacy_def Let_def split_def process_line_legacy_drv)

lemma lg_irq_inv: "lg_inv my rdy s \<Longrightarrow> lg_inv my rdy (lg_irq irq s)"
  using lg_irq_ok [of my s irq]
  by (auto simp: lg_inv_def lg_irq_def HAL_UART_RxCpltCallback_legacy_def HAL_UART_ErrorCallback_legacy_def Let_def
      process_byte_legacy_drv split: slave_irq.split)

lemma lg_inv_upd [simp]:
  "lg_inv my rdy (s\<lparr> lg_rx_armed := b \<rparr>) = lg_inv my rdy s" "lg_inv my rdy (lg_pass n s) = lg_inv my rdy s"
  "lg_inv my rdy (s\<lparr> lg_calls := c \<rparr>) = lg_inv my rdy s" "lg_inv my rdy (s\<lparr> lg_polls := pp \<rparr>) = lg_inv my rdy s"
  "lg_inv my rdy (s\<lparr> lg_lags := ll \<rparr>) = lg_inv my rdy s" "lg_inv my rdy (s\<lparr> lg_debug_ready := d \<rparr>) = lg_inv my rdy s"
  "lg_inv my rdy (lg_upd_stream i f s) = lg_inv my rdy s" "lg_inv my rdy (lg_write_CR i v s) = lg_inv my rdy s"
  "lg_inv my rdy (lg_switch_off i s) = lg_inv my rdy s" "lg_inv my rdy (lg_clear_flags r v s) = lg_inv my rdy s"
  "lg_inv my rdy (lg_raise r v s) = lg_inv my rdy s"
  by (simp_all add: lg_inv_def lg_switch_off_def lg_write_CR_def split: list.split)
    (simp_all add: lg_pass_def lg_upd_stream_def lg_clear_flags_def lg_raise_def)

lemma lg_wait_events_inv: "lg_inv my rdy s \<Longrightarrow> lg_inv my rdy (lg_wait_events evs s)"
  unfolding lg_wait_events_def by (induction evs arbitrary: s) (auto simp: lg_irq_inv)

lemma lg_next_call_inv: "lg_inv my rdy (snd (lg_next_call s)) = lg_inv my rdy s"
  by (simp add: lg_next_call_def split: list.split)

lemma lg_osDelay_inv: "lg_inv my rdy s \<Longrightarrow> lg_inv my rdy (lg_osDelay n s)"
  by (simp add: lg_osDelay_def Let_def split_def lg_wait_events_inv lg_next_call_inv)

lemma lg_HAL_Delay_inv: "lg_inv my rdy s \<Longrightarrow> lg_inv my rdy (lg_HAL_Delay n s)"
  by (simp add: lg_HAL_Delay_def lg_osDelay_inv)

lemma lg_window_inv: "lg_inv my rdy s \<Longrightarrow> lg_inv my rdy (lg_window s)"
  by (simp add: lg_window_def Let_def split_def lg_wait_events_inv lg_next_call_inv)

lemma lg_emit_inv: "lg_inv my rdy s \<Longrightarrow> lg_effect_ok my e \<Longrightarrow> lg_inv my rdy (lg_emit e s)"
  using lg_emit_ok by (auto simp: lg_inv_def) (simp add: lg_emit_def)

lemma lg_transmit_inv:
  assumes "lg_inv my rdy s" "u \<noteq> USART1 \<or> (\<exists>c on. own_channel my c \<and> bytes = ack_frame_legacy my c on)"
  shows "lg_inv my rdy (lg_transmit u bytes timeout s)"
  using assms unfolding lg_transmit_def Let_def split_def
  by (intro lg_wait_events_inv lg_emit_inv) (simp_all add: lg_next_call_inv lg_effect_ok_def)

lemma lg_print_inv: "lg_inv my rdy s \<Longrightarrow> lg_inv my rdy (lg_print bytes s)"
  by (simp add: lg_print_def lg_transmit_inv)

subsection \<open>One frame\<close>

lemma drv_ok_upd_tim:
  assumes "\<And>t. lt_ARR (f t) = lt_ARR t \<and> lt_CCMR1 (f t) = lt_CCMR1 t \<and> lt_CCMR2 (f t) = lt_CCMR2 t \<and> lt_CCER (f t) = lt_CCER t"
  shows "drv_ok (lg_upd_tim i f s) = drv_ok s"
proof -
  have "strip_set_up c (lg_upd_tim i f s) = strip_set_up c s" for c
    using assms by (simp add: strip_set_up_def lg_upd_tim_def lt_get_ccmr_def)
  then show ?thesis
    by (simp add: drv_ok_def) (simp add: lg_upd_tim_def lg_clocked_def lg_timed_def)
qed

lemma lg_inv_upd_tim:
  assumes "\<And>t. lt_ARR (f t) = lt_ARR t \<and> lt_CCMR1 (f t) = lt_CCMR1 t \<and> lt_CCMR2 (f t) = lt_CCMR2 t \<and> lt_CCER (f t) = lt_CCER t"
  shows "lg_inv my rdy (lg_upd_tim i f s) = lg_inv my rdy s"
  using drv_ok_upd_tim [OF assms] by (simp add: lg_inv_def) (simp add: lg_upd_tim_def)

lemma show_start_inv: "lg_inv my rdy s \<Longrightarrow> lg_inv my rdy (show_start_legacy hw n s)"
  by (simp add: show_start_legacy_def Let_def lg_inv_upd_tim lt_write_EGR_def lt_set_ccr_def)

lemma show_stop_inv: "lg_inv my rdy s \<Longrightarrow> lg_inv my rdy (show_stop_legacy hw s)"
  by (simp add: show_stop_legacy_def Let_def lg_inv_upd_tim lt_write_EGR_def lt_set_ccr_def)

lemma lg_between_looks_inv: "lg_inv my rdy s \<Longrightarrow> lg_inv my rdy (lg_between_looks p s)"
proof -
  have "lg_inv my rdy t \<Longrightarrow> lg_inv my rdy (fold lg_irq irqs t)" for irqs t
    by (induction irqs arbitrary: t) (simp_all add: lg_irq_inv)
  then show "lg_inv my rdy s \<Longrightarrow> lg_inv my rdy (lg_between_looks p s)" by (simp add: lg_between_looks_def)
qed

lemma show_wait_inv: "lg_inv my rdy s \<Longrightarrow> lg_inv my rdy (snd (show_wait_legacy hw start polls s))"
proof (induction hw start polls s rule: show_wait_legacy.induct)
  case (1 hw start polls s)
  obtain p rest where n: "next_poll polls = (p, rest)" by fastforce
  show ?case
    using 1 n by (subst show_wait_legacy.simps) (simp add: Let_def lg_between_looks_inv)
qed

text \<open>Only the task puts anything out.\<close>

lemma apply_legacy_out: "lg_out (apply_channel_state_legacy c on s) = lg_out s"
  by (simp add: apply_channel_state_legacy_def Let_def lg_write_def lg_on_board_def)

lemma lg_irq_out [simp]: "lg_out (lg_irq irq s) = lg_out s"
  by (simp add: lg_irq_def HAL_UART_RxCpltCallback_legacy_def HAL_UART_ErrorCallback_legacy_def Let_def
      process_rs485_byte_legacy_def process_rs485_line_legacy_def split_def apply_legacy_out
      split: slave_irq.split option.split)

lemma lg_wait_events_out [simp]: "lg_out (lg_wait_events evs s) = lg_out s"
  unfolding lg_wait_events_def by (induction evs arbitrary: s) (auto simp: lg_pass_def)

lemma lg_HAL_Delay_out [simp]: "lg_out (lg_HAL_Delay n s) = lg_out s"
  by (simp add: lg_HAL_Delay_def lg_osDelay_def Let_def split_def lg_pass_def lg_next_call_def split: list.split)

lemma show_wait_out [simp]: "lg_out (snd (show_wait_legacy hw start polls s)) = lg_out s"
proof (induction hw start polls s rule: show_wait_legacy.induct)
  case (1 hw start polls s)
  have f: "lg_out (fold lg_irq irqs t) = lg_out t" for irqs t by (induction irqs arbitrary: t) simp_all
  obtain p rest where n: "next_poll polls = (p, rest)" by fastforce
  show ?case
    using 1 n by (subst show_wait_legacy.simps)
      (simp add: Let_def lg_between_looks_def f lg_pass_def lg_raise_def)
qed

lemma show_start_wire:
  assumes "drv_ok s" "lg_channel_ready s ! strip_index c \<noteq> 0" "n \<noteq> 0"
    and "ls_CR (lg_dma s (lh_stream (legacy_hw c))) AND DMA_SxCR_EN = 0"
  shows "lg_on_wire (legacy_hw c) (show_start_legacy (legacy_hw c) n s) = take (unat n) (lg_pwm_data s)"
proof -
  have t: "lg_pwm_period_ticks s = 105" "strip_set_up c s" "length (lg_pwm_data s) = 7440"
    using assms(1,2) by (auto simp: drv_ok_def lg_timed_def)
  obtain d ds where d: "lg_pwm_data s = d # ds" using t(3) by (cases "lg_pwm_data s") auto
  have n: "unat n = Suc (unat (n - 1))"
    using assms(3) by (simp add: unat_minus_one unat_gt_0)
  have uu: "ucast (ucast d :: u32) = d"
    by (rule bit_word_eqI) (auto simp: bit_simps dest: bit_imp_le_length)
  have cen: "(x OR TIM_CR1_CEN) AND TIM_CR1_CEN \<noteq> 0" for x by (simp add: reg_bits bit.conj_disj_distrib2)
  show ?thesis
    unfolding n d take_Suc_Cons
    using t(1,2) assms(4) d cen uu
    by (cases c)
      (simp_all add: lg_on_wire_def show_start_legacy_def Let_def lg_upd_tim_def lg_upd_stream_def
        lg_clear_flags_def lg_write_CR_def lt_write_EGR_def lt_set_ccr_def lt_get_ccmr_def strip_set_up_def
        legacy_hw_def reg_bits)
qed

lemma switch_off_fields [simp]:
  "lg_pwm_data (lg_switch_off i s) = lg_pwm_data s" "lg_channel_ready (lg_switch_off i s) = lg_channel_ready s"
  "lg_out (lg_switch_off i s) = lg_out s"
  by (simp_all add: lg_switch_off_def lg_write_CR_def lg_upd_stream_def split: list.split)

lemma upd_stream_fields [simp]:
  "lg_pwm_data (lg_upd_stream i f s) = lg_pwm_data s" "lg_channel_ready (lg_upd_stream i f s) = lg_channel_ready s"
  "lg_out (lg_upd_stream i f s) = lg_out s"
  by (simp_all add: lg_upd_stream_def)

lemma lg_inv_pwm: "lg_inv my rdy s \<Longrightarrow> length b = 7440 \<Longrightarrow> lg_inv my rdy (s\<lparr> lg_pwm_data := b \<rparr>)"
  by (auto simp: lg_inv_def drv_ok_def lg_clocked_def lg_timed_def strip_set_up_def)

lemma show_start_stop_out [simp]:
  "lg_out (show_start_legacy hw n s) = lg_out s" "lg_out (show_stop_legacy hw s) = lg_out s"
  by (simp_all add: show_start_legacy_def show_stop_legacy_def Let_def lg_upd_tim_def lg_upd_stream_def
      lg_write_CR_def lg_clear_flags_def split: list.split)

lemma strip_index_of: "channel < 2 \<Longrightarrow> strip_index (strip_of channel) = unat channel"
proof -
  assume "channel < 2"
  then have "channel = 0 \<or> channel = 1" by (auto simp: word_less_nat_alt word_unat_eq_iff)
  then show ?thesis by (auto simp: strip_of_def strip_index_def)
qed

text \<open>Encoding fills the front of the buffer with the slots of the row.\<close>

lemma row_encoded:
  fixes channel :: u32 and count :: u16
  assumes "drv_ok s" "lg_channel_ready s ! unat channel \<noteq> 0" "channel < 2" "0 < count" "count \<le> 300"
  defines "row \<equiv> take (unat count) (lg_pixel_grb s ! unat channel)"
    and "k \<equiv> ucast count * word_of_nat WS2812_BITS_PER_PIXEL + WS2812_RESET_SLOT_COUNT"
  obtains b where "pad_low k (encode_row s row (lg_pwm_data s, 0)) = (b, k)" "length b = 7440"
    "take (unat k) b = legacy_slots row" "length row = unat count" "k \<noteq> 0"
proof -
  have two: "unat channel = 0 \<or> unat channel = 1" using assms(3) by (auto simp: word_less_nat_alt)
  have cnt: "unat count \<le> 300" using assms(5) by (simp add: word_le_nat_alt)
  obtain r0 r1 where "lg_pixel_grb s = [r0, r1]" "length r0 = 300" "length r1 = 300"
    using assms(1) by (auto simp: drv_ok_def map_eq_Cons_conv)
  then have row: "length row = unat count" using two cnt by (auto simp: row_def)
  have timed: "lg_timed s" and buf: "length (lg_pwm_data s) = 7440"
    using assms(1,2) strip_index_of [OF assms(3)] unfolding drv_ok_def by metis+
  have kw: "k = word_of_nat (length row) * word_of_nat WS2812_BITS_PER_PIXEL + WS2812_RESET_SLOT_COUNT"
    by (simp add: k_def row of_nat_unat)
  let ?b = "put_at 0 (legacy_slots row) (lg_pwm_data s)"
  have enc: "pad_low k (encode_row s row (lg_pwm_data s, 0)) = (?b, k)" "unat k = length row * 24 + 240"
    using encode_whole_row [OF timed _ buf, of row] row cnt by (simp_all add: kw)
  have "length ?b = 7440" "take (unat k) ?b = legacy_slots row"
    using row cnt buf by (simp_all add: enc(2) put_at_def)
  moreover have "k \<noteq> 0" using enc(2) by auto
  ultimately show thesis using that [OF enc(1)] row by blast
qed

text \<open>A shown row: the frame that goes out, and nothing else does.\<close>

lemma show_spec:
  assumes inv: "lg_inv my rdy s" and arg: "channel < 2" "0 < count" "count \<le> 300" "rdy ! unat channel \<noteq> 0"
    and ret: "neopixel_show_legacy channel count s = Some (st, t)"
  defines "row \<equiv> take (unat count) (lg_pixel_grb s ! unat channel)"
  shows "lg_inv my rdy t \<and> lg_out t = lg_out s @ [LegacyFrame (strip_of channel) (legacy_slots row) st]
    \<and> length row = unat count"
proof -
  let ?hw = "legacy_hw (strip_of channel)" and ?c = "strip_of channel"
  have g: "\<not> channel \<ge> NEOPIXEL_CH_COUNT" "\<not> (count = 0 \<or> count > LEGACY_MAX_PIXEL_COUNT)"
    "\<not> lg_channel_ready s ! unat channel = 0" "drv_ok s" using arg inv by (auto simp: lg_inv_def)
  define k where "k = (ucast count * word_of_nat WS2812_BITS_PER_PIXEL + WS2812_RESET_SLOT_COUNT :: u32)"
  obtain b where b: "pad_low k (encode_row s row (lg_pwm_data s, 0)) = (b, k)" "length b = 7440"
    "take (unat k) b = legacy_slots row" "length row = unat count" "k \<noteq> 0"
    using row_encoded [OF g(4,3) arg(1-3)] unfolding row_def k_def by blast
  let ?off = "lg_switch_off (lh_stream ?hw) (s\<lparr> lg_pwm_data := b \<rparr>)"
  have "neopixel_show_legacy channel count s \<noteq> None" using ret by simp
  then have lag: "ls_lag (lg_dma ?off (lh_stream ?hw)) \<noteq> None"
    using show_returns_iff [OF arg(1-3), of s] g(3) by (simp add: switch_off_pwm)
  define s2 where "s2 = lg_upd_stream (lh_stream ?hw) (\<lambda>x. x\<lparr> ls_lag := Some 0 \<rparr>) ?off"
  define s3 where "s3 = show_start_legacy ?hw k s2"
  define s5 where "s5 = snd (show_wait_legacy ?hw (lg_tick (snd (lg_next_polls s3))) (fst (lg_next_polls s3)) (snd (lg_next_polls s3)))"
  define s6 where "s6 = lg_emit (LegacyFrame ?c (lg_on_wire ?hw s3) st) (show_stop_legacy ?hw s5)"
  have t: "t = (if st = HAL_OK then lg_HAL_Delay 1 s6 else s6)"
    using ret lag
    unfolding neopixel_show_legacy_def if_not_P [OF g(1)] if_not_P [OF g(2)] if_not_P [OF g(3)] Let_def
      row_def [symmetric] k_def [symmetric] b(1) split_def prod.sel lg_switch_off_def [symmetric] en_wait_switch_off
    by (auto simp: s6_def s5_def s3_def s2_def)
  have i2: "lg_inv my rdy s2" using lg_inv_pwm [OF inv b(2)] by (simp add: s2_def)
  then have "drv_ok s2" "lg_channel_ready s2 ! strip_index ?c \<noteq> 0"
    using arg(4) strip_index_of [OF arg(1)] by (auto simp: lg_inv_def)
  moreover have "ls_CR (lg_dma s2 (lh_stream ?hw)) AND DMA_SxCR_EN = 0" using switch_off_CR by (simp add: s2_def)
  ultimately have "lg_on_wire ?hw s3 = take (unat k) (lg_pwm_data s2)"
    unfolding s3_def using b(5) by (intro show_start_wire)
  then have wire: "lg_on_wire ?hw s3 = legacy_slots row" using b(3) by (simp add: s2_def)
  have poll: "lg_inv my rdy (snd (lg_next_polls x)) = lg_inv my rdy x" "lg_out (snd (lg_next_polls x)) = lg_out x" for x
    by (simp_all add: lg_next_polls_def split: list.split)
  have "lg_inv my rdy s6" "lg_out s6 = lg_out s @ [LegacyFrame ?c (legacy_slots row) st]"
    unfolding s6_def
    by (intro lg_emit_inv show_stop_inv) (simp_all add: s5_def s3_def show_wait_inv poll show_start_inv i2
        lg_effect_ok_def, simp add: lg_emit_def wire [unfolded s3_def s2_def] poll s2_def)
  then show ?thesis using b(4) by (simp add: t lg_HAL_Delay_inv)
qed

end
