(* ===== verification/Legacy_Run.thy ===== *)
theory Legacy_Run
  imports Legacy_Show
begin

text \<open>The ON/OFF firmware as a running slave: every turn of its task keeps the invariant, from the state
  main leaves behind.\<close>

subsection \<open>Strips\<close>

lemma fill_row:
  "n \<le> length row \<Longrightarrow> fold (\<lambda>index row. row[index := x]) [0..<n] row = replicate n x @ drop n row"
proof (induction n)
  case (Suc n)
  then have "drop n row = row ! n # drop (Suc n) row" by (simp add: Cons_nth_drop_Suc)
  then show ?case using Suc by (simp add: list_update_append replicate_app_Cons_same)
qed simp

lemma fill_spec:
  assumes "lg_inv my rdy s" "channel < 2" "0 < count" "count \<le> 300"
  obtains t where "neopixel_fill channel count red green blue s = (HAL_OK, t)" "lg_inv my rdy t" "lg_out t = lg_out s"
    "take (unat count) (lg_pixel_grb t ! unat channel) = replicate (unat count) (green, red, blue)"
proof -
  let ?row = "lg_pixel_grb s ! unat channel"
  let ?t = "s\<lparr> lg_pixel_grb := (lg_pixel_grb s)[unat channel :=
      fold (\<lambda>index row. row[index := (green, red, blue)]) [0..<unat count] ?row] \<rparr>"
  have drv: "drv_ok s" using assms(1) by (simp add: lg_inv_def)
  have two: "unat channel = 0 \<or> unat channel = 1" using assms(2) by (auto simp: word_less_nat_alt)
  have cnt: "unat count \<le> 300" using assms(4) by (simp add: word_le_nat_alt)
  obtain r0 r1 where r: "lg_pixel_grb s = [r0, r1]" "length r0 = 300" "length r1 = 300"
    using drv by (auto simp: drv_ok_def map_eq_Cons_conv)
  have row: "length ?row = 300" using two r by auto
  have f: "fold (\<lambda>index row. row[index := (green, red, blue)]) [0..<unat count] ?row
      = replicate (unat count) (green, red, blue) @ drop (unat count) ?row"
    using fill_row [of "unat count" ?row] cnt row by simp
  have len: "map length (lg_pixel_grb ?t) = [300, 300]"
    using two r cnt unfolding f by auto
  have "neopixel_fill channel count red green blue s = (HAL_OK, ?t)"
    using assms(2-4) by (auto simp: neopixel_fill_def)
  moreover have "lg_inv my rdy ?t"
    using assms(1) len by (auto simp: lg_inv_def drv_ok_def lg_clocked_def lg_timed_def strip_set_up_def)
  moreover have "take (unat count) (lg_pixel_grb ?t ! unat channel) = replicate (unat count) (green, red, blue)"
    unfolding f using two r cnt by auto
  ultimately show thesis using that by simp
qed

lemma solid_spec:
  assumes "lg_inv my rdy s" "channel < 2" "0 < count" "count \<le> 300" "rdy ! unat channel \<noteq> 0"
    and "neopixel_show_solid_legacy channel count red green blue s = Some (st, t)"
  shows "lg_inv my rdy t"
    "lg_out t = lg_out s @ [LegacyFrame (strip_of channel) (legacy_slots (replicate (unat count) (green, red, blue))) st]"
proof -
  obtain u where u: "neopixel_fill channel count red green blue s = (HAL_OK, u)" "lg_inv my rdy u"
    "lg_out u = lg_out s" "take (unat count) (lg_pixel_grb u ! unat channel) = replicate (unat count) (green, red, blue)"
    using fill_spec [OF assms(1-4)] by blast
  then have "neopixel_show_legacy channel count u = Some (st, t)"
    using assms(6) by (simp add: neopixel_show_solid_legacy_def)
  then show "lg_inv my rdy t"
    "lg_out t = lg_out s @ [LegacyFrame (strip_of channel) (legacy_slots (replicate (unat count) (green, red, blue))) st]"
    using show_spec [OF u(2) assms(2-5)] u(3,4) by simp_all
qed

definition legacy_colour :: "u8 \<Rightarrow> u8 \<times> u8 \<times> u8" where
  "legacy_colour alarm = (if alarm \<noteq> 0 then (0, 255, 0) else (255, 0, 0))"

lemma lg_inv_parts:
  assumes "lg_inv my rdy s"
  shows "lg_id s = my" "buildable my" "buildable (lg_id s)" "length rdy = 2"
  using assms by (auto simp: lg_inv_def lg_ok_def legacy_wf_def drv_ok_def)

lemma strip_show_legacy_spec:
  assumes "lg_inv my rdy s" "index < 2" "rdy ! index \<noteq> 0" "strip_show_legacy index alarm s = Some t"
  shows "lg_inv my rdy t \<and> (\<exists>st. lg_out t = lg_out s
    @ [LegacyFrame (strip_of (word_of_nat index)) (legacy_slots (replicate 9 (legacy_colour alarm))) st])"
proof -
  have b: "buildable (lg_id s)" using lg_inv_parts(3) [OF assms(1)] .
  have i: "strip_index (co_strip (channel_output_legacy (lg_id s) ! index)) = index"
    using table_legacy(6,7) [OF b] assms(2) by (auto simp: less_2_cases_iff)
  have ch: "(word_of_nat index :: u32) < 2" "unat (word_of_nat index :: u32) = index"
    using assms(2) by (auto simp: less_2_cases_iff)
  obtain st red green blue where
    r: "neopixel_show_solid_legacy (word_of_nat index) 9 red green blue s = Some (st, t)"
      "(green, red, blue) = legacy_colour alarm"
    using assms(4) i by (auto simp: strip_show_legacy_def Let_def legacy_colour_def split: if_splits)
  have "rdy ! unat (word_of_nat index :: u32) \<noteq> 0" using ch(2) assms(3) by simp
  from solid_spec [OF assms(1) ch(1) _ _ this r(1)] r(2) show ?thesis by auto
qed

lemma lg_inv_fields [simp]:
  "lg_inv my rdy s \<Longrightarrow> lg_inv my rdy (s\<lparr> lg_ack_pending := 0 \<rparr>)"
  "lg_inv my rdy s \<Longrightarrow> length q = 2 \<Longrightarrow> lg_inv my rdy (s\<lparr> lg_strip_pending := q \<rparr>)"
  "lg_inv my rdy s \<Longrightarrow> lg_inv my rdy (s\<lparr> lg_line_length := 0, lg_line_overflow := 0 \<rparr>)"
  by (simp_all add: lg_inv_def lg_ok_def)

text \<open>A pending strip is redrawn in the colour of the state recorded for its channel.\<close>

lemma service_one_legacy_spec:
  assumes "lg_inv my rdy s" "index < 2" "rdy ! index \<noteq> 0" "neopixel_service_one_legacy index s = Some t"
  shows "lg_inv my rdy t \<and> (if lg_strip_pending s ! index = 0 then t = s
    else \<exists>st. lg_out t = lg_out s @ [LegacyFrame (strip_of (word_of_nat index))
           (legacy_slots (replicate 9 (legacy_colour (lg_channel_on s ! index)))) st])"
proof (cases "lg_strip_pending s ! index = 0")
  case True
  then show ?thesis using assms by (simp add: neopixel_service_one_legacy_def)
next
  case False
  have wf: "length (lg_strip_pending s) = 2" "lg_strip_alarm_on s = lg_channel_on s"
    using assms(1) by (simp_all add: lg_inv_def lg_ok_def legacy_wf_def)
  let ?s1 = "s\<lparr> lg_strip_pending := (lg_strip_pending s)[index := 0] \<rparr>"
  have inv1: "lg_inv my rdy ?s1" using assms(1) wf by simp
  have drawn: "strip_show_legacy index (lg_channel_on s ! index) ?s1 = Some t"
    using assms(4) False wf(2) by (simp add: neopixel_service_one_legacy_def)
  have out: "lg_out ?s1 = lg_out s" by simp
  show ?thesis
    unfolding if_not_P [OF False]
    using strip_show_legacy_spec [OF inv1 assms(2,3) drawn] unfolding out .
qed

lemma opt_fold_inv:
  assumes "\<And>x s t. x \<in> set xs \<Longrightarrow> P s \<Longrightarrow> f x s = Some t \<Longrightarrow> P t" "P s" "opt_fold f xs s = Some t"
  shows "P t"
  using assms
proof (induction xs arbitrary: s)
  case (Cons x xs)
  from Cons.prems(3) obtain u where "f x s = Some u" "opt_fold f xs u = Some t"
    by (auto simp: bind_eq_Some_conv)
  with Cons show ?case by (metis list.set_intros)
qed simp

lemma service_legacy_inv:
  assumes "lg_inv my [1, 1] s" "neopixel_service_legacy s = Some t"
  shows "lg_inv my [1, 1] t"
proof -
  have "buildable (lg_id s)" using lg_inv_parts(3) [OF assms(1)] .
  then have "opt_fold neopixel_service_one_legacy [0..<2] s = Some t"
    using assms(2) by (simp add: neopixel_service_legacy_def)
  then show ?thesis
  proof (rule opt_fold_inv [rotated 2, where P = "lg_inv my [1, 1]"])
    fix x u v assume "x \<in> set [0..<2]" "lg_inv my [1, 1] u" "neopixel_service_one_legacy x u = Some v"
    then show "lg_inv my [1, 1] v"
      using service_one_legacy_spec [of my "[1, 1]" u x v] by (auto simp: less_2_cases_iff)
  qed (use assms(1) in simp)
qed

subsection \<open>The other services\<close>

lemma ack_service_legacy_inv: "lg_inv my rdy s \<Longrightarrow> lg_inv my rdy (ack_service_legacy s)"
proof -
  assume i: "lg_inv my rdy s"
  have "lg_inv my rdy (rs485_send_ack_legacy (lg_ack_channel s) (lg_ack_turn_on s) s)" if "lg_ack_pending s \<noteq> 0"
    unfolding rs485_send_ack_legacy_def
  proof (rule lg_transmit_inv [OF i])
    have "own_channel my (lg_ack_channel s)" "lg_id s = my"
      using i that by (auto simp: lg_inv_def lg_ok_def legacy_wf_def)
    then show "USART1 \<noteq> USART1 \<or> (\<exists>c on. own_channel my c
        \<and> ack_frame_legacy (lg_id s) (lg_ack_channel s) (lg_ack_turn_on s) = ack_frame_legacy my c on)" by blast
  qed
  then show ?thesis using i by (simp add: ack_service_legacy_def)
qed

lemma debug_service_legacy_inv: "lg_inv my rdy s \<Longrightarrow> lg_inv my rdy (debug_service_legacy s)"
  by (simp add: debug_service_legacy_def Let_def lg_print_inv)

lemma idle_service_legacy_inv: "lg_inv my rdy s \<Longrightarrow> lg_inv my rdy (idle_service_legacy s)"
  by (simp add: idle_service_legacy_def)

lemma legacy_iter_inv:
  assumes "lg_inv my [1, 1] s" "StartDefaultTask_iter s = Some t"
  shows "lg_inv my [1, 1] t"
proof -
  obtain u where "neopixel_service_legacy (lg_window (debug_service_legacy (lg_window (ack_service_legacy s)))) = Some u"
    and t: "t = lg_osDelay 10 (lg_window (idle_service_legacy (lg_window u)))"
    using assms(2) by (auto simp: StartDefaultTask_iter_def Let_def bind_eq_Some_conv)
  then have "lg_inv my [1, 1] u"
    using service_legacy_inv assms(1) ack_service_legacy_inv debug_service_legacy_inv lg_window_inv by blast
  then show ?thesis
    unfolding t by (intro lg_osDelay_inv lg_window_inv idle_service_legacy_inv)
qed

subsection \<open>Boot\<close>

lemma colours_commute:
  "lg_clear_flags r v (s\<lparr> lg_pixel_grb := g, lg_channel_ready := q \<rparr>)
     = (lg_clear_flags r v s)\<lparr> lg_pixel_grb := g, lg_channel_ready := q \<rparr>"
  "lg_upd_stream i f (s\<lparr> lg_pixel_grb := g, lg_channel_ready := q \<rparr>)
     = (lg_upd_stream i f s)\<lparr> lg_pixel_grb := g, lg_channel_ready := q \<rparr>"
  by (simp_all add: lg_clear_flags_def lg_upd_stream_def)

lemma colours_commute_CR:
  "lg_write_CR i w (s\<lparr> lg_pixel_grb := g, lg_channel_ready := q \<rparr>)
     = (lg_write_CR i w s)\<lparr> lg_pixel_grb := g, lg_channel_ready := q \<rparr>"
  by (simp add: lg_write_CR_def lg_upd_stream_def split: list.split)

lemma stream_keeps_colours [simp]:
  "lg_pixel_grb (lg_clear_flags r v s) = lg_pixel_grb s" "lg_channel_ready (lg_clear_flags r v s) = lg_channel_ready s"
  "lg_pixel_grb (lg_upd_stream i f s) = lg_pixel_grb s" "lg_pixel_grb (lg_write_CR i w s) = lg_pixel_grb s"
  "lg_channel_ready (lg_write_CR i w s) = lg_channel_ready s"
  by (simp_all add: lg_clear_flags_def lg_upd_stream_def lg_write_CR_def split: list.split)

text \<open>Pins and timer after neopixel_init has written them.\<close>

definition init_pins :: "legacy_hw_t \<Rightarrow> legacy \<Rightarrow> legacy" where
  "init_pins hw s = lg_on_board (HAL_GPIO_Init (lh_port hw) [lh_pin hw] (Mode_AF_PP (lh_alternate hw)))
     (s\<lparr> lg_pwm_period_ticks := 105, lg_zero_high_ticks := 29, lg_one_high_ticks := 58 \<rparr>)"

definition init_timer :: "legacy_hw_t \<Rightarrow> legacy \<Rightarrow> legacy" where
  "init_timer hw s = lg_upd_tim (lh_timer hw) (\<lambda>t. lt_write_EGR TIM_EGR_UG (lt_set_ccr (lh_ccr hw) 0
     (lt_set_ccmr (lh_ccmr1 hw) (lh_ccmr_pwm_bits hw)
       (t\<lparr> lt_CR1 := TIM_CR1_ARPE, lt_CR2 := 0, lt_SMCR := 0, lt_DIER := 0, lt_CCER := lh_ccer_enable hw,
          lt_PSC := 0, lt_ARR := ucast (lg_pwm_period_ticks s) - 1 \<rparr>)))) s"

lemma init_pins_ok:
  assumes "lg_ok my s"
  shows "lg_ok my (init_timer (legacy_hw c) (init_pins (legacy_hw c) s))"
proof -
  let ?s2 = "init_pins (legacy_hw c) s"
  have shown: "lg_shows (lg_on_board (HAL_GPIO_Init p [n] (Mode_AF_PP a)) x) q = (if q = (p, n) then None else lg_shows x q)"
    for p n a x q by (cases q) (simp add: lg_shows_def lg_on_board_def drives_def HAL_GPIO_Init_def)
  have "\<forall>p\<in>{(GPIOA, 0), (GPIOB, 5), (GPIOA, 1), (GPIOA, 8), (GPIOA, 5)}. lg_shows ?s2 p = lg_shows s p"
    by (cases c) (auto simp: init_pins_def shown legacy_hw_def)
  moreover have "legacy_wf s" "lg_id s = my" using assms by (simp_all add: lg_ok_def)
  ultimately have "legacy_wf ?s2" "lg_id ?s2 = my"
    by (simp_all add: legacy_wf_def lg_outputs_ok_def) (simp_all add: init_pins_def lg_on_board_def)
  then show ?thesis by (simp add: init_timer_def lg_upd_tim_def lg_ok_def)
qed

lemma init_timer_set_up:
  "strip_set_up d (init_timer (legacy_hw c) (init_pins (legacy_hw c) s)) = (if d = c then True else strip_set_up d s)"
  by (cases c; cases d) (simp_all add: init_timer_def init_pins_def lg_upd_tim_def strip_set_up_def legacy_hw_def
      lg_on_board_def lt_write_EGR_def lt_set_ccr_def lt_set_ccmr_def lt_get_ccmr_def reg_bits)

lemma init_timer_fields [simp]:
  "lg_timed (init_timer hw (init_pins hw s))" "lg_clocked (init_timer hw (init_pins hw s)) = lg_clocked s"
  "lg_channel_ready (init_timer hw (init_pins hw s)) = lg_channel_ready s"
  "lg_pixel_grb (init_timer hw (init_pins hw s)) = lg_pixel_grb s"
  "lg_pwm_data (init_timer hw (init_pins hw s)) = lg_pwm_data s"
  by (simp_all add: init_timer_def init_pins_def lg_timed_def lg_clocked_def lg_upd_tim_def lg_on_board_def)

lemma init_legacy_unfold:
  assumes "channel < 2" "lg_clocked s"
  defines "hw \<equiv> legacy_hw (strip_of channel)"
  shows "snd (neopixel_init_legacy channel s) = lg_HAL_Delay 1 (lg_clear_flags (lh_isr hw) (lh_dma_clear_flags hw)
    (lg_upd_stream (lh_stream hw) (\<lambda>x. x\<lparr> ls_FCR := 0 \<rparr>) (lg_write_CR (lh_stream hw) 0
      ((init_timer hw (init_pins hw s))
         \<lparr> lg_pixel_grb := (lg_pixel_grb s)[unat channel := replicate 300 (0, 0, 0)],
           lg_channel_ready := (lg_channel_ready s)[unat channel := 1] \<rparr>))))"
proof -
  have g: "\<not> channel \<ge> NEOPIXEL_CH_COUNT" using assms(1) by simp
  show ?thesis
    unfolding neopixel_init_legacy_def if_not_P [OF g] Let_def compute_bit_timing_clocked [OF assms(2)]
      hw_def [symmetric] init_pins_def [symmetric] init_timer_def [symmetric]
    by (simp add: colours_commute colours_commute_CR)
qed

lemma init_legacy_inv:
  assumes "lg_inv my rdy s" "channel < 2"
  shows "lg_inv my (rdy[unat channel := 1]) (snd (neopixel_init_legacy channel s))"
proof -
  let ?hw = "legacy_hw (strip_of channel)"
  let ?t = "init_timer ?hw (init_pins ?hw s)"
  let ?u = "?t\<lparr> lg_pixel_grb := (lg_pixel_grb s)[unat channel := replicate 300 (0, 0, 0)],
      lg_channel_ready := (lg_channel_ready s)[unat channel := 1] \<rparr>"
  have s: "lg_ok my s" "drv_ok s" "lg_channel_ready s = rdy" using assms(1) by (simp_all add: lg_inv_def)
  obtain r0 r1 where r: "lg_pixel_grb s = [r0, r1]" "length r0 = 300" "length r1 = 300"
    using s(2) by (auto simp: drv_ok_def map_eq_Cons_conv)
  have two: "channel = 0 \<or> channel = 1" using assms(2) by (auto simp: word_less_nat_alt word_unat_eq_iff)
  have up: "strip_set_up c ?u" if "lg_channel_ready ?u ! strip_index c \<noteq> 0" for c
  proof -
    have "strip_set_up c ?u = strip_set_up c ?t" by (simp add: strip_set_up_def)
    then show ?thesis
      using that s(2) two unfolding init_timer_set_up
      by (cases c) (auto simp: drv_ok_def strip_of_def strip_index_def)
  qed
  have "lg_timed ?u" "lg_clocked ?u"
    using s(2) init_timer_fields(1,2) [of ?hw s] by (simp_all add: lg_timed_def lg_clocked_def drv_ok_def)
  then have "drv_ok ?u" using s(2) r two up by (auto simp: drv_ok_def)
  then have "lg_inv my (rdy[unat channel := 1]) ?u"
    using init_pins_ok [OF s(1)] s(3) by (simp add: lg_inv_def)
  then show ?thesis
    using init_legacy_unfold [OF assms(2), of s] s(2) by (simp add: lg_HAL_Delay_inv drv_ok_def)
qed

text \<open>The state main leaves behind.\<close>

definition legacy_state0 :: "u8 \<Rightarrow> u32 \<Rightarrow> slave_plan \<Rightarrow> nat option list \<Rightarrow> legacy" where
  "legacy_state0 my t plan lags = legacy_memory my t plan lags slave_board0"

lemma channel_hardware_init_legacy_eq:
  assumes "buildable (lg_id s)"
  shows "channel_hardware_init_legacy s = lg_on_board
    (HAL_GPIO_Init GPIOA [8] Mode_Output_PP \<circ> HAL_GPIO_WritePin GPIOA [8] False \<circ>
     HAL_GPIO_Init GPIOA [1] Mode_Output_PP \<circ> HAL_GPIO_WritePin GPIOA [1] False \<circ>
     HAL_GPIO_Init GPIOB [5] Mode_Output_PP \<circ> HAL_GPIO_WritePin GPIOB [5] False \<circ>
     HAL_GPIO_Init GPIOA [0] Mode_Output_PP \<circ> HAL_GPIO_WritePin GPIOA [0] False) s"
proof -
  have "map co_relay (channel_output_legacy (lg_id s)) = [(GPIOA, 0), (GPIOA, 1)]"
    "map co_buzzer (channel_output_legacy (lg_id s)) = [(GPIOB, 5), (GPIOA, 8)]"
    using assms by (auto simp: buildable_def channel_output_legacy_def)
  then obtain a b where "channel_output_legacy (lg_id s) = [a, b]" "co_relay a = (GPIOA, 0)"
    "co_relay b = (GPIOA, 1)" "co_buzzer a = (GPIOB, 5)" "co_buzzer b = (GPIOA, 8)" by auto
  then show ?thesis
    by (simp add: channel_hardware_init_legacy_def Let_def lg_write_def lg_on_board_def)
qed

lemma legacy_main_unfold:
  assumes "buildable my"
  shows "legacy_main e my t plan lags =
    (if \<not> se_osc_ok e then Inl Err_Osc else if \<not> se_clk_ok e then Inl Err_Clock
     else if \<not> se_uart_ok e USART2 then Inl (Err_Uart USART2)
     else if \<not> se_uart_ok e USART1 then Inl (Err_Uart USART1)
     else Inr (se_thread_ok e, legacy_state0 my t plan lags))"
proof -
  have cfg: "uart_cfg (HAL_UART_MspInit_slave u b) = uart_cfg b" "uart_cfg (MX_GPIO_Init_slave b) = uart_cfg b" for u b
    by (simp_all add: HAL_UART_MspInit_slave_def HAL_NVIC_Enable_def HAL_GPIO_Init_def MX_GPIO_Init_slave_def
        HAL_GPIO_WritePin_def split: uart.split)
  have reset: "uart_cfg board_reset = Map.empty" by (simp add: board_reset_def)
  have hw: "channel_hardware_init_legacy (legacy_memory my t plan lags b) = legacy_memory my t plan lags
     ((HAL_GPIO_Init GPIOA [8] Mode_Output_PP \<circ> HAL_GPIO_WritePin GPIOA [8] False \<circ>
     HAL_GPIO_Init GPIOA [1] Mode_Output_PP \<circ> HAL_GPIO_WritePin GPIOA [1] False \<circ>
     HAL_GPIO_Init GPIOB [5] Mode_Output_PP \<circ> HAL_GPIO_WritePin GPIOB [5] False \<circ>
     HAL_GPIO_Init GPIOA [0] Mode_Output_PP \<circ> HAL_GPIO_WritePin GPIOA [0] False) b)" for b
    using channel_hardware_init_legacy_eq [of "legacy_memory my t plan lags b"] assms
    by (simp add: legacy_memory_def lg_on_board_def)
  show ?thesis
    unfolding legacy_main_def hw MX_USART1_UART_Init_slave_def MX_USART2_UART_Init_slave_def
      SystemClock_Config_def HAL_UART_Init_def legacy_state0_def slave_board_config [symmetric]
    by (simp add: cfg reset require_def Error_Handler_def bind_boot_def)
qed

definition legacy_resting :: "u8 \<Rightarrow> legacy \<Rightarrow> bool" where
  "legacy_resting my s \<longleftrightarrow> lg_inv my [0, 0] s \<and> \<not> lg_rx_armed s \<and> lg_channel_on s = [0, 0]"

lemma legacy_state0_resting:
  assumes "buildable my"
  shows "legacy_resting my (legacy_state0 my t plan lags)"
proof -
  let ?s = "legacy_state0 my t plan lags"
  have "lg_outputs_ok ?s"
    by (simp add: lg_outputs_ok_def legacy_state0_def legacy_memory_def lg_shows_def drives_def slave_board0_def)
  then have "legacy_wf ?s"
    using assms by (simp add: legacy_wf_def) (simp add: legacy_state0_def legacy_memory_def)
  moreover have "lg_clocked ?s"
    by (simp add: lg_clocked_def legacy_state0_def legacy_memory_def HAL_RCC_GetPCLK1Freq_def apb1_divided_def
        slave_board0_def clock_tree) (simp add: clk_config_def)
  ultimately show ?thesis
    by (auto simp: legacy_resting_def lg_inv_def lg_ok_def drv_ok_def legacy_state0_def legacy_memory_def
        strip_index_def numeral_2_eq_2 split: neopixel_channel_t.splits)
qed

lemma lg_wait_unarmed: "\<not> lg_rx_armed s \<Longrightarrow> \<exists>n. lg_wait_events evs s = s\<lparr> lg_tick := n \<rparr>"
proof (induction evs arbitrary: s)
  case Nil
  have "s = s\<lparr> lg_tick := lg_tick s \<rparr>" by simp
  then show ?case by (metis lg_wait_events_def fold_simps(1))
next
  case (Cons e evs)
  obtain d irq where e: "e = (d, irq)" by fastforce
  have "lg_wait_events (e # evs) s = lg_wait_events evs (lg_pass d s)"
    using Cons.prems by (simp add: e lg_wait_events_def lg_irq_def lg_pass_def)
  moreover have "\<exists>n. lg_wait_events evs (lg_pass d s) = (lg_pass d s)\<lparr> lg_tick := n \<rparr>"
    using Cons.prems by (intro Cons.IH) (simp add: lg_pass_def)
  ultimately show ?case by (auto simp: lg_pass_def)
qed

lemma delay_unarmed:
  assumes "\<not> lg_rx_armed s"
  shows "\<exists>n c. lg_osDelay k s = s\<lparr> lg_tick := n, lg_calls := c \<rparr>"
proof -
  obtain x c where nc: "lg_next_call s = (x, s\<lparr> lg_calls := c \<rparr>)"
    by (cases "lg_calls s") (auto simp: lg_next_call_def intro: that [of _ "lg_calls s"])
  obtain st evs where x: "x = (st, evs)" by fastforce
  obtain n where n: "lg_wait_events evs (s\<lparr> lg_calls := c \<rparr>) = s\<lparr> lg_calls := c, lg_tick := n \<rparr>"
    using lg_wait_unarmed [of "s\<lparr> lg_calls := c \<rparr>" evs] assms by auto
  have "lg_osDelay k s = s\<lparr> lg_tick := n + word_of_nat (k - sum_list (map fst evs)), lg_calls := c \<rparr>"
    by (simp add: lg_osDelay_def nc x n lg_pass_def)
  then show ?thesis by blast
qed

lemma blink_body_resting:
  assumes "legacy_resting my s"
  shows "legacy_resting my (lg_osDelay SLAVE_ID_BLINK_MSEC (lg_write LD2 False
           (lg_osDelay SLAVE_ID_BLINK_MSEC (lg_write LD2 True s))))"
proof -
  have un: "\<not> lg_rx_armed (lg_write LD2 v t) = (\<not> lg_rx_armed t)" for v t by (simp add: lg_write_def lg_on_board_def)
  obtain n c where 1: "lg_osDelay SLAVE_ID_BLINK_MSEC (lg_write LD2 True s)
      = (lg_write LD2 True s)\<lparr> lg_tick := n, lg_calls := c \<rparr>"
    using delay_unarmed un assms by (metis legacy_resting_def)
  let ?u = "lg_write LD2 False ((lg_write LD2 True s)\<lparr> lg_tick := n, lg_calls := c \<rparr>)"
  have "\<not> lg_rx_armed ?u" using assms by (simp add: legacy_resting_def lg_write_def lg_on_board_def)
  then obtain n' c' where 2: "lg_osDelay SLAVE_ID_BLINK_MSEC ?u = ?u\<lparr> lg_tick := n', lg_calls := c' \<rparr>"
    using delay_unarmed by blast
  have wf: "legacy_wf s" "lg_id s = my" "lg_channel_on s = [0, 0]" "drv_ok s" "lg_channel_ready s = [0, 0]" "\<not> lg_rx_armed s"
    using assms by (simp_all add: legacy_resting_def lg_inv_def lg_ok_def)
  have f: "lg_channel_on ?u = [0, 0]" "lg_id ?u = my" "\<not> lg_rx_armed ?u"
    using wf by (simp_all add: lg_write_def lg_on_board_def)
  have "lg_outputs_ok ?u"
    using wf(1,3) f(1) by (simp add: legacy_wf_def lg_outputs_ok_def)
  then have "legacy_wf ?u"
    using wf(1) by (simp add: legacy_wf_def) (simp add: lg_write_def lg_on_board_def)
  then show ?thesis
    unfolding 1 2 using f wf(4,5) by (simp add: legacy_resting_def lg_inv_def lg_ok_def)
qed

lemma blink_resting:
  assumes "legacy_resting my s"
  shows "legacy_resting my (blink_id_legacy s)"
proof -
  have "legacy_resting my (((\<lambda>s. lg_osDelay SLAVE_ID_BLINK_MSEC (lg_write LD2 False
      (lg_osDelay SLAVE_ID_BLINK_MSEC (lg_write LD2 True s)))) ^^ n) s)" for n
    using assms blink_body_resting by (induction n) simp_all
  then show ?thesis by (simp only: blink_id_legacy_def)
qed

lemma banner_legacy_inv: "lg_inv my rdy s \<Longrightarrow> lg_inv my rdy (banner_legacy s)"
proof -
  have e: "lg_inv my rdy t \<Longrightarrow> lg_inv my rdy (banner_entry_legacy i t)" for i t
    by (simp add: banner_entry_legacy_def Let_def lg_print_digit_def lg_print_inv)
  have "lg_inv my rdy t \<Longrightarrow> lg_inv my rdy (fold banner_entry_legacy xs t)" for xs t
    by (induction xs arbitrary: t) (simp_all add: e)
  then show "lg_inv my rdy s \<Longrightarrow> lg_inv my rdy (banner_legacy s)"
    by (simp add: banner_legacy_def Let_def lg_print_digit_def lg_print_inv)
qed

lemma strip_boot_legacy_inv:
  assumes "lg_inv my rdy s" "index < 2" "strip_boot_one_legacy index s = Some t"
  shows "lg_inv my (rdy[index := 1]) t"
proof -
  have b: "buildable (lg_id s)" using lg_inv_parts(3) [OF assms(1)] .
  have i: "strip_index (co_strip (channel_output_legacy (lg_id s) ! index)) = index"
    using table_legacy(6,7) [OF b] assms(2) by (auto simp: less_2_cases_iff)
  have ch: "(word_of_nat index :: u32) < 2" "unat (word_of_nat index :: u32) = index"
    using assms(2) by (auto simp: less_2_cases_iff)
  have "lg_inv my (rdy[index := 1]) (snd (neopixel_init_legacy (word_of_nat index) s))"
    using init_legacy_inv [OF assms(1) ch(1)] ch(2) by simp
  moreover have "strip_show_legacy index 0 (snd (neopixel_init_legacy (word_of_nat index) s)) = Some t"
    using assms(3) i by (simp add: strip_boot_one_legacy_def Let_def split_def)
  moreover have "rdy[index := 1] ! index \<noteq> 0" using lg_inv_parts(4) [OF assms(1)] assms(2) by simp
  ultimately show ?thesis using strip_show_legacy_spec assms(2) by blast
qed

lemma entry_legacy_inv:
  assumes "legacy_resting my s" "StartDefaultTask_entry s = Some t"
  shows "lg_inv my [1, 1] t"
proof -
  let ?b = "banner_legacy (blink_id_legacy s)"
  have b: "lg_inv my [0, 0] ?b"
    using blink_resting [OF assms(1)] banner_legacy_inv by (simp add: legacy_resting_def)
  have "length (channel_output_legacy (lg_id s)) = 2"
    using assms(1) lg_inv_parts(3) [of my "[0, 0]" s] by (simp add: legacy_resting_def)
  then obtain u where u: "opt_fold strip_boot_one_legacy [0, 1] ?b = Some u"
    and t: "t = (rs485_de_init_legacy u)\<lparr> lg_rx_armed := True \<rparr>"
    using assms(2) by (auto simp: StartDefaultTask_entry_def bind_eq_Some_conv upt_rec)
  then obtain v where "strip_boot_one_legacy 0 ?b = Some v" "strip_boot_one_legacy 1 v = Some u"
    by (auto simp: bind_eq_Some_conv)
  then have "lg_inv my [1, 1] u"
    using strip_boot_legacy_inv [OF b, of 0 v] strip_boot_legacy_inv [of my "[1, 0]" v 1 u] by simp
  then show ?thesis by (simp add: t rs485_de_init_legacy_def)
qed

subsection \<open>The running slave\<close>

text \<open>From the end of its boot on, the task takes turns; between turns interrupts come, and the
  surroundings may change their plans.\<close>

inductive legacy_reachable :: "u8 \<Rightarrow> legacy \<Rightarrow> bool" for my where
  started: "legacy_main e my t plan lags = Inr (True, s0) \<Longrightarrow> StartDefaultTask_entry s0 = Some s
    \<Longrightarrow> legacy_reachable my s"
| turn: "legacy_reachable my s \<Longrightarrow> StartDefaultTask_iter s = Some s' \<Longrightarrow> legacy_reachable my s'"
| interrupt: "legacy_reachable my s \<Longrightarrow> legacy_reachable my (lg_irq irq (lg_pass n s))"
| outside: "legacy_reachable my s \<Longrightarrow> legacy_reachable my (s\<lparr> lg_calls := c, lg_polls := p, lg_lags := l \<rparr>)"

theorem legacy_reachable_inv:
  assumes "buildable my" "legacy_reachable my s"
  shows "lg_inv my [1, 1] s"
  using assms(2)
proof induction
  case (started e t plan lags s0 s)
  then have "s0 = legacy_state0 my t plan lags"
    unfolding legacy_main_unfold [OF assms(1)] by (simp split: if_splits)
  then show ?case
    using entry_legacy_inv legacy_state0_resting [OF assms(1)] started(2) by blast
next
  case (turn s s')
  then show ?case using legacy_iter_inv by blast
next
  case (interrupt s irq n)
  then show ?case by (simp add: lg_irq_inv)
next
  case (outside s l p c)
  have "s\<lparr> lg_calls := c, lg_polls := p, lg_lags := l \<rparr> = ((s\<lparr> lg_calls := c \<rparr>)\<lparr> lg_polls := p \<rparr>)\<lparr> lg_lags := l \<rparr>" by simp
  then show ?case using outside by (simp only: lg_inv_upd)
qed

end
