(* ===== verification/Legacy_Prompt.thy ===== *)
theory Legacy_Prompt
  imports Legacy_Run
begin

text \<open>The ON/OFF firmware waits for its DMA streams without a limit. As long as every stream does switch
  off, everything the task does returns.\<close>

definition lg_prompt :: "legacy \<Rightarrow> bool" where
  "lg_prompt s \<longleftrightarrow> (\<forall>i. ls_lag (lg_dma s i) \<noteq> None) \<and> None \<notin> set (lg_lags s)"

lemma lg_prompt_cong: "lg_dma t = lg_dma s \<Longrightarrow> lg_lags t = lg_lags s \<Longrightarrow> lg_prompt t = lg_prompt s"
  by (simp add: lg_prompt_def)

subsection \<open>What does not touch the streams\<close>

lemma apply_legacy_dma: "lg_dma (apply_channel_state_legacy c on s) = lg_dma s"
  "lg_lags (apply_channel_state_legacy c on s) = lg_lags s"
  by (simp_all add: apply_channel_state_legacy_def Let_def lg_write_def lg_on_board_def)

lemma lg_irq_dma [simp]: "lg_dma (lg_irq irq s) = lg_dma s" "lg_lags (lg_irq irq s) = lg_lags s"
  by (simp_all add: lg_irq_def HAL_UART_RxCpltCallback_legacy_def HAL_UART_ErrorCallback_legacy_def Let_def
      process_rs485_byte_legacy_def process_rs485_line_legacy_def split_def apply_legacy_dma
      split: slave_irq.split option.split)

lemma lg_wait_events_dma [simp]: "lg_dma (lg_wait_events evs s) = lg_dma s" "lg_lags (lg_wait_events evs s) = lg_lags s"
  unfolding lg_wait_events_def by (induction evs arbitrary: s) (auto simp: lg_pass_def)

lemma lg_next_call_dma [simp]: "lg_dma (snd (lg_next_call s)) = lg_dma s" "lg_lags (snd (lg_next_call s)) = lg_lags s"
  by (simp_all add: lg_next_call_def split: list.split)

lemma lg_blocking_dma [simp]:
  "lg_dma (lg_osDelay n s) = lg_dma s" "lg_lags (lg_osDelay n s) = lg_lags s"
  "lg_dma (lg_HAL_Delay n s) = lg_dma s" "lg_lags (lg_HAL_Delay n s) = lg_lags s"
  "lg_dma (lg_window s) = lg_dma s" "lg_lags (lg_window s) = lg_lags s"
  "lg_dma (lg_transmit u b k s) = lg_dma s" "lg_lags (lg_transmit u b k s) = lg_lags s"
  "lg_dma (lg_print b s) = lg_dma s" "lg_lags (lg_print b s) = lg_lags s"
  by (simp_all add: lg_osDelay_def lg_HAL_Delay_def lg_window_def lg_transmit_def lg_print_def Let_def split_def)
    (simp_all add: lg_pass_def lg_emit_def)

lemma fold_irq_dma [simp]: "lg_dma (fold lg_irq irqs t) = lg_dma t" "lg_lags (fold lg_irq irqs t) = lg_lags t"
  by (induction irqs arbitrary: t) simp_all

lemma show_wait_dma_lags:
  "lg_dma (snd (show_wait_legacy hw start polls s)) = lg_dma s
   \<and> lg_lags (snd (show_wait_legacy hw start polls s)) = lg_lags s"
proof (induction hw start polls s rule: show_wait_legacy.induct)
  case (1 hw start polls s)
  obtain p rest where n: "next_poll polls = (p, rest)" by fastforce
  show ?case
    using 1 n by (subst (1 2) show_wait_legacy.simps) (simp add: Let_def lg_between_looks_def lg_pass_def lg_raise_def)
qed

lemmas show_wait_dma [simp] = show_wait_dma_lags [THEN conjunct1] show_wait_dma_lags [THEN conjunct2]

subsection \<open>Streams that switch off\<close>

lemma prompt_write_CR: "lg_prompt s \<Longrightarrow> lg_prompt (lg_write_CR i v s)"
  by (cases "lg_lags s"; cases "hd (lg_lags s)") (auto simp: lg_prompt_def lg_write_CR_def lg_upd_stream_def)

lemma prompt_upd_stream:
  "lg_prompt s \<Longrightarrow> (\<And>x. ls_lag x \<noteq> None \<Longrightarrow> ls_lag (f x) \<noteq> None) \<Longrightarrow> lg_prompt (lg_upd_stream i f s)"
  by (simp add: lg_prompt_def lg_upd_stream_def)

lemma prompt_start: "lg_prompt s \<Longrightarrow> lg_prompt (show_start_legacy hw n s)"
  unfolding show_start_legacy_def Let_def lg_upd_tim_def lg_clear_flags_def
  by (subst lg_prompt_cong [where s = "lg_write_CR a b c" for a b c], simp, simp,
      intro prompt_write_CR, subst lg_prompt_cong [where s = "lg_write_CR a b c" for a b c], simp, simp,
      intro prompt_write_CR prompt_upd_stream) (auto simp: lg_prompt_def)

lemma prompt_stop: "lg_prompt s \<Longrightarrow> lg_prompt (show_stop_legacy hw s)"
  unfolding show_stop_legacy_def Let_def lg_upd_tim_def lg_clear_flags_def
  by (subst lg_prompt_cong [where s = "lg_write_CR a b c" for a b c], simp, simp, intro prompt_write_CR)
    (simp add: lg_prompt_def)

lemma show_returns:
  assumes "lg_prompt s" "channel < 2" "0 < count" "count \<le> 300" "lg_channel_ready s ! unat channel \<noteq> 0"
  shows "\<exists>st t. neopixel_show_legacy channel count s = Some (st, t) \<and> lg_prompt t"
proof -
  have "lg_prompt (lg_switch_off (lh_stream (legacy_hw (strip_of channel))) s)"
    using prompt_write_CR [OF assms(1)] by (simp add: lg_switch_off_def)
  then have "neopixel_show_legacy channel count s \<noteq> None"
    using show_returns_iff [OF assms(2-5)] by (simp add: lg_prompt_def)
  then obtain st t where r: "neopixel_show_legacy channel count s = Some (st, t)" by auto
  have g: "\<not> channel \<ge> NEOPIXEL_CH_COUNT" "\<not> (count = 0 \<or> count > LEGACY_MAX_PIXEL_COUNT)"
    "\<not> lg_channel_ready s ! unat channel = 0" using assms by auto
  have np: "lg_prompt (snd (lg_next_polls x)) = lg_prompt x" for x
    by (simp add: lg_next_polls_def lg_prompt_def split: list.split)
  have sw: "lg_prompt (snd (show_wait_legacy hw k ps x)) = lg_prompt x" for hw k ps x
    by (rule lg_prompt_cong) simp_all
  have de: "lg_prompt (lg_HAL_Delay n x) = lg_prompt x" "lg_prompt (lg_emit e x) = lg_prompt x" for n e x
    by (rule lg_prompt_cong, simp_all add: lg_emit_def)+
  have "lg_prompt (lg_upd_stream i (\<lambda>x. x\<lparr> ls_lag := Some 0 \<rparr>) (lg_switch_off i (s\<lparr> lg_pwm_data := b \<rparr>)))" for i b
    unfolding lg_switch_off_def using assms(1)
    by (intro prompt_upd_stream prompt_write_CR) (simp_all add: lg_prompt_def)
  note pr = prompt_start [OF this]
  have "lg_prompt t"
    using r
    unfolding neopixel_show_legacy_def if_not_P [OF g(1)] if_not_P [OF g(2)] if_not_P [OF g(3)] Let_def
      split_def lg_switch_off_def [symmetric] en_wait_switch_off
    by (auto simp: de intro!: prompt_stop split: if_splits) (simp_all add: sw np pr)
  with r show ?thesis by blast
qed

lemma strip_show_returns:
  assumes "lg_prompt s" "lg_inv my rdy s" "index < 2" "rdy ! index \<noteq> 0"
  shows "\<exists>t. strip_show_legacy index alarm s = Some t \<and> lg_prompt t"
proof -
  have i: "strip_index (co_strip (channel_output_legacy (lg_id s) ! index)) = index"
    using table_legacy(6,7) [OF lg_inv_parts(3) [OF assms(2)]] assms(3) by (auto simp: less_2_cases_iff)
  have ch: "(word_of_nat index :: u32) < 2" "unat (word_of_nat index :: u32) = index"
    using assms(3) by (auto simp: less_2_cases_iff)
  obtain red green blue where
    c: "(if alarm \<noteq> 0 then NEOPIXEL_ALARM_RGB else NEOPIXEL_SAFE_RGB) = (red, green, blue)"
    using prod_cases3 by blast
  obtain u where u: "neopixel_fill (word_of_nat index) 9 red green blue s = (HAL_OK, u)" "lg_inv my rdy u"
    using fill_spec [OF assms(2) ch(1), of 9 red green blue] by auto
  have "lg_dma u = lg_dma s" "lg_lags u = lg_lags s"
    using arg_cong [OF u(1), of "\<lambda>x. lg_dma (snd x)"] arg_cong [OF u(1), of "\<lambda>x. lg_lags (snd x)"]
    by (simp_all add: neopixel_fill_def split: if_splits)
  then have "lg_prompt u" using assms(1) lg_prompt_cong by blast
  moreover have "lg_channel_ready u ! unat (word_of_nat index :: u32) \<noteq> 0"
    using u(2) assms(4) ch(2) by (simp add: lg_inv_def)
  ultimately obtain st t where "neopixel_show_legacy (word_of_nat index) 9 u = Some (st, t)" "lg_prompt t"
    using show_returns [OF _ ch(1), of u 9] by auto
  then show ?thesis by (auto simp: strip_show_legacy_def Let_def i c neopixel_show_solid_legacy_def u(1))
qed

lemma service_one_returns:
  assumes "lg_prompt s" "lg_inv my [1, 1] s" "index < 2"
  shows "\<exists>t. neopixel_service_one_legacy index s = Some t \<and> lg_prompt t \<and> lg_inv my [1, 1] t"
proof -
  let ?s1 = "s\<lparr> lg_strip_pending := (lg_strip_pending s)[index := 0] \<rparr>"
  have r: "[1, 1 :: u8] ! index \<noteq> 0" using assms(3) by (auto simp: less_2_cases_iff)
  have "length (lg_strip_pending s) = 2" using assms(2) by (simp add: lg_inv_def lg_ok_def legacy_wf_def)
  then have "lg_inv my [1, 1] ?s1" "lg_prompt ?s1" using assms(1,2) by (simp_all add: lg_prompt_def)
  then obtain u where "strip_show_legacy index (lg_strip_alarm_on s ! index) ?s1 = Some u" "lg_prompt u"
    using strip_show_returns [of ?s1 my "[1, 1]" index] assms(3) r by blast
  then have "\<exists>t. neopixel_service_one_legacy index s = Some t \<and> lg_prompt t"
    using assms(1) by (simp add: neopixel_service_one_legacy_def)
  then obtain t where "neopixel_service_one_legacy index s = Some t" "lg_prompt t" by blast
  then show ?thesis using service_one_legacy_spec [OF assms(2,3) r] by blast
qed

lemma iter_returns:
  assumes "lg_prompt s" "lg_inv my [1, 1] s"
  shows "\<exists>t. StartDefaultTask_iter s = Some t \<and> lg_prompt t"
proof -
  define u where "u = lg_window (debug_service_legacy (lg_window (ack_service_legacy s)))"
  have iu: "lg_inv my [1, 1] u"
    unfolding u_def by (intro lg_window_inv debug_service_legacy_inv ack_service_legacy_inv assms(2))
  have "lg_prompt u"
    using assms(1) by (simp add: u_def lg_prompt_def debug_service_legacy_def ack_service_legacy_def
        rs485_send_ack_legacy_def Let_def)
  then obtain v where v: "neopixel_service_one_legacy 0 u = Some v" "lg_prompt v" "lg_inv my [1, 1] v"
    using service_one_returns [OF _ iu, of 0] by auto
  moreover obtain w where "neopixel_service_one_legacy 1 v = Some w" "lg_prompt w"
    using service_one_returns [OF v(2,3), of 1] by auto
  moreover have "length (channel_output_legacy (lg_id u)) = 2" using lg_inv_parts(3) [OF iu] by simp
  ultimately have "neopixel_service_legacy u = Some w" "lg_prompt w"
    by (simp_all add: neopixel_service_legacy_def upt_rec)
  then show ?thesis
    by (auto simp: StartDefaultTask_iter_def Let_def u_def [symmetric])
      (simp add: lg_prompt_def idle_service_legacy_def)
qed

text \<open>Without that premise: serving a pending strip gets stuck exactly when its stream does not stop.\<close>

lemma switch_off_dma_cong:
  "lg_dma t = lg_dma s \<Longrightarrow> lg_lags t = lg_lags s \<Longrightarrow> lg_dma (lg_switch_off i t) i = lg_dma (lg_switch_off i s) i"
  by (simp add: lg_switch_off_def lg_write_CR_def lg_upd_stream_def split: list.split)

lemma service_one_stuck_iff:
  assumes "lg_inv my [1, 1] s" "index < 2" "lg_strip_pending s ! index \<noteq> 0"
  defines "i \<equiv> if index = 0 then Stream4 else Stream1"
  shows "neopixel_service_one_legacy index s = None \<longleftrightarrow> ls_lag (lg_dma (lg_switch_off i s) i) = None"
proof -
  let ?s1 = "s\<lparr> lg_strip_pending := (lg_strip_pending s)[index := 0] \<rparr>" and ?ch = "word_of_nat index :: u32"
  have "length (lg_strip_pending s) = 2" using assms(1) by (simp add: lg_inv_def lg_ok_def legacy_wf_def)
  then have inv1: "lg_inv my [1, 1] ?s1" using assms(1) by simp
  have ix: "strip_index (co_strip (channel_output_legacy (lg_id s) ! index)) = index"
    using table_legacy(6,7) [OF lg_inv_parts(3) [OF assms(1)]] assms(2) by (auto simp: less_2_cases_iff)
  have ch: "?ch < 2" "unat ?ch = index" using assms(2) by (auto simp: less_2_cases_iff)
  have st: "lh_stream (legacy_hw (strip_of ?ch)) = i"
    using assms(2) by (auto simp: i_def strip_of_def legacy_hw_def less_2_cases_iff)
  obtain red green blue where
    c: "(if lg_strip_alarm_on s ! index \<noteq> 0 then NEOPIXEL_ALARM_RGB else NEOPIXEL_SAFE_RGB) = (red, green, blue)"
    using prod_cases3 by blast
  obtain u where u: "neopixel_fill ?ch 9 red green blue ?s1 = (HAL_OK, u)" "lg_inv my [1, 1] u"
    using fill_spec [OF inv1 ch(1), of 9 red green blue] by auto
  have dma: "lg_dma u = lg_dma s" "lg_lags u = lg_lags s"
    using arg_cong [OF u(1), of "\<lambda>x. lg_dma (snd x)"] arg_cong [OF u(1), of "\<lambda>x. lg_lags (snd x)"]
    by (simp_all add: neopixel_fill_def split: if_splits)
  have "neopixel_service_one_legacy index s = map_option snd (neopixel_show_legacy ?ch 9 u)"
    using assms(3) ix c by (simp add: neopixel_service_one_legacy_def strip_show_legacy_def Let_def
        neopixel_show_solid_legacy_def u(1))
  moreover have "lg_channel_ready u ! unat ?ch \<noteq> 0"
    using u(2) ch(2) assms(2) by (auto simp: lg_inv_def less_2_cases_iff)
  ultimately show ?thesis
    using show_returns_iff [OF ch(1), of 9 u] switch_off_dma_cong [OF dma, of i] by (simp add: st)
qed

subsection \<open>Boot\<close>

lemma lg_write_dma [simp]: "lg_dma (lg_write p v s) = lg_dma s" "lg_lags (lg_write p v s) = lg_lags s"
  by (simp_all add: lg_write_def lg_on_board_def)

lemma blink_dma: "lg_dma (blink_id_legacy s) = lg_dma s \<and> lg_lags (blink_id_legacy s) = lg_lags s"
proof -
  have "lg_dma (((\<lambda>s. lg_osDelay SLAVE_ID_BLINK_MSEC (lg_write LD2 False
        (lg_osDelay SLAVE_ID_BLINK_MSEC (lg_write LD2 True s)))) ^^ n) s) = lg_dma s
      \<and> lg_lags (((\<lambda>s. lg_osDelay SLAVE_ID_BLINK_MSEC (lg_write LD2 False
        (lg_osDelay SLAVE_ID_BLINK_MSEC (lg_write LD2 True s)))) ^^ n) s) = lg_lags s" for n
    by (induction n) simp_all
  then show ?thesis by (simp only: blink_id_legacy_def)
qed

lemma banner_dma [simp]: "lg_dma (banner_legacy s) = lg_dma s" "lg_lags (banner_legacy s) = lg_lags s"
proof -
  have e: "lg_dma (banner_entry_legacy i t) = lg_dma t" "lg_lags (banner_entry_legacy i t) = lg_lags t" for i t
    by (simp_all add: banner_entry_legacy_def Let_def lg_print_digit_def)
  have "lg_dma (fold banner_entry_legacy xs t) = lg_dma t" "lg_lags (fold banner_entry_legacy xs t) = lg_lags t" for xs t
    by (induction xs arbitrary: t) (simp_all add: e)
  then show "lg_dma (banner_legacy s) = lg_dma s" "lg_lags (banner_legacy s) = lg_lags s"
    by (simp_all add: banner_legacy_def Let_def lg_print_digit_def)
qed

lemma init_prompt: "lg_prompt s \<Longrightarrow> lg_prompt (snd (neopixel_init_legacy channel s))"
proof -
  assume p: "lg_prompt s"
  define s3 where "s3 = (let hw = legacy_hw (strip_of channel); s1 = compute_bit_timing s;
            s2 = lg_on_board (HAL_GPIO_Init (lh_port hw) [lh_pin hw] (Mode_AF_PP (lh_alternate hw))) s1
     in lg_upd_tim (lh_timer hw) (\<lambda>t. lt_write_EGR TIM_EGR_UG (lt_set_ccr (lh_ccr hw) 0
                   (lt_set_ccmr (lh_ccmr1 hw) (lh_ccmr_pwm_bits hw)
                     (t\<lparr> lt_CR1 := TIM_CR1_ARPE, lt_CR2 := 0, lt_SMCR := 0, lt_DIER := 0,
                        lt_CCER := lh_ccer_enable hw, lt_PSC := 0,
                        lt_ARR := ucast (lg_pwm_period_ticks s2) - 1 \<rparr>)))) s2)"
  let ?hw = "legacy_hw (strip_of channel)"
  have "lg_prompt s3"
    using p by (simp add: s3_def lg_prompt_def compute_bit_timing_def lg_upd_tim_def lg_on_board_def Let_def)
  then have q: "lg_prompt (lg_upd_stream (lh_stream ?hw) (\<lambda>x. x\<lparr> ls_FCR := 0 \<rparr>) (lg_write_CR (lh_stream ?hw) 0 s3))"
    by (intro prompt_upd_stream prompt_write_CR) simp_all
  have "lg_prompt (snd (HAL_OK, lg_HAL_Delay 1 (x\<lparr> lg_pixel_grb := g, lg_channel_ready := r \<rparr>))) = lg_prompt x"
    "lg_prompt (lg_clear_flags a b x) = lg_prompt x" for x g r a b
    by (simp_all add: lg_prompt_def lg_clear_flags_def)
  then show ?thesis
    using p q unfolding neopixel_init_legacy_def Let_def s3_def by (simp only: if_distrib [of snd] snd_conv split: if_split) simp
qed

lemma strip_boot_returns:
  assumes "lg_prompt s" "lg_inv my rdy s" "index < 2"
  shows "\<exists>t. strip_boot_one_legacy index s = Some t \<and> lg_prompt t \<and> lg_inv my (rdy[index := 1]) t"
proof -
  have i: "strip_index (co_strip (channel_output_legacy (lg_id s) ! index)) = index"
    using table_legacy(6,7) [OF lg_inv_parts(3) [OF assms(2)]] assms(3) by (auto simp: less_2_cases_iff)
  have ch: "(word_of_nat index :: u32) < 2" "unat (word_of_nat index :: u32) = index"
    using assms(3) by (auto simp: less_2_cases_iff)
  let ?u = "snd (neopixel_init_legacy (word_of_nat index) s)"
  have u: "lg_inv my (rdy[index := 1]) ?u" "lg_prompt ?u"
    using init_legacy_inv [OF assms(2) ch(1)] ch(2) init_prompt [OF assms(1)] by simp_all
  have "rdy[index := 1] ! index \<noteq> 0" using lg_inv_parts(4) [OF assms(2)] assms(3) by simp
  then obtain t where "strip_show_legacy index 0 ?u = Some t" "lg_prompt t"
    using strip_show_returns [OF u(2,1) assms(3)] by blast
  then have "strip_boot_one_legacy index s = Some t" "lg_prompt t"
    using i by (simp_all add: strip_boot_one_legacy_def Let_def split_def)
  then show ?thesis using strip_boot_legacy_inv [OF assms(2,3)] by blast
qed

lemma entry_returns:
  assumes "legacy_resting my s" "lg_prompt s"
  shows "\<exists>t. StartDefaultTask_entry s = Some t \<and> lg_prompt t"
proof -
  let ?b = "banner_legacy (blink_id_legacy s)"
  have b: "lg_inv my [0, 0] ?b"
    using blink_resting [OF assms(1)] banner_legacy_inv by (simp add: legacy_resting_def)
  have "lg_prompt ?b" using assms(2) blink_dma by (simp add: lg_prompt_def)
  then obtain u where u: "strip_boot_one_legacy 0 ?b = Some u" "lg_prompt u" "lg_inv my [1, 0] u"
    using strip_boot_returns [OF _ b, of 0] by auto
  then obtain v where "strip_boot_one_legacy 1 u = Some v" "lg_prompt v"
    using strip_boot_returns [OF u(2,3), of 1] by auto
  moreover have "length (channel_output_legacy (lg_id s)) = 2"
    using assms(1) lg_inv_parts(3) [of my "[0, 0]" s] by (simp add: legacy_resting_def)
  ultimately have "StartDefaultTask_entry s = Some ((rs485_de_init_legacy v)\<lparr> lg_rx_armed := True \<rparr>)"
    using u(1) by (simp add: StartDefaultTask_entry_def upt_rec)
  then show ?thesis using \<open>lg_prompt v\<close> by (simp add: lg_prompt_def rs485_de_init_legacy_def)
qed

end
