(* ===== verification/Legacy_Line.thy ===== *)
theory Legacy_Line
  imports Legacy_Facts
begin

text \<open>The receiver of the ON/OFF firmware collects bytes into lines like the other two receivers: the third
  interpretation of the line assembler.\<close>

definition lg_line_view :: "legacy \<Rightarrow> u8 list \<times> bool" where
  "lg_line_view s = (take (unat (lg_line_length s)) (lg_line s), lg_line_overflow s \<noteq> 0)"

definition lg_line_blank :: "legacy \<Rightarrow> legacy" where
  "lg_line_blank s = s\<lparr> lg_line := [], lg_line_length := 0, lg_line_overflow := 0 \<rparr>"

text \<open>What a whole line does: it is obeyed or not, and offered to the log.\<close>

definition legacy_line_effect :: "u8 list \<Rightarrow> legacy \<Rightarrow> legacy" where
  "legacy_line_effect l s =
     (if legacy_verdict (lg_id s) l = VERDICT_APPLIED
      then legacy_obey (l ! 5 - 48) (the (legacy_action l)) s else s)"

definition lg_debug_offer :: "u8 list \<Rightarrow> u8 \<Rightarrow> legacy \<Rightarrow> legacy" where
  "lg_debug_offer l v t =
     (if lg_debug_ready t = 0
      then t\<lparr> lg_debug_line := l @ [0] @ drop (length l + 1) (lg_debug_line t), lg_debug_verdict := v, lg_debug_ready := 1 \<rparr>
      else t)"

definition lg_line_act :: "u8 list \<Rightarrow> legacy \<Rightarrow> legacy" where
  "lg_line_act l s = lg_debug_offer l (legacy_verdict (lg_id s) l) (legacy_line_effect l s)"

subsection \<open>The line buffer is nobody else's business\<close>

lemma blank_write: "lg_line_blank (lg_write p v s) = lg_write p v (lg_line_blank s)"
  by (simp add: lg_line_blank_def lg_write_def lg_on_board_def)

lemma blank_apply: "lg_line_blank (apply_channel_state_legacy c on s) = apply_channel_state_legacy c on (lg_line_blank s)"
proof -
  have f: "lg_line_blank (s\<lparr> lg_channel_on := x \<rparr>) = (lg_line_blank s)\<lparr> lg_channel_on := x \<rparr>"
    "lg_line_blank (s\<lparr> lg_strip_alarm_on := x, lg_strip_pending := y \<rparr>)
       = (lg_line_blank s)\<lparr> lg_strip_alarm_on := x, lg_strip_pending := y \<rparr>" for x y s
    by (simp_all add: lg_line_blank_def)
  have g: "lg_channel_on (lg_line_blank s) = lg_channel_on s" "lg_strip_alarm_on (lg_line_blank s) = lg_strip_alarm_on s"
    "lg_strip_pending (lg_line_blank s) = lg_strip_pending s" "lg_id (lg_line_blank s) = lg_id s" for s
    by (simp_all add: lg_line_blank_def)
  show ?thesis by (simp add: apply_channel_state_legacy_def Let_def blank_write f g lg_write_fields)
qed

lemma blank_act: "lg_line_blank (lg_line_act l s) = lg_line_act l (lg_line_blank s)"
proof -
  have ack: "lg_line_blank (t\<lparr> lg_ack_channel := a, lg_ack_turn_on := b, lg_ack_pending := d \<rparr>)
      = (lg_line_blank t)\<lparr> lg_ack_channel := a, lg_ack_turn_on := b, lg_ack_pending := d \<rparr>"
    "lg_ack_pending (lg_line_blank t) = lg_ack_pending t" "lg_id (lg_line_blank t) = lg_id t" for t a b d
    by (simp_all add: lg_line_blank_def)
  have obey: "lg_line_blank (legacy_obey c on t) = legacy_obey c on (lg_line_blank t)" for c on t
    by (simp add: legacy_obey_def Let_def ack flip: blank_apply)
  have offer: "lg_line_blank (lg_debug_offer l v t) = lg_debug_offer l v (lg_line_blank t)" for v t
    by (simp add: lg_debug_offer_def lg_line_blank_def)
  show ?thesis by (simp add: lg_line_act_def legacy_line_effect_def offer obey ack)
qed

lemma act_line_fields [simp]:
  "lg_line (lg_line_act l s) = lg_line s" "lg_line_length (lg_line_act l s) = lg_line_length s"
  "lg_line_overflow (lg_line_act l s) = lg_line_overflow s"
  by (simp_all add: lg_line_act_def lg_debug_offer_def legacy_line_effect_def legacy_obey_def
      apply_channel_state_legacy_def Let_def lg_write_def lg_on_board_def)

subsection \<open>One byte\<close>

lemma process_byte_legacy_cases:
  assumes "legacy_wf s"
  shows "process_rs485_byte_legacy b s =
    (if is_eol b then
       (if snd (lg_line_view s) \<or> fst (lg_line_view s) = [] then s
        else lg_line_act (fst (lg_line_view s)) s)\<lparr> lg_line_length := 0, lg_line_overflow := 0 \<rparr>
     else if length (fst (lg_line_view s)) \<ge> 16 then s\<lparr> lg_line_overflow := 1 \<rparr>
     else s\<lparr> lg_line := (lg_line s)[unat (lg_line_length s) := b], lg_line_length := lg_line_length s + 1 \<rparr>)"
proof -
  let ?n = "lg_line_length s"
  let ?l = "take (unat ?n) (lg_line s)"
  have len: "length (lg_line s) = 16" "?n \<le> 16" "buildable (lg_id s)"
    using assms by (simp_all add: legacy_wf_def)
  have n: "length ?l = unat ?n" using len by (simp add: word_le_nat_alt)
  have empty: "?l = [] \<longleftrightarrow> ?n = 0" using n by (metis length_0_conv unat_eq_zero)
  have ge: "16 \<le> unat ?n \<longleftrightarrow> 16 \<le> ?n" by (simp add: word_le_nat_alt)
  have line: "process_rs485_line_legacy (lg_line s) ?n s = (legacy_verdict (lg_id s) ?l, legacy_line_effect ?l s)"
    using process_line_legacy_spec [OF len(3) n] process_line_legacy_take [OF len(1,2)]
    by (simp add: legacy_line_effect_def)
  have keep: "lg_line (legacy_line_effect ?l s) = lg_line s" "lg_line_length (legacy_line_effect ?l s) = ?n"
    by (simp_all add: legacy_line_effect_def legacy_obey_def apply_channel_state_legacy_def Let_def lg_write_def lg_on_board_def)
  have act: "(let (verdict, t) = process_rs485_line_legacy (lg_line s) ?n s
       in if lg_debug_ready t = 0
          then t\<lparr> lg_debug_line := take (unat (lg_line_length t)) (lg_line t) @ [0]
                     @ drop (unat (lg_line_length t) + 1) (lg_debug_line t),
                  lg_debug_verdict := verdict, lg_debug_ready := 1 \<rparr>
          else t) = lg_line_act ?l s"
    unfolding line Let_def split_def fst_conv snd_conv keep lg_line_act_def lg_debug_offer_def n ..
  show ?thesis
    unfolding process_rs485_byte_legacy_def act lg_line_view_def is_eol_def fst_conv snd_conv empty n ge
      RS485_LINE_BUFFER_SIZE_def
    by (cases "lg_line_overflow s = 0"; cases "lg_line_length s = 0") simp_all
qed

lemma process_byte_legacy_wf: "legacy_wf s \<Longrightarrow> legacy_wf (process_rs485_byte_legacy b s)"
  using process_byte_legacy_ok [of "lg_id s" s b] by (simp add: lg_ok_def)

lemma process_byte_legacy_view:
  assumes "legacy_wf s"
  shows "lg_line_view (process_rs485_byte_legacy b s) = snd (asm_step 16 b (lg_line_view s))"
proof -
  have n: "length (lg_line s) = 16" "unat (lg_line_length s) \<le> 16"
    using assms by (simp_all add: legacy_wf_def word_le_nat_alt)
  have inc: "unat (lg_line_length s + 1) = unat (lg_line_length s) + 1" if "unat (lg_line_length s) < 16"
    using that by (simp add: unat_word_ariths)
  have put: "take (unat (lg_line_length s) + 1) ((lg_line s)[unat (lg_line_length s) := b])
      = take (unat (lg_line_length s)) (lg_line s) @ [b]" if "unat (lg_line_length s) < 16"
    using that n by (simp add: take_Suc_conv_app_nth)
  show ?thesis
    using n inc put
    by (auto simp: process_byte_legacy_cases [OF assms] lg_line_view_def asm_step_def Let_def)
qed

lemma process_byte_legacy_rest:
  assumes "legacy_wf s"
  shows "lg_line_blank (process_rs485_byte_legacy b s) =
    (case fst (asm_step 16 b (lg_line_view s)) of None \<Rightarrow> lg_line_blank s
     | Some l \<Rightarrow> lg_line_act l (lg_line_blank s))"
proof -
  have drop: "lg_line_blank (t\<lparr> lg_line_length := x, lg_line_overflow := y \<rparr>) = lg_line_blank t"
    "lg_line_blank (t\<lparr> lg_line_overflow := y \<rparr>) = lg_line_blank t"
    "lg_line_blank (t\<lparr> lg_line_length := x \<rparr>) = lg_line_blank t"
    "lg_line_blank (t\<lparr> lg_line := z \<rparr>) = lg_line_blank t"
    "lg_line_blank (t\<lparr> lg_line := z, lg_line_length := x \<rparr>) = lg_line_blank t" for t x y z
    by (simp_all add: lg_line_blank_def)
  show ?thesis
    by (cases "lg_line_view s")
      (simp add: process_byte_legacy_cases [OF assms] asm_step_def drop blank_act)
qed

interpretation onoff_asm: line_assembler 16 process_rs485_byte_legacy lg_line_view lg_line_blank
    lg_line_act legacy_wf
  by unfold_locales
    (rule process_byte_legacy_wf process_byte_legacy_view process_byte_legacy_rest, assumption)+

subsection \<open>An ON/OFF line\<close>

lemma onoff_bytes_parts:
  "onoff_bytes my c on ! 5 - 48 = c" "legacy_action (onoff_bytes my c on) = Some (of_flag on)"
  by (simp add: onoff_bytes_def) (cases on; simp add: onoff_bytes_def legacy_action_def of_flag_def)

lemma apply_legacy_own:
  assumes "buildable (lg_id s)" "own_channel (lg_id s) c"
  obtains i where "channel_output_index_legacy (lg_id s) c = word_of_nat i" "i < 2"
    "lg_channel_on (apply_channel_state_legacy c on s) = (lg_channel_on s)[i := of_flag (on \<noteq> 0)]"
    "lg_strip_pending (apply_channel_state_legacy c on s) = (lg_strip_pending s)[i := 1]"
    "lg_ack_pending (apply_channel_state_legacy c on s) = lg_ack_pending s"
proof -
  let ?i = "channel_output_index_legacy (lg_id s) c"
  have own: "?i \<noteq> CHANNEL_OUTPUT_NONE" using assms own_channel_legacy by blast
  then have i: "?i = 0 \<or> ?i = 1" using own_index_legacy [OF assms(1)] by blast
  then have "?i = word_of_nat (unat ?i)" "unat ?i < 2" by auto
  moreover have "lg_channel_on (apply_channel_state_legacy c on s) = (lg_channel_on s)[unat ?i := of_flag (on \<noteq> 0)]"
    "lg_strip_pending (apply_channel_state_legacy c on s) = (lg_strip_pending s)[unat ?i := 1]"
    "lg_ack_pending (apply_channel_state_legacy c on s) = lg_ack_pending s"
    using own by (simp_all add: apply_channel_state_legacy_def Let_def lg_write_def lg_on_board_def)
  ultimately show thesis by (rule that)
qed

end
