(* ===== verification/Legacy_Properties.thy ===== *)
theory Legacy_Properties
  imports Legacy_Prompt Legacy_Line Slave_Properties Master_Rs485
begin

text \<open>The properties of the ON/OFF firmware: what a line does, what the outputs show, what a strip shows,
  and when the task goes on.\<close>

definition onoff_pins :: "u8 \<Rightarrow> u8 \<Rightarrow> (gpio_port \<times> nat) \<times> (gpio_port \<times> nat)" where
  "onoff_pins my c = (if c = MY_FIRST_CHANNEL my then ((GPIOA, 0), (GPIOB, 5)) else ((GPIOA, 1), (GPIOA, 8)))"

lemma own_two:
  assumes "buildable my" "own_channel my c"
  shows "c = MY_FIRST_CHANNEL my \<or> c = MY_LAST_CHANNEL my" "MY_FIRST_CHANNEL my \<noteq> MY_LAST_CHANNEL my"
proof -
  have "(1 :: u8) \<le> c \<and> c \<le> 2 \<Longrightarrow> c = 1 \<or> c = 2" "(3 :: u8) \<le> c \<and> c \<le> 4 \<Longrightarrow> c = 3 \<or> c = 4"
    by (auto simp: word_le_nat_alt word_unat_eq_iff)
  then show "c = MY_FIRST_CHANNEL my \<or> c = MY_LAST_CHANNEL my" "MY_FIRST_CHANNEL my \<noteq> MY_LAST_CHANNEL my"
    using assms by (auto simp: buildable_def own_channel_def)
qed

lemma own_index:
  assumes "buildable my" "own_channel my c"
  shows "channel_output_index_legacy my c = (if c = MY_FIRST_CHANNEL my then 0 else 1)"
  using assms own_two [OF assms]
  by (auto simp: buildable_def index_legacy_same channel_output_index_cases split: if_splits)

text \<open>What an applied line leaves behind.\<close>

lemma obeyed_onoff:
  assumes "legacy_wf s" "own_channel (lg_id s) c" "t = lg_line_act (onoff_bytes (lg_id s) c on) s"
  shows "lg_channel_on t = (lg_channel_on s)[if c = MY_FIRST_CHANNEL (lg_id s) then 0 else 1 := of_flag on]"
    "lg_ack_pending s = 0 \<Longrightarrow> lg_ack_pending t = 1 \<and> lg_ack_channel t = c \<and> lg_ack_turn_on t = of_flag on"
proof -
  have b: "buildable (lg_id s)" using assms(1) by (simp add: legacy_wf_def)
  have v: "legacy_verdict (lg_id s) (onoff_bytes (lg_id s) c on) = VERDICT_APPLIED"
    using legacy_applied_iff [OF b] assms(2) by blast
  have fl: "of_flag (of_flag on \<noteq> 0) = (of_flag on :: u8)" by (simp add: of_flag_def)
  obtain i where i: "channel_output_index_legacy (lg_id s) c = word_of_nat i" "i < 2"
    "lg_channel_on (apply_channel_state_legacy c (of_flag on) s) = (lg_channel_on s)[i := of_flag (of_flag on \<noteq> 0)]"
    "lg_ack_pending (apply_channel_state_legacy c (of_flag on) s) = lg_ack_pending s"
    using apply_legacy_own [OF b assms(2), of "of_flag on"] by metis
  have ii: "i = (if c = MY_FIRST_CHANNEL (lg_id s) then 0 else 1)"
    using i(1,2) own_index [OF b assms(2)] by (auto simp: less_2_cases_iff split: if_splits)
  have t: "t = lg_debug_offer (onoff_bytes (lg_id s) c on) VERDICT_APPLIED (legacy_obey c (of_flag on) s)"
    by (simp only: assms(3) lg_line_act_def legacy_line_effect_def v onoff_bytes_parts option.sel if_True refl)
  show "lg_channel_on t = (lg_channel_on s)[if c = MY_FIRST_CHANNEL (lg_id s) then 0 else 1 := of_flag on]"
  proof -
    have "lg_channel_on t = lg_channel_on (apply_channel_state_legacy c (of_flag on) s)"
      unfolding t by (simp add: lg_debug_offer_def legacy_obey_def Let_def)
    then show ?thesis using i(3) unfolding ii fl by (rule trans)
  qed
  show "lg_ack_pending s = 0 \<Longrightarrow> lg_ack_pending t = 1 \<and> lg_ack_channel t = c \<and> lg_ack_turn_on t = of_flag on"
    using i(4) fl unfolding t by (simp add: lg_debug_offer_def legacy_obey_def Let_def)
qed

lemma refused_onoff:
  assumes "legacy_wf s" "\<nexists>c on. own_channel (lg_id s) c \<and> l = onoff_bytes (lg_id s) c on"
  shows "lg_board (lg_line_act l s) = lg_board s \<and> lg_channel_on (lg_line_act l s) = lg_channel_on s
    \<and> lg_ack_pending (lg_line_act l s) = lg_ack_pending s"
proof -
  have "buildable (lg_id s)" using assms(1) by (simp add: legacy_wf_def)
  then have "legacy_verdict (lg_id s) l \<noteq> VERDICT_APPLIED" using legacy_applied_iff assms(2) by blast
  then show ?thesis by (simp only: lg_line_act_def legacy_line_effect_def if_False lg_debug_offer_def) simp
qed

lemma command_not_onoff:
  assumes "l @ [e] = command_frame ch r"
  shows "l \<noteq> onoff_bytes my c on"
proof
  assume "l = onoff_bytes my c on"
  then have "(l @ [e]) ! 7 = 79" by (simp add: onoff_bytes_def)
  moreover have "command_frame ch r ! 7 = 82" by (simp add: command_frame_def Let_def)
  ultimately show False unfolding assms by simp
qed

lemma outputs_pins:
  assumes "legacy_wf s" "own_channel (lg_id s) c"
  shows "lg_shows s (fst (onoff_pins (lg_id s) c)) = Some (lg_channel_on s ! (if c = MY_FIRST_CHANNEL (lg_id s) then 0 else 1) \<noteq> 0)"
    "lg_shows s (snd (onoff_pins (lg_id s) c)) = Some (lg_channel_on s ! (if c = MY_FIRST_CHANNEL (lg_id s) then 0 else 1) \<noteq> 0)"
  using assms by (simp_all add: legacy_wf_def lg_outputs_ok_def onoff_pins_def)

text \<open>Feeding a line is acting on it, as far as anything but the line buffer goes.\<close>

lemma fed_onoff:
  assumes "legacy_wf s" "lg_line_view s = ([], False)" "\<forall>b\<in>set l. \<not> is_eol b" "is_eol e" "deliverable 16 l"
  defines "t \<equiv> fold process_rs485_byte_legacy (l @ [e]) s"
  shows "lg_board t = lg_board (lg_line_act l s)" "lg_channel_on t = lg_channel_on (lg_line_act l s)"
    "lg_ack_pending t = lg_ack_pending (lg_line_act l s)" "lg_ack_channel t = lg_ack_channel (lg_line_act l s)"
    "lg_ack_turn_on t = lg_ack_turn_on (lg_line_act l s)" "lg_id t = lg_id s" "legacy_wf t"
proof -
  have blank: "lg_line_blank t = lg_line_blank (lg_line_act l s)"
    using onoff_asm.feed_one_line(1) [OF assms(1-4)] assms(5) by (simp add: t_def blank_act)
  show "lg_board t = lg_board (lg_line_act l s)" "lg_channel_on t = lg_channel_on (lg_line_act l s)"
    "lg_ack_pending t = lg_ack_pending (lg_line_act l s)" "lg_ack_channel t = lg_ack_channel (lg_line_act l s)"
    "lg_ack_turn_on t = lg_ack_turn_on (lg_line_act l s)"
    using arg_cong [OF blank, of lg_board] arg_cong [OF blank, of lg_channel_on] arg_cong [OF blank, of lg_ack_pending]
      arg_cong [OF blank, of lg_ack_channel] arg_cong [OF blank, of lg_ack_turn_on]
    by (simp_all add: lg_line_blank_def)
  have "lg_id t = lg_id (lg_line_act l s)" using arg_cong [OF blank, of lg_id] by (simp add: lg_line_blank_def)
  also have "\<dots> = lg_id s"
    by (simp add: lg_line_act_def lg_debug_offer_def legacy_line_effect_def legacy_obey_def
        apply_channel_state_legacy_def Let_def lg_write_fields)
  finally show "lg_id t = lg_id s" .
  show "legacy_wf t" unfolding t_def by (rule onoff_asm.feed_list_ok [OF assms(1)])
qed

lemma fed_obeyed:
  assumes "legacy_wf s" "lg_line_view s = ([], False)" "\<forall>b\<in>set l. \<not> is_eol b" "is_eol e" "deliverable 16 l"
    and own: "own_channel (lg_id s) c" and l: "l = onoff_bytes (lg_id s) c on"
  defines "t \<equiv> fold process_rs485_byte_legacy (l @ [e]) s"
  shows "lg_shows t (fst (onoff_pins (lg_id s) c)) = Some on \<and> lg_shows t (snd (onoff_pins (lg_id s) c)) = Some on
    \<and> (\<forall>d. own_channel (lg_id s) d \<and> d \<noteq> c \<longrightarrow>
          lg_shows t (fst (onoff_pins (lg_id s) d)) = lg_shows s (fst (onoff_pins (lg_id s) d))
          \<and> lg_shows t (snd (onoff_pins (lg_id s) d)) = lg_shows s (snd (onoff_pins (lg_id s) d)))
    \<and> (lg_ack_pending s = 0 \<longrightarrow> lg_ack_pending t = 1 \<and> lg_ack_channel t = c \<and> lg_ack_turn_on t = of_flag on)"
proof -
  let ?my = "lg_id s" and ?at = "\<lambda>d. if d = MY_FIRST_CHANNEL (lg_id s) then 0 else (1 :: nat)"
  note f = fed_onoff [OF assms(1-5), folded t_def]
  note o = obeyed_onoff [OF assms(1) own refl, of on, folded l]
  have two: "length (lg_channel_on s) = 2" "buildable ?my" using assms(1) by (simp_all add: legacy_wf_def)
  have other: "d = MY_FIRST_CHANNEL ?my \<longleftrightarrow> c \<noteq> MY_FIRST_CHANNEL ?my" if "own_channel ?my d" "d \<noteq> c" for d
    using own_two [OF two(2) own] own_two [OF two(2) that(1)] that(2) by metis
  have now: "lg_channel_on t = (lg_channel_on s)[?at c := of_flag on]" unfolding f(2) o(1) ..
  then have "lg_channel_on t ! ?at c = of_flag on" using two by simp
  moreover have "lg_channel_on t ! ?at d = lg_channel_on s ! ?at d" if "own_channel ?my d" "d \<noteq> c" for d
    unfolding now using other [OF that] by simp
  moreover have "lg_shows t (fst (onoff_pins ?my d)) = Some (lg_channel_on t ! ?at d \<noteq> 0)"
    "lg_shows t (snd (onoff_pins ?my d)) = Some (lg_channel_on t ! ?at d \<noteq> 0)" if "own_channel ?my d" for d
    using outputs_pins [OF f(7), unfolded f(6), OF that] by blast+
  ultimately show ?thesis
    using own outputs_pins [OF assms(1)] o(2) unfolding f(3-5) by (simp add: of_flag_def)
qed

text \<open>C33: A line that reaches an ON/OFF slave is obeyed exactly if it is an ON or OFF command for one of its
  own channels: then that channel's relay and buzzer show it, the other channel stays, and the acknowledgement slot, if
  free, holds the answer; any other line, and so every level command of the present master, changes
  no output and asks for no answer.\<close>

theorem onoff_line_outcome:
  assumes "legacy_wf s" and "lg_line_view s = ([], False)" and "\<forall>b\<in>set l. \<not> is_eol b" and "is_eol e"
    and "l \<noteq> []" and "length l \<le> 16"
  shows "let my = lg_id s; t = fold process_rs485_byte_legacy (l @ [e]) s;
      unchanged = (lg_board t = lg_board s \<and> lg_channel_on t = lg_channel_on s \<and> lg_ack_pending t = lg_ack_pending s)
    in lg_line_view t = ([], False)
       \<and> (\<forall>c on. own_channel my c \<and> l = onoff_bytes my c on \<longrightarrow>
            lg_shows t (fst (onoff_pins my c)) = Some on \<and> lg_shows t (snd (onoff_pins my c)) = Some on
            \<and> (\<forall>d. own_channel my d \<and> d \<noteq> c \<longrightarrow>
                  lg_shows t (fst (onoff_pins my d)) = lg_shows s (fst (onoff_pins my d))
                  \<and> lg_shows t (snd (onoff_pins my d)) = lg_shows s (snd (onoff_pins my d)))
            \<and> (lg_ack_pending s = 0 \<longrightarrow>
                  lg_ack_pending t = 1 \<and> lg_ack_channel t = c \<and> lg_ack_turn_on t = of_flag on))
       \<and> ((\<nexists>c on. own_channel my c \<and> l = onoff_bytes my c on) \<longrightarrow> unchanged)
       \<and> (\<forall>ch r. l @ [e] = command_frame ch r \<longrightarrow> unchanged)"
proof -
  let ?t = "fold process_rs485_byte_legacy (l @ [e]) s" and ?my = "lg_id s"
  have fits: "deliverable 16 l" using assms(5,6) by (simp add: deliverable_def)
  have refused: "lg_board ?t = lg_board s \<and> lg_channel_on ?t = lg_channel_on s \<and> lg_ack_pending ?t = lg_ack_pending s"
    if "\<nexists>c on. own_channel ?my c \<and> l = onoff_bytes ?my c on"
    using refused_onoff [OF assms(1) that] unfolding fed_onoff(1-3) [OF assms(1-4) fits] .
  have "\<nexists>c on. own_channel ?my c \<and> l = onoff_bytes ?my c on" if "l @ [e] = command_frame ch r" for ch r
    using command_not_onoff [OF that] by blast
  then show ?thesis
    unfolding Let_def
    using onoff_asm.feed_one_line(2) [OF assms(1-4)] fed_obeyed [OF assms(1-4) fits] refused by blast
qed

definition onoff_one :: legacy where
  "onoff_one = legacy_state0 1 0 empty_plan []"

lemma onoff_one_ok: "legacy_resting 1 onoff_one" "legacy_wf onoff_one" "lg_id onoff_one = 1" "lg_prompt onoff_one"
  using legacy_state0_resting [OF buildable_one, of 0 empty_plan "[]"]
  by (simp_all add: onoff_one_def legacy_resting_def lg_inv_def lg_ok_def)
    (simp add: lg_prompt_def legacy_state0_def legacy_memory_def)

theorem onoff_line_outcome_witness:
  "lg_shows (fold process_rs485_byte_legacy (cstr ''S1:CH2:ON'' @ [LF]) onoff_one) (GPIOA, 1) = Some True"
proof -
  let ?l = "onoff_bytes (lg_id onoff_one) 2 True"
  have l: "?l = cstr ''S1:CH2:ON''" by (simp add: onoff_one_ok onoff_bytes_def)
  have own: "own_channel (lg_id onoff_one) 2" by (simp add: onoff_one_ok own_channel_def)
  have view: "lg_line_view onoff_one = ([], False)"
    by (simp add: lg_line_view_def onoff_one_def legacy_state0_def legacy_memory_def)
  have line: "\<forall>b\<in>set ?l. \<not> is_eol b" "is_eol LF" "?l \<noteq> []" "length ?l \<le> 16"
    unfolding l by (simp_all add: is_eol_def)
  have "lg_shows (fold process_rs485_byte_legacy (?l @ [LF]) onoff_one) (fst (onoff_pins (lg_id onoff_one) 2)) = Some True"
    by (rule onoff_line_outcome [OF onoff_one_ok(2) view line, unfolded Let_def, THEN conjunct2, THEN conjunct1,
          rule_format, OF conjI [OF own refl], THEN conjunct1])
  then show ?thesis by (simp add: onoff_pins_def onoff_bytes_def onoff_one_ok(3))
qed

subsection \<open>Running\<close>

text \<open>C34: Whatever the bus carries and in whatever order interrupts, turns and waits come, an ON/OFF slave
  shows what it has recorded: relay and buzzer of each own channel, the lamp if any channel is on, the alarm
  flag its strip is drawn from; the line being received fits its buffer; and the slave has put
  nothing on the bus but acknowledgements of its own channels.\<close>

theorem onoff_shows_record:
  assumes "buildable my" and "legacy_reachable my s"
  shows "(\<forall>c. own_channel my c \<longrightarrow>
       (let on = lg_channel_on s ! (if c = MY_FIRST_CHANNEL my then 0 else 1) \<noteq> 0
        in lg_shows s (fst (onoff_pins my c)) = Some on \<and> lg_shows s (snd (onoff_pins my c)) = Some on))
    \<and> lg_shows s LD2 = Some (\<exists>i<2. lg_channel_on s ! i \<noteq> 0)
    \<and> lg_strip_alarm_on s = lg_channel_on s
    \<and> length (lg_line s) = 16 \<and> lg_line_length s \<le> 16
    \<and> (\<forall>bytes k st. LegacyTx USART1 bytes k st \<in> set (lg_out s) \<longrightarrow>
         (\<exists>c on. own_channel my c \<and> bytes = ack_frame_legacy my c on))"
proof -
  have wf: "legacy_wf s" "lg_id s = my"
    using legacy_reachable_inv [OF assms] by (simp_all add: lg_inv_def lg_ok_def)
  have "(\<exists>i<2. lg_channel_on s ! i \<noteq> 0) \<longleftrightarrow> lg_channel_on s ! 0 \<noteq> 0 \<or> lg_channel_on s ! 1 \<noteq> 0"
    using less_2_cases_iff by auto
  then have lamp: "lg_shows s LD2 = Some (\<exists>i<2. lg_channel_on s ! i \<noteq> 0)"
    using wf(1) by (simp only: legacy_wf_def lg_outputs_ok_def) simp
  have acks: "\<exists>c on. own_channel my c \<and> bytes = ack_frame_legacy my c on"
    if "LegacyTx USART1 bytes k st \<in> set (lg_out s)" for bytes k st
    using wf that by (force simp: legacy_wf_def list_all_iff lg_effect_ok_def)
  show ?thesis
    using outputs_pins [OF wf(1)] lamp acks wf unfolding Let_def wf(2) by (simp add: legacy_wf_def)
qed

lemma onoff_started: "\<exists>s. legacy_reachable 1 s \<and> lg_prompt s \<and> lg_rx_armed s"
proof -
  obtain s where s: "StartDefaultTask_entry onoff_one = Some s" "lg_prompt s"
    using entry_returns onoff_one_ok(1,4) by blast
  let ?e = "\<lparr> se_osc_ok = True, se_clk_ok = True, se_uart_ok = (\<lambda>_. True), se_thread_ok = True \<rparr>"
  have "legacy_main ?e 1 0 empty_plan [] = Inr (True, onoff_one)"
    unfolding legacy_main_unfold [OF buildable_one] by (simp add: onoff_one_def)
  note legacy_reachable.started [OF this s(1)] s(2)
  moreover have "lg_rx_armed s" using s(1) by (auto simp: StartDefaultTask_entry_def bind_eq_Some_conv)
  ultimately show ?thesis by blast
qed

theorem onoff_shows_record_witness:
  "\<exists>s. legacy_reachable 1 s \<and> lg_shows s (GPIOA, 0) = Some (lg_channel_on s ! 0 \<noteq> 0)"
proof -
  obtain s where s: "legacy_reachable 1 s" using onoff_started by blast
  have own: "own_channel 1 1" "1 = MY_FIRST_CHANNEL 1" by (simp_all add: own_channel_def)
  have "lg_shows s (fst (onoff_pins 1 1)) = Some (lg_channel_on s ! (if (1 :: u8) = MY_FIRST_CHANNEL 1 then 0 else 1) \<noteq> 0)"
    by (rule onoff_shows_record [OF buildable_one s, THEN conjunct1, rule_format, OF own(1), unfolded Let_def,
          THEN conjunct1])
  then have "lg_shows s (GPIOA, 0) = Some (lg_channel_on s ! 0 \<noteq> 0)" by (simp add: onoff_pins_def)
  with s show ?thesis by blast
qed

text \<open>A redraw shows the recorded state: when a running ON/OFF slave serves a pending strip and the
  service returns, exactly one frame has been started, for that strip, and has gone out completely if the
  driver answered success; a WS2812 strip decodes it, bit by bit
  within the datasheet windows, to nine pixels in wire order green, red, blue, all red if the channel is on
  and all green if it is off; and the line then stays low for more than the 280 us that end a frame.\<close>

theorem onoff_redraw_readable:
  assumes "buildable my" and "legacy_reachable my s" and "index < 2" and "lg_strip_pending s ! index \<noteq> 0"
    and "neopixel_service_one_legacy index s = Some t"
  shows "\<exists>slots st. lg_out t = lg_out s @ [LegacyFrame (if index = 0 then NEOPIXEL_CH_A else NEOPIXEL_CH_B) slots st]
    \<and> strip_receive (butlast slots)
        = Some (concat (replicate 9 (if lg_channel_on s ! index \<noteq> 0 then [0, 255, 0] else [255, 0, 0])))
    \<and> 280000 \<le> low_time_ns (length (takeWhile (\<lambda>d. d = 0) (rev (butlast slots))))"
proof -
  have inv: "lg_inv my [1, 1] s" by (rule legacy_reachable_inv [OF assms(1,2)])
  have ready: "[1, 1 :: u8] ! index \<noteq> 0" using assms(3) by (auto simp: less_2_cases_iff)
  define row where "row = replicate 9 (legacy_colour (lg_channel_on s ! index))"
  obtain st where out: "lg_out t = lg_out s @ [LegacyFrame (strip_of (word_of_nat index)) (legacy_slots row) st]"
    using service_one_legacy_spec [OF inv assms(3) ready assms(5)] assms(4) unfolding row_def by auto
  have c: "strip_of (word_of_nat index) = (if index = 0 then NEOPIXEL_CH_A else NEOPIXEL_CH_B)"
    using assms(3) by (auto simp: strip_of_def less_2_cases_iff)
  have bytes: "concat (map triple_bytes row)
      = concat (replicate 9 (if lg_channel_on s ! index \<noteq> 0 then [0, 255, 0] else [255, 0, 0]))"
    by (simp add: row_def legacy_colour_def triple_bytes_def)
  have "row \<noteq> []" by (simp add: row_def)
  then show ?thesis using out legacy_slots_read [of row] unfolding c bytes by blast
qed

text \<open>A running slave that has just been told to switch its first channel on.\<close>

lemma byte_irq:
  fixes b
  assumes "legacy_reachable 1 s" "lg_prompt s" "lg_rx_armed s" "lg_line_view s = v"
  defines "t \<equiv> lg_irq (Bus_Byte b) s"
  shows "legacy_reachable 1 t" "lg_prompt t" "lg_rx_armed t" "lg_line_view t = snd (asm_step 16 b v)"
proof -
  have "lg_pass 0 s = s" by (simp add: lg_pass_def)
  then show "legacy_reachable 1 t" using legacy_reachable.interrupt [OF assms(1), of "Bus_Byte b" 0] by (simp add: t_def)
  show "lg_prompt t" using assms(2) by (simp add: t_def lg_prompt_def)
  show "lg_rx_armed t" using assms(3) by (simp add: t_def lg_irq_def HAL_UART_RxCpltCallback_legacy_def Let_def)
  let ?s = "s\<lparr> lg_rx_armed := False \<rparr>"
  have "legacy_wf ?s" using legacy_reachable_inv [OF buildable_one assms(1)] by (simp add: lg_inv_def lg_ok_def)
  then have "lg_line_view (process_rs485_byte_legacy b ?s) = snd (asm_step 16 b (lg_line_view ?s))"
    by (rule process_byte_legacy_view)
  then show "lg_line_view t = snd (asm_step 16 b v)"
    using assms(3,4) by (simp add: t_def lg_irq_def HAL_UART_RxCpltCallback_legacy_def Let_def lg_line_view_def)
qed

lemma told_on: "\<exists>s. legacy_reachable 1 s \<and> lg_prompt s \<and> lg_strip_pending s ! 0 \<noteq> 0"
proof -
  obtain s0 where s0: "legacy_reachable 1 s0" "lg_prompt s0" "lg_rx_armed s0" using onoff_started by blast
  let ?s1 = "lg_irq Bus_Error s0"
  have "lg_pass 0 s0 = s0" by (simp add: lg_pass_def)
  then have r1: "legacy_reachable 1 ?s1" using legacy_reachable.interrupt [OF s0(1), of Bus_Error 0] by simp
  have s1: "lg_prompt ?s1" "lg_rx_armed ?s1" "lg_line_view ?s1 = ([], False)"
    using s0 by (simp_all add: lg_prompt_def lg_irq_def HAL_UART_ErrorCallback_legacy_def lg_line_view_def)
  let ?P = "\<lambda>v s. legacy_reachable 1 s \<and> lg_prompt s \<and> lg_rx_armed s \<and> lg_line_view s = v"
  have bytes: "?P (fold (\<lambda>b v. snd (asm_step 16 b v)) bs v) (fold (\<lambda>b. lg_irq (Bus_Byte b)) bs s)" if "?P v s" for bs v s
    using that
  proof (induction bs arbitrary: v s)
    case (Cons b bs)
    then show ?case using byte_irq [of s v b] by simp
  qed simp
  let ?l = "onoff_bytes 1 1 True"
  have "fold (\<lambda>b v. snd (asm_step 16 b v)) ?l ([], False) = (?l, False)" by (simp add: onoff_bytes_def asm_step_def is_eol_def)
  then obtain s2 where s2: "?P (?l, False) s2" using bytes [where v = "([], False)" and s = ?s1 and bs = ?l] r1 s1 by auto
  have wf: "legacy_wf s2" "lg_id s2 = 1"
    using s2 legacy_reachable_inv [OF buildable_one] by (auto simp: lg_inv_def lg_ok_def)
  let ?u = "s2\<lparr> lg_rx_armed := False \<rparr>"
  have "process_rs485_byte_legacy LF ?u = (lg_line_act ?l ?u)\<lparr> lg_line_length := 0, lg_line_overflow := 0 \<rparr>"
    using s2 wf by (subst process_byte_legacy_cases) (auto simp: is_eol_def lg_line_view_def onoff_bytes_def)
  moreover have "lg_strip_pending (lg_line_act ?l ?u) ! 0 \<noteq> 0"
  proof -
    have own: "own_channel 1 1" "channel_output_index_legacy 1 1 = 0"
      by (simp_all add: own_channel_def channel_output_index_legacy_def channel_output_legacy_def)
    then have v: "legacy_verdict (lg_id ?u) ?l = VERDICT_APPLIED"
      using legacy_applied_iff [OF buildable_one] wf(2) by auto
    have "length (lg_strip_pending s2) = 2" using wf(1) by (simp add: legacy_wf_def)
    then show ?thesis
      unfolding lg_line_act_def legacy_line_effect_def v
      using own(2) wf(2) by (simp add: onoff_bytes_parts lg_debug_offer_def legacy_obey_def
          apply_channel_state_legacy_def Let_def lg_write_fields)
  qed
  ultimately have "lg_strip_pending (lg_irq (Bus_Byte LF) s2) ! 0 \<noteq> 0"
    using s2 by (simp add: lg_irq_def HAL_UART_RxCpltCallback_legacy_def Let_def)
  then show ?thesis using byte_irq [of s2 "(?l, False)" LF] s2 by blast
qed

theorem onoff_redraw_readable_witness:
  "\<exists>s t slots st. neopixel_service_one_legacy 0 s = Some t \<and> lg_out t = lg_out s @ [LegacyFrame NEOPIXEL_CH_A slots st]
     \<and> strip_receive (butlast slots) \<noteq> None"
proof -
  obtain s where s: "legacy_reachable 1 s" "lg_prompt s" "lg_strip_pending s ! 0 \<noteq> 0" using told_on by blast
  obtain t where t: "neopixel_service_one_legacy 0 s = Some t"
    using service_one_returns [OF s(2) legacy_reachable_inv [OF buildable_one s(1)], of 0] by auto
  have "(0 :: nat) < 2" by simp
  from onoff_redraw_readable [OF buildable_one s(1) this s(3) t] t show ?thesis by auto
qed

text \<open>C35: The task goes on for ever as long as every DMA stream that is told to stop does stop: each turn of
  its loop then returns. Serving a pending strip fails to return exactly when the strip's stream,
  asked to switch off before the frame, never does: the wait has no limit.\<close>

theorem onoff_loop_returns:
  assumes "buildable my" and "legacy_reachable my s"
  shows "(lg_prompt s \<longrightarrow> (\<exists>t. StartDefaultTask_iter s = Some t \<and> legacy_reachable my t \<and> lg_prompt t))
    \<and> (\<forall>index<2. lg_strip_pending s ! index \<noteq> 0 \<longrightarrow>
         (let i = (if index = 0 then Stream4 else Stream1)
          in neopixel_service_one_legacy index s = None \<longleftrightarrow> ls_lag (lg_dma (lg_switch_off i s) i) = None))"
proof (intro conjI impI allI)
  have inv: "lg_inv my [1, 1] s" by (rule legacy_reachable_inv [OF assms])
  { assume p: "lg_prompt s"
    obtain t where "StartDefaultTask_iter s = Some t" "lg_prompt t" using iter_returns [OF p inv] by blast
    then show "\<exists>t. StartDefaultTask_iter s = Some t \<and> legacy_reachable my t \<and> lg_prompt t"
      using legacy_reachable.turn [OF assms(2)] by blast }
  fix index :: nat assume i: "index < 2" and pending: "lg_strip_pending s ! index \<noteq> 0"
  show "let i = (if index = 0 then Stream4 else Stream1)
      in neopixel_service_one_legacy index s = None \<longleftrightarrow> ls_lag (lg_dma (lg_switch_off i s) i) = None"
    using service_one_stuck_iff [OF inv i pending] by (simp only: Let_def)
qed

theorem onoff_loop_returns_witness:
  "\<exists>s t. legacy_reachable 1 s \<and> StartDefaultTask_iter s = Some t \<and> lg_prompt t"
  using onoff_started onoff_loop_returns [OF buildable_one] by blast

end
