(* ===== verification/Hal_Uart.thy ===== *)
theory Hal_Uart
  imports Board "HOL-Library.Stream" "HOL-Library.Monad_Syntax"
begin

text \<open>The UART driver of the vendor library (stm32f4xx_hal_uart.c, the same file in all three projects) as
  far as the firmware enters it: HAL_UART_Init with the register set-up, HAL_UART_Receive_IT, the interrupt
  handler with everything it calls, and the blocking HAL_UART_Transmit. The record is the handle together with
  the registers of its USART. No DMA handle is linked to a UART of the firmware (hdmarx is NULL), so the
  handler's DMA branches end where the code ends with a null handle.

  The registers behave as the reference manual documents: a byte that arrives sets RXNE, or ORE when the one
  before was not read; reading DR clears RXNE and those error flags that the last read of SR showed.\<close>

subsection \<open>Registers and constants\<close>

named_theorems uart_defs

definition USART_SR_PE :: u32 where [uart_defs]: "USART_SR_PE = 0x01"
definition USART_SR_FE :: u32 where [uart_defs]: "USART_SR_FE = 0x02"
definition USART_SR_NE :: u32 where [uart_defs]: "USART_SR_NE = 0x04"
definition USART_SR_ORE :: u32 where [uart_defs]: "USART_SR_ORE = 0x08"
definition USART_SR_IDLE :: u32 where [uart_defs]: "USART_SR_IDLE = 0x10"
definition USART_SR_RXNE :: u32 where [uart_defs]: "USART_SR_RXNE = 0x20"
definition USART_SR_TC :: u32 where [uart_defs]: "USART_SR_TC = 0x40"
definition USART_SR_TXE :: u32 where [uart_defs]: "USART_SR_TXE = 0x80"

definition USART_CR1_RE :: u32 where [uart_defs]: "USART_CR1_RE = 0x04"
definition USART_CR1_TE :: u32 where [uart_defs]: "USART_CR1_TE = 0x08"
definition USART_CR1_IDLEIE :: u32 where [uart_defs]: "USART_CR1_IDLEIE = 0x10"
definition USART_CR1_RXNEIE :: u32 where [uart_defs]: "USART_CR1_RXNEIE = 0x20"
definition USART_CR1_TCIE :: u32 where [uart_defs]: "USART_CR1_TCIE = 0x40"
definition USART_CR1_TXEIE :: u32 where [uart_defs]: "USART_CR1_TXEIE = 0x80"
definition USART_CR1_PEIE :: u32 where [uart_defs]: "USART_CR1_PEIE = 0x100"
definition USART_CR1_PS :: u32 where [uart_defs]: "USART_CR1_PS = 0x200"
definition USART_CR1_PCE :: u32 where [uart_defs]: "USART_CR1_PCE = 0x400"
definition USART_CR1_M :: u32 where [uart_defs]: "USART_CR1_M = 0x1000"
definition USART_CR1_UE :: u32 where [uart_defs]: "USART_CR1_UE = 0x2000"
definition USART_CR1_OVER8 :: u32 where [uart_defs]: "USART_CR1_OVER8 = 0x8000"

definition USART_CR2_CLKEN :: u32 where [uart_defs]: "USART_CR2_CLKEN = 0x800"
definition USART_CR2_STOP :: u32 where [uart_defs]: "USART_CR2_STOP = 0x3000"
definition USART_CR2_STOP_1 :: u32 where [uart_defs]: "USART_CR2_STOP_1 = 0x2000"
definition USART_CR2_LINEN :: u32 where [uart_defs]: "USART_CR2_LINEN = 0x4000"

definition USART_CR3_EIE :: u32 where [uart_defs]: "USART_CR3_EIE = 0x01"
definition USART_CR3_IREN :: u32 where [uart_defs]: "USART_CR3_IREN = 0x02"
definition USART_CR3_HDSEL :: u32 where [uart_defs]: "USART_CR3_HDSEL = 0x08"
definition USART_CR3_SCEN :: u32 where [uart_defs]: "USART_CR3_SCEN = 0x20"
definition USART_CR3_DMAR :: u32 where [uart_defs]: "USART_CR3_DMAR = 0x40"
definition USART_CR3_RTSE :: u32 where [uart_defs]: "USART_CR3_RTSE = 0x100"
definition USART_CR3_CTSE :: u32 where [uart_defs]: "USART_CR3_CTSE = 0x200"

definition HAL_UART_ERROR_NONE :: u32 where [uart_defs]: "HAL_UART_ERROR_NONE = 0"
definition HAL_UART_ERROR_PE :: u32 where [uart_defs]: "HAL_UART_ERROR_PE = 1"
definition HAL_UART_ERROR_NE :: u32 where [uart_defs]: "HAL_UART_ERROR_NE = 2"
definition HAL_UART_ERROR_FE :: u32 where [uart_defs]: "HAL_UART_ERROR_FE = 4"
definition HAL_UART_ERROR_ORE :: u32 where [uart_defs]: "HAL_UART_ERROR_ORE = 8"

definition HAL_MAX_DELAY :: u32 where [uart_defs]: "HAL_MAX_DELAY = 0xFFFFFFFF"

datatype uart_state =
    HAL_UART_STATE_RESET | HAL_UART_STATE_READY | HAL_UART_STATE_BUSY
  | HAL_UART_STATE_BUSY_TX | HAL_UART_STATE_BUSY_RX | HAL_UART_STATE_BUSY_TX_RX
  | HAL_UART_STATE_TIMEOUT | HAL_UART_STATE_ERROR

datatype rx_type = HAL_UART_RECEPTION_STANDARD | HAL_UART_RECEPTION_TOIDLE

datatype rx_event_type = HAL_UART_RXEVENT_TC | HAL_UART_RXEVENT_HT | HAL_UART_RXEVENT_IDLE

text \<open>The set-up of a UART: the values are register bits already.\<close>

record UART_InitTypeDef =
  BaudRate :: u32
  WordLength :: u32
  StopBits :: u32
  Parity :: u32
  Mode :: u32
  HwFlowCtl :: u32
  OverSampling :: u32

definition UART_WORDLENGTH_8B :: u32 where [uart_defs]: "UART_WORDLENGTH_8B = 0"
definition UART_WORDLENGTH_9B :: u32 where [uart_defs]: "UART_WORDLENGTH_9B = USART_CR1_M"
definition UART_STOPBITS_1 :: u32 where [uart_defs]: "UART_STOPBITS_1 = 0"
definition UART_STOPBITS_2 :: u32 where [uart_defs]: "UART_STOPBITS_2 = USART_CR2_STOP_1"
definition UART_PARITY_NONE :: u32 where [uart_defs]: "UART_PARITY_NONE = 0"
definition UART_PARITY_EVEN :: u32 where [uart_defs]: "UART_PARITY_EVEN = USART_CR1_PCE"
definition UART_MODE_TX_RX :: u32 where [uart_defs]: "UART_MODE_TX_RX = USART_CR1_TE OR USART_CR1_RE"
definition UART_HWCONTROL_NONE :: u32 where [uart_defs]: "UART_HWCONTROL_NONE = 0"
definition UART_HWCONTROL_RTS_CTS :: u32 where
  [uart_defs]: "UART_HWCONTROL_RTS_CTS = USART_CR3_RTSE OR USART_CR3_CTSE"
definition UART_OVERSAMPLING_16 :: u32 where [uart_defs]: "UART_OVERSAMPLING_16 = 0"
definition UART_OVERSAMPLING_8 :: u32 where [uart_defs]: "UART_OVERSAMPLING_8 = USART_CR1_OVER8"

text \<open>The set-up the boards of this development ask for, in these bits.\<close>

definition init_bits :: "uart_init \<Rightarrow> UART_InitTypeDef" where
  "init_bits c =
     \<lparr> BaudRate = word_of_nat (baud_rate c),
       WordLength = (if word_length c = 9 then UART_WORDLENGTH_9B else UART_WORDLENGTH_8B),
       StopBits = (if stop_bits c = 2 then UART_STOPBITS_2 else UART_STOPBITS_1),
       Parity = (if parity_none c then UART_PARITY_NONE else UART_PARITY_EVEN),
       Mode = UART_MODE_TX_RX,
       HwFlowCtl = (if hw_flow c then UART_HWCONTROL_RTS_CTS else UART_HWCONTROL_NONE),
       OverSampling = (if oversampling c = 8 then UART_OVERSAMPLING_8 else UART_OVERSAMPLING_16) \<rparr>"

subsection \<open>The handle and its USART\<close>

text \<open>\<open>uh_RDR\<close> and \<open>uh_sent\<close> are the two sides of DR: the byte received and the values written, in order;
  \<open>uh_seen\<close> what the last read of SR showed. A caller's buffer is its memory, the buffer pointer an index into it.
  \<open>uh_looks\<close> is what every coming look of a waiting loop finds: the transmitter's flags and the tick.\<close>

record uart_handle =
  uh_SR :: u32
  uh_RDR :: u16
  uh_seen :: u32
  uh_sent :: "u16 list"
  uh_BRR :: u32
  uh_CR1 :: u32
  uh_CR2 :: u32
  uh_CR3 :: u32
  uh_Init :: UART_InitTypeDef
  tx_mem :: "u8 list"
  pTxBuffPtr :: nat
  TxXferSize :: u16
  TxXferCount :: u16
  rx_mem :: "u8 list"
  pRxBuffPtr :: nat
  RxXferSize :: u16
  RxXferCount :: u16
  ReceptionType :: rx_type
  RxEventType :: rx_event_type
  gState :: uart_state
  RxState :: uart_state
  ErrorCode :: u32
  uh_tick :: u32
  uh_looks :: "(u32 \<times> u32) stream"

subsection \<open>What the hardware does\<close>

definition usart_arrive :: "u16 \<times> u32 \<Rightarrow> uart_handle \<Rightarrow> uart_handle" where
  "usart_arrive a h =
     (let faults = snd a AND (USART_SR_FE OR USART_SR_NE)
      in if uh_SR h AND USART_SR_RXNE = 0
         then h\<lparr> uh_RDR := fst a, uh_SR := uh_SR h OR USART_SR_RXNE OR faults \<rparr>
         else h\<lparr> uh_SR := uh_SR h OR USART_SR_ORE OR faults \<rparr>)"

definition read_SR :: "uart_handle \<Rightarrow> u32 \<times> uart_handle" where
  "read_SR h = (uh_SR h, h\<lparr> uh_seen := uh_SR h \<rparr>)"

definition read_DR :: "uart_handle \<Rightarrow> u16 \<times> uart_handle" where
  "read_DR h =
     (uh_RDR h, h\<lparr> uh_SR := uh_SR h AND NOT (USART_SR_RXNE OR (uh_seen h AND
          (USART_SR_PE OR USART_SR_FE OR USART_SR_NE OR USART_SR_ORE OR USART_SR_IDLE))), uh_seen := 0 \<rparr>)"

definition write_DR :: "u16 \<Rightarrow> uart_handle \<Rightarrow> uart_handle" where
  "write_DR d h = h\<lparr> uh_sent := uh_sent h @ [d] \<rparr>"

text \<open>The interrupt line of a USART; EIE counts only for a receiver in DMA mode.\<close>

definition usart_irq :: "uart_handle \<Rightarrow> bool" where
  "usart_irq h \<longleftrightarrow>
     (uh_CR1 h AND USART_CR1_RXNEIE \<noteq> 0 \<and> uh_SR h AND (USART_SR_RXNE OR USART_SR_ORE) \<noteq> 0)
     \<or> (uh_CR3 h AND USART_CR3_EIE \<noteq> 0 \<and> uh_CR3 h AND USART_CR3_DMAR \<noteq> 0
         \<and> uh_SR h AND (USART_SR_FE OR USART_SR_NE OR USART_SR_ORE) \<noteq> 0)
     \<or> (uh_CR1 h AND USART_CR1_PEIE \<noteq> 0 \<and> uh_SR h AND USART_SR_PE \<noteq> 0)
     \<or> (uh_CR1 h AND USART_CR1_IDLEIE \<noteq> 0 \<and> uh_SR h AND USART_SR_IDLE \<noteq> 0)
     \<or> (uh_CR1 h AND USART_CR1_TXEIE \<noteq> 0 \<and> uh_SR h AND USART_SR_TXE \<noteq> 0)
     \<or> (uh_CR1 h AND USART_CR1_TCIE \<noteq> 0 \<and> uh_SR h AND USART_SR_TC \<noteq> 0)"

text \<open>One look of a waiting loop: the transmitter's flags have moved and so has the clock.\<close>

definition usart_look :: "uart_handle \<Rightarrow> uart_handle" where
  "usart_look h =
     h\<lparr> uh_SR := (uh_SR h AND NOT (USART_SR_TXE OR USART_SR_TC))
                  OR (fst (shd (uh_looks h)) AND (USART_SR_TXE OR USART_SR_TC)),
        uh_tick := snd (shd (uh_looks h)), uh_looks := stl (uh_looks h) \<rparr>"

subsection \<open>Set-up\<close>

text \<open>The baud rate register in the 32-bit arithmetic of the macros, the quotient taken at 64 bits.\<close>

definition UART_DIV_SAMPLING16 :: "u32 \<Rightarrow> u32 \<Rightarrow> u32" where
  "UART_DIV_SAMPLING16 pclk baud = ucast ((ucast pclk * 25 :: u64) div (4 * ucast baud))"

definition UART_DIVMANT_SAMPLING16 :: "u32 \<Rightarrow> u32 \<Rightarrow> u32" where
  "UART_DIVMANT_SAMPLING16 pclk baud = UART_DIV_SAMPLING16 pclk baud div 100"

definition UART_DIVFRAQ_SAMPLING16 :: "u32 \<Rightarrow> u32 \<Rightarrow> u32" where
  "UART_DIVFRAQ_SAMPLING16 pclk baud =
     ((UART_DIV_SAMPLING16 pclk baud - UART_DIVMANT_SAMPLING16 pclk baud * 100) * 16 + 50) div 100"

definition UART_BRR_SAMPLING16 :: "u32 \<Rightarrow> u32 \<Rightarrow> u32" where
  "UART_BRR_SAMPLING16 pclk baud =
     push_bit 4 (UART_DIVMANT_SAMPLING16 pclk baud) + (UART_DIVFRAQ_SAMPLING16 pclk baud AND 0xF0)
       + (UART_DIVFRAQ_SAMPLING16 pclk baud AND 0x0F)"

definition UART_DIV_SAMPLING8 :: "u32 \<Rightarrow> u32 \<Rightarrow> u32" where
  "UART_DIV_SAMPLING8 pclk baud = ucast ((ucast pclk * 25 :: u64) div (2 * ucast baud))"

definition UART_DIVMANT_SAMPLING8 :: "u32 \<Rightarrow> u32 \<Rightarrow> u32" where
  "UART_DIVMANT_SAMPLING8 pclk baud = UART_DIV_SAMPLING8 pclk baud div 100"

definition UART_DIVFRAQ_SAMPLING8 :: "u32 \<Rightarrow> u32 \<Rightarrow> u32" where
  "UART_DIVFRAQ_SAMPLING8 pclk baud =
     ((UART_DIV_SAMPLING8 pclk baud - UART_DIVMANT_SAMPLING8 pclk baud * 100) * 8 + 50) div 100"

definition UART_BRR_SAMPLING8 :: "u32 \<Rightarrow> u32 \<Rightarrow> u32" where
  "UART_BRR_SAMPLING8 pclk baud =
     push_bit 4 (UART_DIVMANT_SAMPLING8 pclk baud)
       + push_bit 1 (UART_DIVFRAQ_SAMPLING8 pclk baud AND 0xF8) + (UART_DIVFRAQ_SAMPLING8 pclk baud AND 0x07)"

definition modify_reg :: "u32 \<Rightarrow> u32 \<Rightarrow> u32 \<Rightarrow> u32" where
  "modify_reg reg clear_mask set_mask = (reg AND NOT clear_mask) OR set_mask"

text \<open>\<open>pclk\<close> is the clock of the bus the USART is on.\<close>

definition UART_SetConfig :: "u32 \<Rightarrow> uart_handle \<Rightarrow> uart_handle" where
  "UART_SetConfig pclk h =
     (let i = uh_Init h;
          tmpreg = WordLength i OR Parity i OR Mode i OR OverSampling i;
          h1 = h\<lparr> uh_CR2 := modify_reg (uh_CR2 h) USART_CR2_STOP (StopBits i),
                  uh_CR1 := modify_reg (uh_CR1 h)
                    (USART_CR1_M OR USART_CR1_PCE OR USART_CR1_PS OR USART_CR1_TE OR USART_CR1_RE OR USART_CR1_OVER8)
                    tmpreg,
                  uh_CR3 := modify_reg (uh_CR3 h) (USART_CR3_RTSE OR USART_CR3_CTSE) (HwFlowCtl i) \<rparr>
      in if OverSampling i = UART_OVERSAMPLING_8
         then h1\<lparr> uh_BRR := UART_BRR_SAMPLING8 pclk (BaudRate i) \<rparr>
         else h1\<lparr> uh_BRR := UART_BRR_SAMPLING16 pclk (BaudRate i) \<rparr>)"

text \<open>HAL_UART_Init on an allocated handle; its pins and clocks are HAL_UART_MspInit of the board.\<close>

definition HAL_UART_Init_handle :: "u32 \<Rightarrow> uart_handle \<Rightarrow> hal_status \<times> uart_handle" where
  "HAL_UART_Init_handle pclk h =
     (let h1 = h\<lparr> gState := HAL_UART_STATE_BUSY, uh_CR1 := uh_CR1 h AND NOT USART_CR1_UE \<rparr>;
          h2 = UART_SetConfig pclk h1;
          h3 = h2\<lparr> uh_CR2 := uh_CR2 h2 AND NOT (USART_CR2_LINEN OR USART_CR2_CLKEN),
                   uh_CR3 := uh_CR3 h2 AND NOT (USART_CR3_SCEN OR USART_CR3_HDSEL OR USART_CR3_IREN) \<rparr>;
          h4 = h3\<lparr> uh_CR1 := uh_CR1 h3 OR USART_CR1_UE \<rparr>
      in (HAL_OK, h4\<lparr> ErrorCode := HAL_UART_ERROR_NONE, gState := HAL_UART_STATE_READY,
                      RxState := HAL_UART_STATE_READY, RxEventType := HAL_UART_RXEVENT_TC \<rparr>))"

subsection \<open>Reception by interrupt\<close>

definition UART_Start_Receive_IT :: "u8 list \<Rightarrow> u16 \<Rightarrow> uart_handle \<Rightarrow> hal_status \<times> uart_handle" where
  "UART_Start_Receive_IT pData Size h =
     (let h1 = h\<lparr> rx_mem := pData, pRxBuffPtr := 0, RxXferSize := Size, RxXferCount := Size,
                  ErrorCode := HAL_UART_ERROR_NONE, RxState := HAL_UART_STATE_BUSY_RX \<rparr>;
          h2 = (if Parity (uh_Init h1) \<noteq> UART_PARITY_NONE
                then h1\<lparr> uh_CR1 := uh_CR1 h1 OR USART_CR1_PEIE \<rparr> else h1)
      in (HAL_OK, h2\<lparr> uh_CR3 := uh_CR3 h2 OR USART_CR3_EIE, uh_CR1 := uh_CR1 h2 OR USART_CR1_RXNEIE \<rparr>))"

text \<open>\<open>None\<close> is the null pointer.\<close>

definition HAL_UART_Receive_IT :: "u8 list option \<Rightarrow> u16 \<Rightarrow> uart_handle \<Rightarrow> hal_status \<times> uart_handle" where
  "HAL_UART_Receive_IT pData Size h =
     (if RxState h = HAL_UART_STATE_READY
      then (case pData of
              None \<Rightarrow> (HAL_ERROR, h)
            | Some m \<Rightarrow> if Size = 0 then (HAL_ERROR, h)
                        else UART_Start_Receive_IT m Size (h\<lparr> ReceptionType := HAL_UART_RECEPTION_STANDARD \<rparr>))
      else (HAL_BUSY, h))"

definition UART_EndRxTransfer :: "uart_handle \<Rightarrow> uart_handle" where
  "UART_EndRxTransfer h =
     (let h1 = h\<lparr> uh_CR1 := uh_CR1 h AND NOT (USART_CR1_RXNEIE OR USART_CR1_PEIE),
                  uh_CR3 := uh_CR3 h AND NOT USART_CR3_EIE \<rparr>;
          h2 = (if ReceptionType h1 = HAL_UART_RECEPTION_TOIDLE
                then h1\<lparr> uh_CR1 := uh_CR1 h1 AND NOT USART_CR1_IDLEIE \<rparr> else h1)
      in h2\<lparr> RxState := HAL_UART_STATE_READY, ReceptionType := HAL_UART_RECEPTION_STANDARD \<rparr>)"

text \<open>The callbacks work on the handle and the state of the firmware. The firmware defines the two of
  reception; HAL_UARTEx_RxEventCallback and HAL_UART_TxCpltCallback stay the library's, which do nothing.\<close>

type_synonym 'c uart_callback = "uart_handle \<times> 'c \<Rightarrow> uart_handle \<times> 'c"

text \<open>Taking one value from DR into the caller's buffer: two bytes for nine data bits without parity.\<close>

definition rx_store :: "uart_handle \<Rightarrow> uart_handle" where
  "rx_store h =
     (let p = pRxBuffPtr h; (dr, h1) = read_DR h; i = uh_Init h
      in if WordLength i = UART_WORDLENGTH_9B \<and> Parity i = UART_PARITY_NONE
         then h1\<lparr> rx_mem := (rx_mem h)[p := ucast dr, Suc p := ucast (drop_bit 8 (dr AND 0x01FF))],
                  pRxBuffPtr := p + 2 \<rparr>
         else if WordLength i = UART_WORDLENGTH_9B
                 \<or> WordLength i = UART_WORDLENGTH_8B \<and> Parity i = UART_PARITY_NONE
         then h1\<lparr> rx_mem := (rx_mem h)[p := ucast (dr AND 0x00FF)], pRxBuffPtr := p + 1 \<rparr>
         else h1\<lparr> rx_mem := (rx_mem h)[p := ucast (dr AND 0x007F)], pRxBuffPtr := p + 1 \<rparr>)"

definition clear_IDLE :: "uart_handle \<Rightarrow> uart_handle" where
  "clear_IDLE h = snd (read_DR (snd (read_SR h)))"

definition UART_Receive_IT :: "'c uart_callback \<Rightarrow> 'c uart_callback" where
  "UART_Receive_IT cplt hc =
     (let (h, c) = hc
      in if RxState h = HAL_UART_STATE_BUSY_RX then
           (let h1 = rx_store h;
                h2 = h1\<lparr> RxXferCount := RxXferCount h1 - 1 \<rparr>
            in if RxXferCount h2 = 0 then
                 (let h3 = h2\<lparr> uh_CR1 := uh_CR1 h2 AND NOT USART_CR1_RXNEIE AND NOT USART_CR1_PEIE,
                               uh_CR3 := uh_CR3 h2 AND NOT USART_CR3_EIE,
                               RxState := HAL_UART_STATE_READY, RxEventType := HAL_UART_RXEVENT_TC \<rparr>
                  in if ReceptionType h3 = HAL_UART_RECEPTION_TOIDLE then
                       (let h4 = h3\<lparr> ReceptionType := HAL_UART_RECEPTION_STANDARD,
                                     uh_CR1 := uh_CR1 h3 AND NOT USART_CR1_IDLEIE \<rparr>;
                            (sr, h5) = read_SR h4
                        in (if sr AND USART_SR_IDLE \<noteq> 0 then clear_IDLE h5 else h5, c))
                     else cplt (h3, c))
               else (h2, c))
         else (h, c))"

subsection \<open>Transmission by interrupt\<close>

text \<open>The value the next write to DR takes from a buffer at an index, and how far the index moves.\<close>

definition tx_value :: "UART_InitTypeDef \<Rightarrow> u8 list \<Rightarrow> nat \<Rightarrow> u16" where
  "tx_value i m p =
     (if WordLength i = UART_WORDLENGTH_9B \<and> Parity i = UART_PARITY_NONE
      then (ucast (m ! p) OR push_bit 8 (ucast (m ! Suc p))) AND 0x01FF
      else ucast (m ! p) AND 0x00FF)"

definition tx_step :: "UART_InitTypeDef \<Rightarrow> nat" where
  "tx_step i = (if WordLength i = UART_WORDLENGTH_9B \<and> Parity i = UART_PARITY_NONE then 2 else 1)"

definition UART_Transmit_IT :: "uart_handle \<Rightarrow> hal_status \<times> uart_handle" where
  "UART_Transmit_IT h =
     (if gState h = HAL_UART_STATE_BUSY_TX then
        (let h1 = (write_DR (tx_value (uh_Init h) (tx_mem h) (pTxBuffPtr h)) h)
                    \<lparr> pTxBuffPtr := pTxBuffPtr h + tx_step (uh_Init h), TxXferCount := TxXferCount h - 1 \<rparr>
         in if TxXferCount h1 = 0
            then (HAL_OK, h1\<lparr> uh_CR1 := (uh_CR1 h1 AND NOT USART_CR1_TXEIE) OR USART_CR1_TCIE \<rparr>)
            else (HAL_OK, h1))
      else (HAL_BUSY, h))"

definition UART_EndTransmit_IT :: "uart_handle \<Rightarrow> hal_status \<times> uart_handle" where
  "UART_EndTransmit_IT h =
     (HAL_OK, h\<lparr> uh_CR1 := uh_CR1 h AND NOT USART_CR1_TCIE, gState := HAL_UART_STATE_READY \<rparr>)"

subsection \<open>The interrupt handler\<close>

text \<open>The error code the handler adds from what it read.\<close>

definition uart_error_code :: "u32 \<Rightarrow> u32 \<Rightarrow> u32 \<Rightarrow> u32 \<Rightarrow> u32" where
  "uart_error_code isrflags cr1its cr3its code =
     (let c1 = (if isrflags AND USART_SR_PE \<noteq> 0 \<and> cr1its AND USART_CR1_PEIE \<noteq> 0
                then code OR HAL_UART_ERROR_PE else code);
          c2 = (if isrflags AND USART_SR_NE \<noteq> 0 \<and> cr3its AND USART_CR3_EIE \<noteq> 0
                then c1 OR HAL_UART_ERROR_NE else c1);
          c3 = (if isrflags AND USART_SR_FE \<noteq> 0 \<and> cr3its AND USART_CR3_EIE \<noteq> 0
                then c2 OR HAL_UART_ERROR_FE else c2)
      in if isrflags AND USART_SR_ORE \<noteq> 0
            \<and> (cr1its AND USART_CR1_RXNEIE \<noteq> 0 \<or> cr3its AND USART_CR3_EIE \<noteq> 0)
         then c3 OR HAL_UART_ERROR_ORE else c3)"

definition uart_error_irq :: "'c uart_callback \<Rightarrow> 'c uart_callback \<Rightarrow> u32 \<Rightarrow> u32 \<Rightarrow> u32 \<Rightarrow> 'c uart_callback" where
  "uart_error_irq cplt error isrflags cr1its cr3its hc =
     (let h1 = (fst hc)\<lparr> ErrorCode := uart_error_code isrflags cr1its cr3its (ErrorCode (fst hc)) \<rparr>
      in if ErrorCode h1 \<noteq> HAL_UART_ERROR_NONE then
           (let (h2, c2) = (if isrflags AND USART_SR_RXNE \<noteq> 0 \<and> cr1its AND USART_CR1_RXNEIE \<noteq> 0
                            then UART_Receive_IT cplt (h1, snd hc) else (h1, snd hc))
            in if ErrorCode h2 AND HAL_UART_ERROR_ORE \<noteq> 0 \<or> uh_CR3 h2 AND USART_CR3_DMAR \<noteq> 0 then
                 (let h3 = UART_EndRxTransfer h2
                  in error (h3\<lparr> uh_CR3 := (if uh_CR3 h3 AND USART_CR3_DMAR \<noteq> 0
                                            then uh_CR3 h3 AND NOT USART_CR3_DMAR else uh_CR3 h3) \<rparr>, c2))
               else (let (h3, c3) = error (h2, c2) in (h3\<lparr> ErrorCode := HAL_UART_ERROR_NONE \<rparr>, c3)))
         else (h1, snd hc))"

text \<open>Reception up to an idle line, which the firmware never selects; its branch for a running DMA
  transfer needs a DMA handle, which no UART has, and is left out.\<close>

definition uart_idle_irq :: "uart_handle \<Rightarrow> uart_handle" where
  "uart_idle_irq h =
     (let h1 = clear_IDLE h; nb_rx_data = RxXferSize h1 - RxXferCount h1
      in if uh_CR3 h1 AND USART_CR3_DMAR = 0 \<and> 0 < RxXferCount h1 \<and> 0 < nb_rx_data
         then h1\<lparr> uh_CR1 := uh_CR1 h1 AND NOT (USART_CR1_RXNEIE OR USART_CR1_PEIE) AND NOT USART_CR1_IDLEIE,
                  uh_CR3 := uh_CR3 h1 AND NOT USART_CR3_EIE, RxState := HAL_UART_STATE_READY,
                  ReceptionType := HAL_UART_RECEPTION_STANDARD, RxEventType := HAL_UART_RXEVENT_IDLE \<rparr>
         else h1)"

text \<open>\<open>late\<close> is what arrives between the read of SR and the rest of the handler, which reads DR at most once
  and SR, as far as the firmware uses it, no more: what arrives later is still there for the next interrupt.\<close>

definition HAL_UART_IRQHandler ::
  "'c uart_callback \<Rightarrow> 'c uart_callback \<Rightarrow> (u16 \<times> u32) list \<Rightarrow> 'c uart_callback" where
  "HAL_UART_IRQHandler cplt error late hc =
     (let (isrflags, h0) = read_SR (fst hc);
          h = fold usart_arrive late h0;
          c = snd hc;
          cr1its = uh_CR1 h;
          cr3its = uh_CR3 h;
          errorflags = isrflags AND (USART_SR_PE OR USART_SR_FE OR USART_SR_ORE OR USART_SR_NE)
      in if errorflags = 0 \<and> isrflags AND USART_SR_RXNE \<noteq> 0 \<and> cr1its AND USART_CR1_RXNEIE \<noteq> 0
         then UART_Receive_IT cplt (h, c)
         else if errorflags \<noteq> 0 \<and> (cr3its AND USART_CR3_EIE \<noteq> 0
                   \<or> cr1its AND (USART_CR1_RXNEIE OR USART_CR1_PEIE) \<noteq> 0)
         then uart_error_irq cplt error isrflags cr1its cr3its (h, c)
         else if ReceptionType h = HAL_UART_RECEPTION_TOIDLE \<and> isrflags AND USART_SR_IDLE \<noteq> 0
                   \<and> cr1its AND USART_CR1_IDLEIE \<noteq> 0
         then (uart_idle_irq h, c)
         else if isrflags AND USART_SR_TXE \<noteq> 0 \<and> cr1its AND USART_CR1_TXEIE \<noteq> 0
         then (snd (UART_Transmit_IT h), c)
         else if isrflags AND USART_SR_TC \<noteq> 0 \<and> cr1its AND USART_CR1_TCIE \<noteq> 0
         then (snd (UART_EndTransmit_IT h), c)
         else (h, c))"

subsection \<open>Blocking transmission\<close>

text \<open>\<open>None\<close> is waiting for ever; \<open>status\<close> is the state of the flag that keeps the loop waiting.\<close>

partial_function (option) UART_WaitOnFlagUntilTimeout ::
  "u32 \<Rightarrow> bool \<Rightarrow> u32 \<Rightarrow> u32 \<Rightarrow> uart_handle \<Rightarrow> (hal_status \<times> uart_handle) option" where
  "UART_WaitOnFlagUntilTimeout flag status tickstart timeout h =
     (let (sr, h1) = read_SR (usart_look h)
      in if (sr AND flag = flag) = status then
           (if timeout \<noteq> HAL_MAX_DELAY then
              (if timeout < uh_tick h1 - tickstart \<or> timeout = 0 then Some (HAL_TIMEOUT, h1)
               else if uh_CR1 h1 AND USART_CR1_RE \<noteq> 0 \<and> flag \<noteq> USART_SR_TXE \<and> flag \<noteq> USART_SR_TC then
                 (let (sr2, h2) = read_SR h1
                  in if sr2 AND USART_SR_ORE \<noteq> 0
                     then Some (HAL_ERROR, (UART_EndRxTransfer (snd (read_DR (snd (read_SR h2)))))
                                             \<lparr> ErrorCode := HAL_UART_ERROR_ORE \<rparr>)
                     else UART_WaitOnFlagUntilTimeout flag status tickstart timeout h2)
               else UART_WaitOnFlagUntilTimeout flag status tickstart timeout h1)
            else UART_WaitOnFlagUntilTimeout flag status tickstart timeout h1)
         else Some (HAL_OK, h1))"

text \<open>The pieces of a transmission, between which interrupts may be taken.\<close>

definition tx_begin :: "u16 \<Rightarrow> uart_handle \<Rightarrow> uart_handle" where
  "tx_begin Size h =
     h\<lparr> ErrorCode := HAL_UART_ERROR_NONE, gState := HAL_UART_STATE_BUSY_TX, TxXferSize := Size, TxXferCount := Size \<rparr>"

definition tx_put :: "u16 \<Rightarrow> uart_handle \<Rightarrow> uart_handle" where
  "tx_put d h = (write_DR d h)\<lparr> TxXferCount := TxXferCount h - 1 \<rparr>"

definition tx_end :: "uart_handle \<Rightarrow> uart_handle" where
  "tx_end h = h\<lparr> gState := HAL_UART_STATE_READY \<rparr>"

lemma read_SR_simps [simp]: "fst (read_SR h) = uh_SR h" "snd (read_SR h) = h\<lparr> uh_seen := uh_SR h \<rparr>"
  by (simp_all add: read_SR_def)

lemma usart_look_count [simp]: "TxXferCount (usart_look h) = TxXferCount h"
  by (simp add: usart_look_def)

lemma read_DR_count [simp]: "TxXferCount (snd (read_DR h)) = TxXferCount h"
  by (simp add: read_DR_def)

lemma UART_EndRxTransfer_count [simp]: "TxXferCount (UART_EndRxTransfer h) = TxXferCount h"
  by (simp add: UART_EndRxTransfer_def Let_def)

lemma wait_keeps_count:
  assumes "UART_WaitOnFlagUntilTimeout flag status tickstart timeout h = Some r"
  shows "TxXferCount (snd r) = TxXferCount h"
proof (rule UART_WaitOnFlagUntilTimeout.raw_induct
    [where P = "\<lambda>_ _ _ _ h r. TxXferCount (snd r) = TxXferCount h"], goal_cases)
  case (1 rec flag status tickstart timeout h r)
  show ?case
    using 1(2) by (auto simp: Let_def split_def split: if_splits dest: 1(1))
qed (rule assms)

text \<open>The loop over the values still to send, \<open>p\<close> being the local pointer into the caller's buffer \<open>m\<close>.\<close>

function UART_Transmit_loop ::
  "u8 list \<Rightarrow> nat \<Rightarrow> u32 \<Rightarrow> u32 \<Rightarrow> uart_handle \<Rightarrow> (hal_status \<times> uart_handle) option" where
  "UART_Transmit_loop m p tickstart timeout h =
     (if TxXferCount h = 0 then
        (case UART_WaitOnFlagUntilTimeout USART_SR_TC False tickstart timeout h of
           None \<Rightarrow> None
         | Some (st, h1) \<Rightarrow> Some (if st \<noteq> HAL_OK then HAL_TIMEOUT else HAL_OK, tx_end h1))
      else
        (case UART_WaitOnFlagUntilTimeout USART_SR_TXE False tickstart timeout h of
           None \<Rightarrow> None
         | Some (st, h1) \<Rightarrow> if st \<noteq> HAL_OK then Some (HAL_TIMEOUT, tx_end h1)
                           else UART_Transmit_loop m (p + tx_step (uh_Init h1)) tickstart timeout
                                  (tx_put (tx_value (uh_Init h1) m p) h1)))"
  by pat_completeness auto
termination
  by (relation "measure (\<lambda>(_, _, _, _, h). unat (TxXferCount h))")
    (auto simp: tx_put_def write_DR_def dest!: wait_keeps_count intro: measure_unat)

declare UART_Transmit_loop.simps [simp del]

definition HAL_UART_Transmit_handle ::
  "u8 list option \<Rightarrow> u16 \<Rightarrow> u32 \<Rightarrow> uart_handle \<Rightarrow> (hal_status \<times> uart_handle) option" where
  "HAL_UART_Transmit_handle pData Size Timeout h =
     (if gState h = HAL_UART_STATE_READY then
        (case pData of
           None \<Rightarrow> Some (HAL_ERROR, h)
         | Some m \<Rightarrow>
             if Size = 0 then Some (HAL_ERROR, h)
             else UART_Transmit_loop m 0 (uh_tick h) Timeout (tx_begin Size h))
      else Some (HAL_BUSY, h))"

end
