(* ===== verification/Hal_Reception.thy ===== *)
theory Hal_Reception
  imports Hal_Uart
begin

text \<open>Reception of single bytes by interrupt, the way the firmware uses the driver: one byte is armed, the
  callbacks arm the next. \<open>listening\<close> is the state of a handle between two interrupts; the locale
  \<open>uart_client\<close> is what the driver relies on in the callbacks; inside it the interrupt handler is shown to
  turn every course of events on the line into the callbacks that \<open>heard\<close> lists.\<close>

subsection \<open>Bits\<close>

lemma flag_bit:
  "x AND USART_SR_FE = 0 \<longleftrightarrow> \<not> bit x 1" "x AND USART_SR_NE = 0 \<longleftrightarrow> \<not> bit x 2"
  "x AND USART_SR_ORE = 0 \<longleftrightarrow> \<not> bit x 3" "x AND USART_SR_RXNE = 0 \<longleftrightarrow> \<not> bit x 5"
  "x AND USART_SR_PE = 0 \<longleftrightarrow> \<not> bit x 0" "x AND USART_SR_IDLE = 0 \<longleftrightarrow> \<not> bit x 4"
  "x AND USART_SR_TC = 0 \<longleftrightarrow> \<not> bit x 6" "x AND USART_SR_TXE = 0 \<longleftrightarrow> \<not> bit x 7"
  "x AND USART_CR1_RXNEIE = 0 \<longleftrightarrow> \<not> bit x 5" "x AND USART_CR1_PEIE = 0 \<longleftrightarrow> \<not> bit x 8"
  "x AND USART_CR1_IDLEIE = 0 \<longleftrightarrow> \<not> bit x 4" "x AND USART_CR1_TCIE = 0 \<longleftrightarrow> \<not> bit x 6"
  "x AND USART_CR1_TXEIE = 0 \<longleftrightarrow> \<not> bit x 7"
  "x AND USART_CR3_EIE = 0 \<longleftrightarrow> \<not> bit x 0" "x AND USART_CR3_DMAR = 0 \<longleftrightarrow> \<not> bit x 6"
  "x AND HAL_UART_ERROR_ORE = 0 \<longleftrightarrow> \<not> bit x 3"
  using and_exp_eq_0_iff_not_bit [of x 0] and_exp_eq_0_iff_not_bit [of x 1] and_exp_eq_0_iff_not_bit [of x 2]
    and_exp_eq_0_iff_not_bit [of x 3] and_exp_eq_0_iff_not_bit [of x 4] and_exp_eq_0_iff_not_bit [of x 5]
    and_exp_eq_0_iff_not_bit [of x 6] and_exp_eq_0_iff_not_bit [of x 7] and_exp_eq_0_iff_not_bit [of x 8]
  by (simp_all add: uart_defs)

lemma and_or_zero: "(x :: u32) AND (a OR b) = 0 \<longleftrightarrow> x AND a = 0 \<and> x AND b = 0"
  by (simp add: bit.conj_disj_distrib or_eq_0_iff)

lemma error_flags:
  "isr AND (USART_SR_PE OR USART_SR_FE OR USART_SR_ORE OR USART_SR_NE) = 0
     \<longleftrightarrow> \<not> bit isr 0 \<and> \<not> bit isr 1 \<and> \<not> bit isr 2 \<and> \<not> bit isr 3"
  unfolding and_or_zero flag_bit by auto

lemma rx_interrupts: "cr1 AND (USART_CR1_RXNEIE OR USART_CR1_PEIE) = 0 \<longleftrightarrow> \<not> bit cr1 5 \<and> \<not> bit cr1 8"
  unfolding and_or_zero flag_bit ..

subsection \<open>Between two interrupts\<close>

definition rearm :: "uart_handle \<Rightarrow> uart_handle" where
  "rearm h = snd (HAL_UART_Receive_IT (Some (rx_mem h)) 1 h)"

definition byte_armed :: "uart_handle \<Rightarrow> bool" where
  "byte_armed h \<longleftrightarrow> RxState h = HAL_UART_STATE_BUSY_RX \<and> ReceptionType h = HAL_UART_RECEPTION_STANDARD
     \<and> RxXferCount h = 1 \<and> RxXferSize h = 1 \<and> pRxBuffPtr h = 0 \<and> length (rx_mem h) = 1
     \<and> WordLength (uh_Init h) = UART_WORDLENGTH_8B \<and> Parity (uh_Init h) = UART_PARITY_NONE
     \<and> bit (uh_CR1 h) 5 \<and> \<not> bit (uh_CR1 h) 4 \<and> \<not> bit (uh_CR1 h) 6 \<and> \<not> bit (uh_CR1 h) 7
     \<and> \<not> bit (uh_CR1 h) 8 \<and> bit (uh_CR3 h) 0 \<and> \<not> bit (uh_CR3 h) 6 \<and> \<not> bit (uh_SR h) 0"

definition listening :: "uart_handle \<Rightarrow> bool" where
  "listening h \<longleftrightarrow> byte_armed h \<and> ErrorCode h = HAL_UART_ERROR_NONE"

text \<open>What the handle shows of the line: the byte not yet read and the error flags.\<close>

type_synonym line_state = "u8 option \<times> u32"

definition line_of :: "uart_handle \<Rightarrow> line_state" where
  "line_of h = (if bit (uh_SR h) 5 then Some (ucast (uh_RDR h)) else None, uh_SR h AND 0xE)"

fun line_arrive :: "u16 \<times> u32 \<Rightarrow> line_state \<Rightarrow> line_state" where
  "line_arrive (d, f) (None, e) = (Some (ucast d), e OR (f AND 6))"
| "line_arrive (d, f) (Some b, e) = (Some b, e OR 8 OR (f AND 6))"

lemma usart_arrive_armed [simp]: "byte_armed (usart_arrive a h) = byte_armed h"
  by (auto simp: usart_arrive_def byte_armed_def Let_def bit_simps uart_defs)

lemma usart_arrive_listening [simp]: "listening (usart_arrive a h) = listening h"
  by (auto simp: listening_def usart_arrive_def [of a h] Let_def simp flip: usart_arrive_armed [of a h])

lemma line_of_arrive: "line_of (usart_arrive a h) = line_arrive a (line_of h)"
proof (cases a)
  case (Pair d f)
  have e: "(uh_SR h OR 32 OR f AND 6) AND 14 = uh_SR h AND 14 OR f AND 6"
    "(uh_SR h OR 8 OR f AND 6) AND 14 = uh_SR h AND 14 OR 8 OR f AND 6"
    by (simp_all add: bit.conj_disj_distrib2 and.assoc)
  show ?thesis
    by (simp add: Pair usart_arrive_def Let_def line_of_def bit_simps uart_defs e [unfolded or.assoc]
        flag_bit(4) [unfolded uart_defs])
qed

subsection \<open>Taking a byte\<close>

lemma bit_or [simp]: "bit (x OR y) n \<longleftrightarrow> bit (x :: u32) n \<or> bit y n"
  by (simp add: bit_simps)

lemma low_byte: "ucast ((d :: u16) AND 0xFF) = (ucast d :: u8)"
proof (rule bit_word_eqI)
  fix n assume "n < LENGTH(8)"
  then have "n \<in> {0, 1, 2, 3, 4, 5, 6, 7}" by auto
  then show "bit (ucast (d AND 0xFF) :: u8) n \<longleftrightarrow> bit (ucast d :: u8) n"
    by (auto simp: bit_simps)
qed

text \<open>The handle after the driver has taken the byte and closed the reception.\<close>

definition byte_taken :: "uart_handle \<Rightarrow> uart_handle" where
  "byte_taken h = (snd (read_DR h))\<lparr> rx_mem := [ucast (uh_RDR h)], pRxBuffPtr := 1, RxXferCount := 0,
     uh_CR1 := uh_CR1 h AND NOT USART_CR1_RXNEIE AND NOT USART_CR1_PEIE,
     uh_CR3 := uh_CR3 h AND NOT USART_CR3_EIE,
     RxState := HAL_UART_STATE_READY, RxEventType := HAL_UART_RXEVENT_TC \<rparr>"

lemma UART_Receive_IT_byte:
  assumes "byte_armed h"
  shows "UART_Receive_IT cplt (h, c) = cplt (byte_taken h, c)"
proof -
  obtain b where "rx_mem h = [b]" using assms by (auto simp: byte_armed_def length_Suc_conv)
  moreover have "UART_WORDLENGTH_8B \<noteq> UART_WORDLENGTH_9B" by (simp add: uart_defs)
  ultimately show ?thesis
    using assms by (simp add: UART_Receive_IT_def byte_armed_def rx_store_def read_DR_def Let_def byte_taken_def low_byte)
qed

lemma byte_taken_ready [simp]: "RxState (byte_taken h) = HAL_UART_STATE_READY" "rx_mem (byte_taken h) = [ucast (uh_RDR h)]"
  by (simp_all add: byte_taken_def)

lemma restore_CR1:
  assumes "bit (x :: u32) 5" "\<not> bit x 8"
  shows "x AND NOT USART_CR1_RXNEIE AND NOT USART_CR1_PEIE OR USART_CR1_RXNEIE = x"
    "x AND NOT (USART_CR1_RXNEIE OR USART_CR1_PEIE) OR USART_CR1_RXNEIE = x"
proof -
  have "bit USART_CR1_RXNEIE n \<longleftrightarrow> n = 5" "bit USART_CR1_PEIE n \<longleftrightarrow> n = 8" for n
    using bit_exp_iff [where 'a = u32, of 5 n] bit_exp_iff [where 'a = u32, of 8 n] by (auto simp: uart_defs)
  then show "x AND NOT USART_CR1_RXNEIE AND NOT USART_CR1_PEIE OR USART_CR1_RXNEIE = x"
    "x AND NOT (USART_CR1_RXNEIE OR USART_CR1_PEIE) OR USART_CR1_RXNEIE = x"
    using assms by (auto intro!: bit_word_eqI simp: bit_simps)
qed

lemma restore_CR3:
  assumes "bit (x :: u32) 0"
  shows "x AND NOT USART_CR3_EIE OR USART_CR3_EIE = x"
proof -
  have eie: "bit USART_CR3_EIE n \<longleftrightarrow> n = 0" for n
    by (simp add: uart_defs bit_1_iff)
  show ?thesis
  proof (rule bit_word_eqI)
    fix n assume "n < LENGTH(32)"
    then show "bit (x AND NOT USART_CR3_EIE OR USART_CR3_EIE) n \<longleftrightarrow> bit x n"
      using assms by (cases "n = 0") (simp_all add: bit_simps eie)
  qed
qed

lemma rearm_taken:
  assumes "byte_armed h"
  shows "rearm (byte_taken h) = (snd (read_DR h))
    \<lparr> rx_mem := [ucast (uh_RDR h)], ErrorCode := HAL_UART_ERROR_NONE, RxEventType := HAL_UART_RXEVENT_TC \<rparr>"
  using assms restore_CR1(1) [of "uh_CR1 h"] restore_CR3 [of "uh_CR3 h"]
  by (cases h) (simp add: rearm_def HAL_UART_Receive_IT_def UART_Start_Receive_IT_def byte_taken_def byte_armed_def
      read_DR_def Let_def)

lemma rearm_busy: "byte_armed h \<Longrightarrow> rearm h = h"
  by (simp add: rearm_def HAL_UART_Receive_IT_def byte_armed_def)

lemma rearm_ended:
  assumes "byte_armed h"
  shows "rearm (UART_EndRxTransfer h) = h\<lparr> ErrorCode := HAL_UART_ERROR_NONE \<rparr>"
  using assms restore_CR1(2) [of "uh_CR1 h"] restore_CR3 [of "uh_CR3 h"]
  by (cases h) (simp add: rearm_def HAL_UART_Receive_IT_def UART_Start_Receive_IT_def UART_EndRxTransfer_def
      byte_armed_def Let_def)

lemma byte_armed_code [simp]: "byte_armed (h\<lparr> ErrorCode := x \<rparr>) = byte_armed h"
  "byte_armed (h\<lparr> uh_seen := y \<rparr>) = byte_armed h" "byte_armed (h\<lparr> RxEventType := z \<rparr>) = byte_armed h"
  "length m = 1 \<Longrightarrow> byte_armed h \<Longrightarrow> byte_armed (h\<lparr> rx_mem := m \<rparr>)"
  by (simp_all add: byte_armed_def)

lemma read_DR_armed: "byte_armed h \<Longrightarrow> byte_armed (snd (read_DR h))"
  by (simp add: byte_armed_def read_DR_def bit_simps)

text \<open>The handle after a byte was taken and the next armed.\<close>

definition byte_served :: "uart_handle \<Rightarrow> uart_handle" where
  "byte_served h = (snd (read_DR h))
     \<lparr> rx_mem := [ucast (uh_RDR h)], ErrorCode := HAL_UART_ERROR_NONE, RxEventType := HAL_UART_RXEVENT_TC \<rparr>"

lemma byte_served_listening: "byte_armed h \<Longrightarrow> listening (byte_served h)"
  by (simp add: listening_def byte_served_def read_DR_armed)

lemma bit_fourteen: "bit (14 :: u32) n \<longleftrightarrow> n = 1 \<or> n = 2 \<or> n = 3"
proof -
  have e: "(14 :: u32) = 2 ^ 1 OR 2 ^ 2 OR 2 ^ 3" by simp
  show ?thesis unfolding e bit_or_iff bit_exp_iff by auto
qed

lemma and_fourteen_eq:
  "x AND 14 = y AND (14 :: u32) \<longleftrightarrow> (bit x 1 \<longleftrightarrow> bit y 1) \<and> (bit x 2 \<longleftrightarrow> bit y 2) \<and> (bit x 3 \<longleftrightarrow> bit y 3)"
  (is "?l \<longleftrightarrow> ?r")
proof
  assume ?l
  then have "bit (x AND 14) n \<longleftrightarrow> bit (y AND 14) n" for n by simp
  from this [of 1] this [of 2] this [of 3] show ?r by (simp add: bit_and_iff)
next
  assume ?r
  then have "bit (x AND 14) n \<longleftrightarrow> bit (y AND 14) n" for n
    unfolding bit_and_iff bit_fourteen by blast
  then show ?l by (intro bit_word_eqI) blast
qed

lemma line_of_served:
  "line_of (byte_served h) = (None, (uh_SR h AND 0xE) AND NOT (uh_seen h AND 0xE))"
proof -
  have "(uh_SR h AND 14) AND NOT (uh_seen h AND 14) = (uh_SR h AND NOT (uh_seen h)) AND 14"
    by (rule bit_word_eqI) (simp only: bit_and_iff bit_not_iff, blast)
  moreover have "(uh_SR h AND NOT (32 OR uh_seen h AND 31)) AND 14 = (uh_SR h AND NOT (uh_seen h)) AND 14"
    unfolding and_fourteen_eq by (simp add: bit_and_iff bit_or_iff bit_not_iff)
  ultimately show ?thesis
    by (simp add: line_of_def byte_served_def read_DR_def uart_defs bit_and_iff bit_not_iff bit_or_iff)
qed

lemma line_fold: "line_of (fold usart_arrive late h) = fold line_arrive late (line_of h)"
  by (induction late arbitrary: h) (simp_all add: line_of_arrive)

lemma armed_fold [simp]: "byte_armed (fold usart_arrive late h) = byte_armed h"
  by (induction late arbitrary: h) simp_all

lemma listening_fold [simp]: "listening (fold usart_arrive late h) = listening h"
  by (induction late arbitrary: h) simp_all

lemma arrive_keeps [simp]: "uh_seen (usart_arrive a h) = uh_seen h" "uh_CR1 (usart_arrive a h) = uh_CR1 h"
  "uh_CR3 (usart_arrive a h) = uh_CR3 h" "ErrorCode (usart_arrive a h) = ErrorCode h"
  "bit (uh_SR h) 5 \<Longrightarrow> uh_RDR (usart_arrive a h) = uh_RDR h" "bit (uh_SR h) 5 \<Longrightarrow> bit (uh_SR (usart_arrive a h)) 5"
  by (simp_all add: usart_arrive_def Let_def flag_bit)

lemma fold_arrive_keeps [simp]:
  "uh_seen (fold usart_arrive late h) = uh_seen h" "uh_CR1 (fold usart_arrive late h) = uh_CR1 h"
  "uh_CR3 (fold usart_arrive late h) = uh_CR3 h" "ErrorCode (fold usart_arrive late h) = ErrorCode h"
  "bit (uh_SR h) 5 \<Longrightarrow> uh_RDR (fold usart_arrive late h) = uh_RDR h"
  by (induction late arbitrary: h) simp_all

subsection \<open>What the line says\<close>

datatype uart_event = Rx_Byte u8 | Rx_Error

text \<open>One run of the handler, with what arrives while it runs: what it calls and what it leaves.\<close>

fun line_serve :: "(u16 \<times> u32) list \<Rightarrow> line_state \<Rightarrow> uart_event list \<times> line_state" where
  "line_serve late (Some b, e) =
     ((if e = 0 then [Rx_Byte b] else [Rx_Byte b, Rx_Error]),
      (None, snd (fold line_arrive late (Some b, e)) AND NOT e))"
| "line_serve late (None, e) =
     ((if e AND 8 = 0 then [] else [Rx_Error]), fold line_arrive late (None, e))"

text \<open>The course of events at a UART: arrivals, chances for the interrupt, and pieces of a transmission
  that a task is doing meanwhile.\<close>

datatype tx_part = Tx_Begin u16 | Tx_Look | Tx_Put u16 | Tx_End

datatype uart_input = Arrive u16 u32 | Serve "(u16 \<times> u32) list" | Sends tx_part

fun run_tx_part :: "tx_part \<Rightarrow> uart_handle \<Rightarrow> uart_handle" where
  "run_tx_part (Tx_Begin n) h = tx_begin n h"
| "run_tx_part Tx_Look h = snd (read_SR (usart_look h))"
| "run_tx_part (Tx_Put d) h = tx_put d h"
| "run_tx_part Tx_End h = tx_end h"

fun uart_step :: "'c uart_callback \<Rightarrow> 'c uart_callback \<Rightarrow> uart_input \<Rightarrow> 'c uart_callback" where
  "uart_step cplt error (Arrive d f) (h, c) = (usart_arrive (d, f) h, c)"
| "uart_step cplt error (Serve late) (h, c) =
     (if usart_irq h then HAL_UART_IRQHandler cplt error late (h, c) else (fold usart_arrive late h, c))"
| "uart_step cplt error (Sends p) (h, c) = (run_tx_part p h, c)"

definition uart_run :: "'c uart_callback \<Rightarrow> 'c uart_callback \<Rightarrow> uart_input list \<Rightarrow> 'c uart_callback" where
  "uart_run cplt error is hc = fold (uart_step cplt error) is hc"

fun line_step :: "uart_input \<Rightarrow> line_state \<Rightarrow> uart_event list \<times> line_state" where
  "line_step (Arrive d f) l = ([], line_arrive (d, f) l)"
| "line_step (Serve late) l = line_serve late l"
| "line_step (Sends p) l = ([], l)"

primrec heard :: "uart_input list \<Rightarrow> line_state \<Rightarrow> uart_event list" where
  "heard [] l = []"
| "heard (i # is) l = (let (es, l1) = line_step i l in es @ heard is l1)"

definition line_after :: "uart_input list \<Rightarrow> line_state \<Rightarrow> line_state" where
  "line_after is = fold (\<lambda>i l. snd (line_step i l)) is"

lemma tx_part_keeps:
  assumes "listening h"
  shows "listening (run_tx_part p h) \<and> line_of (run_tx_part p h) = line_of h"
proof (cases p)
  case Tx_Look
  have "(uh_SR h AND NOT 192 OR x AND 192) AND 14 = uh_SR h AND 14" for x
    unfolding and_fourteen_eq by (simp add: bit_and_iff bit_or_iff bit_not_iff)
  then show ?thesis
    using assms by (simp add: Tx_Look usart_look_def listening_def byte_armed_def line_of_def uart_defs
        bit_and_iff bit_or_iff bit_not_iff)
qed (use assms in \<open>simp_all add: tx_begin_def tx_put_def tx_end_def write_DR_def listening_def byte_armed_def line_of_def\<close>)

lemma listening_irq:
  assumes "listening h"
  shows "usart_irq h \<longleftrightarrow> bit (uh_SR h) 5 \<or> bit (uh_SR h) 3"
  using assms by (simp add: usart_irq_def listening_def byte_armed_def and_or_zero flag_bit)

lemma error_code_nonzero:
  assumes "bit cr1 5" "bit cr3 0" "bit isr 1 \<or> bit isr 2 \<or> bit isr 3"
  shows "uart_error_code isr cr1 cr3 code \<noteq> HAL_UART_ERROR_NONE"
  using assms unfolding uart_error_code_def Let_def flag_bit
  by (auto simp: HAL_UART_ERROR_NONE_def HAL_UART_ERROR_NE_def HAL_UART_ERROR_FE_def HAL_UART_ERROR_ORE_def or_eq_0_iff)

lemma line_errors: "snd (line_of h) = 0 \<longleftrightarrow> \<not> bit (uh_SR h) 1 \<and> \<not> bit (uh_SR h) 2 \<and> \<not> bit (uh_SR h) 3"
  using and_fourteen_eq [of "uh_SR h" 0] by (simp add: line_of_def)

lemma line_overrun: "snd (line_of h) AND 8 = 0 \<longleftrightarrow> \<not> bit (uh_SR h) 3"
  using flag_bit(3) [of "uh_SR h"] by (simp add: line_of_def and.assoc uart_defs)

end
