(* ===== verification/Hal_Client.thy ===== *)
theory Hal_Client
  imports Hal_Reception
begin

text \<open>The contract between the driver and the callbacks of the firmware, as a locale, and what the driver
  does for every client that keeps it.\<close>

text \<open>\<open>cplt\<close> and \<open>error\<close> are the callbacks on the handle; \<open>on_byte\<close> and \<open>on_error\<close> what they do to the state
  of the firmware. Both arm the next byte with the buffer of the last.\<close>

locale uart_client =
  fixes cplt :: "'c uart_callback"
    and error :: "'c uart_callback"
    and on_byte :: "u8 \<Rightarrow> 'c \<Rightarrow> 'c"
    and on_error :: "'c \<Rightarrow> 'c"
    and ready :: "'c \<Rightarrow> bool"
  assumes cplt: "ready c \<Longrightarrow> RxState h = HAL_UART_STATE_READY
      \<Longrightarrow> cplt (h, c) = (rearm h, on_byte (rx_mem h ! 0) c)"
    and error: "ready c \<Longrightarrow> error (h, c) = (rearm h, on_error c)"
    and ready_byte: "ready c \<Longrightarrow> ready (on_byte b c)"
    and ready_error: "ready c \<Longrightarrow> ready (on_error c)"
begin

definition on_event :: "uart_event \<Rightarrow> 'c \<Rightarrow> 'c" where
  "on_event e c = (case e of Rx_Byte b \<Rightarrow> on_byte b c | Rx_Error \<Rightarrow> on_error c)"

lemma ready_event: "ready c \<Longrightarrow> ready (on_event e c)"
  by (simp add: on_event_def ready_byte ready_error split: uart_event.split)

lemma take_byte:
  assumes "byte_armed h" "ready c"
  shows "UART_Receive_IT cplt (h, c) = (byte_served h, on_byte (ucast (uh_RDR h)) c)"
  using assms cplt [of c "byte_taken h"] by (simp add: UART_Receive_IT_byte rearm_taken byte_served_def)

lemma error_with_byte:
  assumes "byte_armed h" "ready c" "bit isr 5" "bit cr1 5"
    and "uart_error_code isr cr1 cr3 (ErrorCode h) \<noteq> HAL_UART_ERROR_NONE"
  shows "uart_error_irq cplt error isr cr1 cr3 (h, c) = (byte_served h, on_error (on_byte (ucast (uh_RDR h)) c))"
proof -
  let ?h = "h\<lparr> ErrorCode := uart_error_code isr cr1 cr3 (ErrorCode h) \<rparr>"
  have take: "UART_Receive_IT cplt (?h, c) = (byte_served h, on_byte (ucast (uh_RDR h)) c)"
    using take_byte [of ?h c] assms by (simp add: byte_served_def read_DR_def)
  have served: "listening (byte_served h)" using assms(1) by (rule byte_served_listening)
  then have "ErrorCode (byte_served h) = 0" "\<not> bit (uh_CR3 (byte_served h)) 6" "rearm (byte_served h) = byte_served h"
    by (simp_all add: listening_def byte_armed_def rearm_busy uart_defs)
  moreover have "(byte_served h)\<lparr> ErrorCode := HAL_UART_ERROR_NONE \<rparr> = byte_served h"
    by (simp add: byte_served_def)
  ultimately show ?thesis
    using assms(2-5) error [of "on_byte (ucast (uh_RDR h)) c" "byte_served h"]
    by (simp add: uart_error_irq_def take flag_bit ready_byte)
qed

lemma error_alone:
  assumes "byte_armed h" "ErrorCode h = HAL_UART_ERROR_NONE" "ready c" "\<not> bit isr 5"
    and "uart_error_code isr cr1 cr3 (ErrorCode h) \<noteq> HAL_UART_ERROR_NONE"
  shows "uart_error_irq cplt error isr cr1 cr3 (h, c) = (h, on_error c)"
proof -
  let ?h = "h\<lparr> ErrorCode := uart_error_code isr cr1 cr3 (ErrorCode h) \<rparr>"
  have armed: "byte_armed ?h" using assms(1) by simp
  have same: "h\<lparr> ErrorCode := HAL_UART_ERROR_NONE \<rparr> = h" using assms(2) by (cases h) simp
  have dma: "\<not> bit (uh_CR3 h) 6" "\<not> bit (uh_CR3 (UART_EndRxTransfer ?h)) 6"
    using assms(1) by (simp_all add: byte_armed_def UART_EndRxTransfer_def Let_def bit_and_iff)
  have ended: "rearm (UART_EndRxTransfer ?h) = h"
    using rearm_ended [OF armed] same by simp
  have id: "(UART_EndRxTransfer ?h)\<lparr> uh_CR3 := uh_CR3 (UART_EndRxTransfer ?h) \<rparr> = UART_EndRxTransfer ?h"
    by simp
  show ?thesis
    using assms(3-5) dma error [of c ?h] error [of c "UART_EndRxTransfer ?h"] rearm_busy [OF armed]
    by (simp add: uart_error_irq_def flag_bit Let_def ended id same split: prod.split)
qed

lemma handler_entry:
  assumes "listening h"
  shows "HAL_UART_IRQHandler cplt error late (h, c) =
    (let h1 = fold usart_arrive late (h\<lparr> uh_seen := uh_SR h \<rparr>)
     in if snd (line_of h) \<noteq> 0 then uart_error_irq cplt error (uh_SR h) (uh_CR1 h) (uh_CR3 h) (h1, c)
        else if bit (uh_SR h) 5 then UART_Receive_IT cplt (h1, c) else (h1, c))"
proof -
  let ?h = "fold usart_arrive late (h\<lparr> uh_seen := uh_SR h \<rparr>)"
  have "byte_armed ?h" using assms by (simp add: listening_def)
  then have std: "ReceptionType ?h = HAL_UART_RECEPTION_STANDARD" by (simp add: byte_armed_def)
  have h: "bit (uh_CR1 h) 5" "\<not> bit (uh_CR1 h) 6" "\<not> bit (uh_CR1 h) 7" "\<not> bit (uh_CR1 h) 8" "bit (uh_CR3 h) 0"
    "\<not> bit (uh_SR h) 0"
    using assms by (simp_all add: listening_def byte_armed_def)
  show ?thesis
    unfolding HAL_UART_IRQHandler_def Let_def split_def read_SR_simps fst_conv snd_conv fold_arrive_keeps
      error_flags rx_interrupts line_errors
    using h std by (simp add: flag_bit)
qed

lemma handler_served:
  assumes "listening h" "ready c" "usart_irq h"
  shows "\<exists>h'. HAL_UART_IRQHandler cplt error late (h, c)
      = (h', fold on_event (fst (line_serve late (line_of h))) c)
    \<and> listening h' \<and> line_of h' = snd (line_serve late (line_of h))"
proof -
  let ?h = "fold usart_arrive late (h\<lparr> uh_seen := uh_SR h \<rparr>)"
  have seen: "line_of (h\<lparr> uh_seen := x \<rparr>) = line_of h" "listening (h\<lparr> uh_seen := x \<rparr>) = listening h" for x
    by (simp_all add: line_of_def listening_def)
  have armed: "byte_armed ?h" "ErrorCode ?h = HAL_UART_ERROR_NONE" "listening ?h"
    using assms(1) by (simp_all add: listening_def)
  have line: "line_of ?h = fold line_arrive late (line_of h)" by (simp add: line_fold seen)
  have code: "snd (line_of h) \<noteq> 0 \<Longrightarrow> uart_error_code (uh_SR h) (uh_CR1 h) (uh_CR3 h) (ErrorCode ?h) \<noteq> HAL_UART_ERROR_NONE"
    using assms(1) by (intro error_code_nonzero) (simp_all add: listening_def byte_armed_def line_errors)
  have cr1: "bit (uh_CR1 h) 5" using assms(1) by (simp add: listening_def byte_armed_def)
  show ?thesis
  proof (cases "bit (uh_SR h) 5")
    case True
    have h: "line_of h = (Some (ucast (uh_RDR h)), uh_SR h AND 14)" by (simp add: line_of_def True)
    have "uh_RDR ?h = uh_RDR h" by (simp add: True)
    moreover have "uh_SR ?h AND 14 = snd (fold line_arrive late (line_of h))"
      using arg_cong [OF line, of snd] by (simp add: line_of_def [of ?h])
    then have "line_of (byte_served ?h) = snd (line_serve late (line_of h))"
      by (simp add: line_of_served h)
    moreover have "listening (byte_served ?h)" using armed(1) by (rule byte_served_listening)
    ultimately show ?thesis
      using error_with_byte [OF armed(1) assms(2) True cr1 code] take_byte [OF armed(1) assms(2)]
      by (auto simp: handler_entry [OF assms(1)] Let_def True h on_event_def)
  next
    case False
    have h: "line_of h = (None, uh_SR h AND 14)" by (simp add: line_of_def False)
    have ore: "snd (line_of h) AND 8 \<noteq> 0"
      using assms(1,3) False by (simp add: line_overrun listening_irq)
    then have "snd (line_of h) \<noteq> 0" by auto
    moreover have "line_of ?h = snd (line_serve late (line_of h))"
      using line by (simp add: h)
    ultimately show ?thesis
      using error_alone [OF armed(1,2) assms(2) False code] armed(3) ore
      by (auto simp: handler_entry [OF assms(1)] Let_def h on_event_def)
  qed
qed

lemma step_heard:
  assumes "listening h" "ready c"
  shows "\<exists>h'. uart_step cplt error i (h, c) = (h', fold on_event (fst (line_step i (line_of h))) c)
    \<and> listening h' \<and> line_of h' = snd (line_step i (line_of h))"
proof (cases i)
  case (Serve late)
  show ?thesis
  proof (cases "usart_irq h")
    case True
    then show ?thesis using handler_served [OF assms True, of late] by (simp add: Serve)
  next
    case False
    then have "\<not> bit (uh_SR h) 5" "snd (line_of h) AND 8 = 0"
      using assms(1) by (simp_all add: listening_irq line_overrun)
    then have "line_serve late (line_of h) = ([], fold line_arrive late (line_of h))"
      by (simp add: line_of_def)
    then show ?thesis using False assms(1) by (simp add: Serve line_fold)
  qed
qed (use assms in \<open>simp_all add: line_of_arrive tx_part_keeps\<close>)

lemma events_ready: "ready c \<Longrightarrow> ready (fold on_event es c)"
  by (induction es arbitrary: c) (simp_all add: ready_event)

lemma run_heard:
  assumes "listening h" "ready c"
  shows "\<exists>h'. uart_run cplt error is (h, c) = (h', fold on_event (heard is (line_of h)) c) \<and> listening h'
    \<and> line_of h' = line_after is (line_of h)"
  using assms
proof (induction "is" arbitrary: h c)
  case Nil
  then show ?case by (simp add: uart_run_def line_after_def)
next
  case (Cons i "is")
  let ?r = "line_step i (line_of h)"
  obtain h1 where h1: "uart_step cplt error i (h, c) = (h1, fold on_event (fst ?r) c)" "listening h1" "line_of h1 = snd ?r"
    using step_heard [OF Cons.prems] by blast
  show ?case
    using Cons.IH [OF h1(2) events_ready [OF Cons.prems(2)], of "fst ?r"]
    by (simp add: uart_run_def h1(1,3) split_def Let_def line_after_def)
qed

end

subsection \<open>Boot\<close>

text \<open>A handle out of reset, set up and armed by the first call, listens on an idle line.\<close>

definition uart_reset :: "UART_InitTypeDef \<Rightarrow> u8 \<Rightarrow> (u32 \<times> u32) stream \<Rightarrow> uart_handle" where
  "uart_reset i x looks =
     \<lparr> uh_SR = 0xC0, uh_RDR = 0, uh_seen = 0, uh_sent = [], uh_BRR = 0, uh_CR1 = 0, uh_CR2 = 0, uh_CR3 = 0,
       uh_Init = i, tx_mem = [], pTxBuffPtr = 0, TxXferSize = 0, TxXferCount = 0,
       rx_mem = [x], pRxBuffPtr = 0, RxXferSize = 0, RxXferCount = 0,
       ReceptionType = HAL_UART_RECEPTION_STANDARD, RxEventType = HAL_UART_RXEVENT_TC,
       gState = HAL_UART_STATE_RESET, RxState = HAL_UART_STATE_RESET, ErrorCode = 0, uh_tick = 0,
       uh_looks = looks \<rparr>"

definition uart_started :: "u32 \<Rightarrow> uart_init \<Rightarrow> u8 \<Rightarrow> (u32 \<times> u32) stream \<Rightarrow> uart_handle" where
  "uart_started pclk cfg x looks =
     rearm (snd (HAL_UART_Init_handle pclk (uart_reset (init_bits cfg) x looks)))"

lemma uart_started_listening:
  "listening (uart_started pclk uart_115200_8n1 x looks) \<and> line_of (uart_started pclk uart_115200_8n1 x looks) = (None, 0)
   \<and> gState (uart_started pclk uart_115200_8n1 x looks) = HAL_UART_STATE_READY"
  by (simp add: uart_started_def rearm_def HAL_UART_Receive_IT_def UART_Start_Receive_IT_def HAL_UART_Init_handle_def
      UART_SetConfig_def modify_reg_def uart_reset_def init_bits_def uart_115200_8n1_def Let_def listening_def
      byte_armed_def line_of_def uart_defs bit_simps)

subsection \<open>Clean and disturbed lines\<close>

text \<open>Bytes that arrive one by one, each served before the next.\<close>

definition one_by_one :: "u8 list \<Rightarrow> uart_input list" where
  "one_by_one bs = concat (map (\<lambda>b. [Arrive (ucast b) 0, Serve []]) bs)"

lemma byte_up_down: "ucast (ucast (b :: u8) :: u16) = b"
  by (rule bit_word_eqI) (auto simp: bit_simps)

lemma heard_one_by_one: "heard (one_by_one bs) (None, 0) = map Rx_Byte bs"
  by (induction bs) (simp_all add: one_by_one_def byte_up_down)

text \<open>A byte that arrives after the handler has read SR is lost, and its overrun flag survives the read of DR:
  every further service only reports an error, until a byte arrives.\<close>

lemma heard_append: "heard (is @ js) l = heard is l @ heard js (line_after is l)"
  by (induction "is" arbitrary: l) (simp_all add: split_def Let_def line_after_def)

lemma line_after_Cons: "line_after (i # is) l = line_after is (snd (line_step i l))"
  by (simp add: line_after_def)

lemma line_after_Nil [simp]: "line_after [] l = l"
  by (simp add: line_after_def)

lemma serve_overrun: "heard (replicate n (Serve [])) (None, 8) = replicate n Rx_Error"
  "line_after (replicate n (Serve [])) (None, 8) = (None, 8)"
  by (induction n) (simp_all add: line_after_Cons)

definition overrun_course :: "u8 \<Rightarrow> u8 \<Rightarrow> nat \<Rightarrow> uart_input list" where
  "overrun_course a b n = [Arrive (ucast a) 0, Serve [(ucast b, 0)]] @ replicate n (Serve [])"

lemma overrun_course_heard:
  "heard (overrun_course a b n) (None, 0) = Rx_Byte a # replicate n Rx_Error"
  "line_after (overrun_course a b n) (None, 0) = (None, 8)"
  by (simp_all add: overrun_course_def heard_append serve_overrun line_after_Cons byte_up_down)

lemma listening_pending: "listening h \<Longrightarrow> usart_irq h \<longleftrightarrow> fst (line_of h) \<noteq> None \<or> snd (line_of h) AND 8 \<noteq> 0"
  by (simp only: listening_irq line_overrun) (simp add: line_of_def)

end
