(* ===== verification/Uart_Firmware.thy ===== *)
theory Uart_Firmware
  imports Hal_Client Master_Tasks Legacy_State
begin

text \<open>The reception callbacks of the three firmwares (veda_isr.c of the master and of the slaves, main.c of
  the ON/OFF generation) on the handles of the driver, each an interpretation of the contract \<open>uart_client\<close>: what
  the driver calls is what the interrupts of the master and slave models do.\<close>

subsection \<open>The slave\<close>

text \<open>The flag \<open>rx_armed\<close> of the slave model stands for the reception state of the driver.\<close>

definition driver_armed :: "uart_handle \<Rightarrow> bool" where
  "driver_armed h \<longleftrightarrow> RxState h = HAL_UART_STATE_BUSY_RX"

definition slave_rx_cplt :: "slave uart_callback" where
  "slave_rx_cplt hs =
     (let (h, s) = hs
      in (snd (HAL_UART_Receive_IT (Some (rx_mem h)) 1 h),
          HAL_UART_RxCpltCallback_slave (rx_mem h ! 0) (s\<lparr> rx_armed := driver_armed h \<rparr>)))"

definition slave_rx_error :: "slave uart_callback" where
  "slave_rx_error hs =
     (let (h, s) = hs
      in (snd (HAL_UART_Receive_IT (Some (rx_mem h)) 1 h),
          HAL_UART_ErrorCallback_slave (s\<lparr> rx_armed := driver_armed h \<rparr>)))"

fun bus_irq :: "uart_event \<Rightarrow> slave_irq" where
  "bus_irq (Rx_Byte b) = Bus_Byte b"
| "bus_irq Rx_Error = Bus_Error"

interpretation slave_uart: uart_client slave_rx_cplt slave_rx_error
    "\<lambda>b. USART1_IRQHandler (Bus_Byte b)" "USART1_IRQHandler Bus_Error" rx_armed
  by unfold_locales
    (simp_all add: slave_rx_cplt_def slave_rx_error_def rearm_def driver_armed_def USART1_IRQHandler_def
      HAL_UART_RxCpltCallback_slave_def HAL_UART_ErrorCallback_slave_def veda_rs485_rx_arm_slave_def
      veda_rs485_line_reset_def)

lemma slave_uart_event: "slave_uart.on_event e = USART1_IRQHandler (bus_irq e)"
  by (cases e) (simp_all add: slave_uart.on_event_def fun_eq_iff)

lemma slave_uart_events: "fold slave_uart.on_event es s = fold USART1_IRQHandler (map bus_irq es) s"
  by (induction es arbitrary: s) (simp_all add: slave_uart_event)

subsection \<open>The ON/OFF generation\<close>

definition legacy_rx_cplt :: "legacy uart_callback" where
  "legacy_rx_cplt hs =
     (let (h, s) = hs
      in (snd (HAL_UART_Receive_IT (Some (rx_mem h)) 1 h),
          HAL_UART_RxCpltCallback_legacy (rx_mem h ! 0) (s\<lparr> lg_rx_armed := driver_armed h \<rparr>)))"

definition legacy_rx_error :: "legacy uart_callback" where
  "legacy_rx_error hs =
     (let (h, s) = hs
      in (snd (HAL_UART_Receive_IT (Some (rx_mem h)) 1 h),
          HAL_UART_ErrorCallback_legacy (s\<lparr> lg_rx_armed := driver_armed h \<rparr>)))"

interpretation legacy_uart: uart_client legacy_rx_cplt legacy_rx_error
    "\<lambda>b. lg_irq (Bus_Byte b)" "lg_irq Bus_Error" lg_rx_armed
  by unfold_locales
    (simp_all add: legacy_rx_cplt_def legacy_rx_error_def rearm_def driver_armed_def lg_irq_def
      HAL_UART_RxCpltCallback_legacy_def HAL_UART_ErrorCallback_legacy_def Let_def)

lemma legacy_uart_events: "fold legacy_uart.on_event es s = fold lg_irq (map bus_irq es) s"
proof (induction es arbitrary: s)
  case (Cons e es)
  then show ?case by (cases e) (simp_all add: legacy_uart.on_event_def)
qed simp

subsection \<open>The master\<close>

definition master_rx_cplt :: "uart \<Rightarrow> master uart_callback" where
  "master_rx_cplt u hs =
     (let (h, s) = hs
      in (snd (HAL_UART_Receive_IT (Some (rx_mem h)) 1 h), HAL_UART_RxCpltCallback u (rx_mem h ! 0) s))"

definition master_rx_error :: "uart \<Rightarrow> master uart_callback" where
  "master_rx_error u hs =
     (let (h, s) = hs
      in (snd (HAL_UART_Receive_IT (Some (rx_mem h)) 1 h), HAL_UART_ErrorCallback u s))"

text \<open>The two ports the master listens on; USART2 only prints.\<close>

datatype port = Server_Port | Bus_Port

fun port_uart :: "port \<Rightarrow> uart" where
  "port_uart Server_Port = USART6"
| "port_uart Bus_Port = USART1"

fun port_stimulus :: "port \<Rightarrow> uart_event \<Rightarrow> stimulus" where
  "port_stimulus Server_Port (Rx_Byte b) = RpiByte b"
| "port_stimulus Server_Port Rx_Error = RpiError"
| "port_stimulus Bus_Port (Rx_Byte b) = Rs485Byte b"
| "port_stimulus Bus_Port Rx_Error = Rs485Error"

interpretation server_uart: uart_client "master_rx_cplt USART6" "master_rx_error USART6"
    "\<lambda>b. run_input (RpiByte b)" "run_input RpiError" "\<lambda>_. True"
  by unfold_locales (simp_all add: master_rx_cplt_def master_rx_error_def rearm_def run_input_def)

interpretation master_bus_uart: uart_client "master_rx_cplt USART1" "master_rx_error USART1"
    "\<lambda>b. run_input (Rs485Byte b)" "run_input Rs485Error" "\<lambda>_. True"
  by unfold_locales (simp_all add: master_rx_cplt_def master_rx_error_def rearm_def run_input_def)

text \<open>Both ports and the tasks in any order; the stimuli of the master model that come of it.\<close>

datatype board_input = Line port uart_input | Turn stimulus

fun master_board_step :: "board_input \<Rightarrow> (port \<Rightarrow> uart_handle) \<times> master \<Rightarrow> (port \<Rightarrow> uart_handle) \<times> master" where
  "master_board_step (Line p i) (hs, s) =
     (let (h, t) = uart_step (master_rx_cplt (port_uart p)) (master_rx_error (port_uart p)) i (hs p, s)
      in (hs(p := h), t))"
| "master_board_step (Turn i) (hs, s) = (hs, run_input i s)"

primrec stimuli :: "board_input list \<Rightarrow> (port \<Rightarrow> line_state) \<Rightarrow> stimulus list" where
  "stimuli [] ls = []"
| "stimuli (i # is) ls =
     (case i of
        Line p j \<Rightarrow> map (port_stimulus p) (fst (line_step j (ls p))) @ stimuli is (ls(p := snd (line_step j (ls p))))
      | Turn j \<Rightarrow> j # stimuli is ls)"

lemma server_event: "server_uart.on_event = run_input \<circ> port_stimulus Server_Port"
  by (auto simp: server_uart.on_event_def fun_eq_iff split: uart_event.split)

lemma bus_event: "master_bus_uart.on_event = run_input \<circ> port_stimulus Bus_Port"
  by (auto simp: master_bus_uart.on_event_def fun_eq_iff split: uart_event.split)

lemma port_step_heard:
  assumes "listening h"
  shows "\<exists>h'. uart_step (master_rx_cplt (port_uart p)) (master_rx_error (port_uart p)) i (h, s) =
      (h', fold run_input (map (port_stimulus p) (fst (line_step i (line_of h)))) s)
    \<and> listening h' \<and> line_of h' = snd (line_step i (line_of h))"
  using server_uart.step_heard [OF assms TrueI, of i s] master_bus_uart.step_heard [OF assms TrueI, of i s]
  by (cases p) (simp_all add: server_event bus_event fold_map)

lemma master_board_heard:
  assumes "\<And>p. listening (hs p)"
  shows "\<exists>hs'. fold master_board_step is (hs, s) = (hs', fold run_input (stimuli is (\<lambda>p. line_of (hs p))) s)
    \<and> (\<forall>p. listening (hs' p))"
  using assms
proof (induction "is" arbitrary: hs s)
  case (Cons i "is")
  show ?case
  proof (cases i)
    case (Line p j)
    let ?r = "line_step j (line_of (hs p))"
    obtain h where h: "uart_step (master_rx_cplt (port_uart p)) (master_rx_error (port_uart p)) j (hs p, s)
        = (h, fold run_input (map (port_stimulus p) (fst ?r)) s)" "listening h" "line_of h = snd ?r"
      using port_step_heard [OF Cons.prems] by blast
    let ?t = "fold run_input (map (port_stimulus p) (fst ?r)) s"
    have line: "(\<lambda>q. line_of ((hs(p := h)) q)) = (\<lambda>q. line_of (hs q))(p := snd ?r)" using h(3) by auto
    have listen: "listening ((hs(p := h)) q)" for q using h(2) Cons.prems by simp
    have "master_board_step i (hs, s) = (hs(p := h), ?t)" by (simp add: Line h(1))
    moreover have "stimuli (i # is) (\<lambda>q. line_of (hs q)) =
        map (port_stimulus p) (fst ?r) @ stimuli is ((\<lambda>q. line_of (hs q))(p := snd ?r))" by (simp add: Line)
    ultimately show ?thesis
      using Cons.IH [of "hs(p := h)" ?t, OF listen, unfolded line] by (simp only: fold_simps fold_append comp_apply)
  next
    case (Turn j)
    then show ?thesis using Cons.IH [OF Cons.prems] by simp
  qed
qed simp

end
