(* ===== verification/Hal_Transmit.thy ===== *)
theory Hal_Transmit
  imports Hal_Client
begin

text \<open>The blocking transmission: what the waiting loop leaves alone, when it returns, what was sent by
  then, and that reception goes on meanwhile. \<open>uh_looks\<close> is arbitrary: the theorems hold however the
  transmitter and the clock behave, unless a lemma says what it needs of them.\<close>

subsection \<open>The waiting loop\<close>

text \<open>A handle after some looks: only SR, the tick and what is still to see have moved.\<close>

definition looked :: "nat \<Rightarrow> uart_handle \<Rightarrow> uart_handle \<Rightarrow> bool" where
  "looked n h t \<longleftrightarrow> line_of t = line_of h \<and> (bit (uh_SR t) 0 \<longleftrightarrow> bit (uh_SR h) 0)
     \<and> uh_looks t = sdrop n (uh_looks h)
     \<and> (\<exists>sr sn tk lk. t = h\<lparr> uh_SR := sr, uh_seen := sn, uh_tick := tk, uh_looks := lk \<rparr>)"

lemma looked_once: "looked (Suc 0) h (snd (read_SR (usart_look h)))"
proof -
  have "(uh_SR h AND NOT 192 OR x AND 192) AND 14 = uh_SR h AND 14" for x
    unfolding and_fourteen_eq by (simp add: bit_and_iff bit_or_iff bit_not_iff)
  moreover have "\<exists>sr sn tk lk. snd (read_SR (usart_look h)) = h\<lparr> uh_SR := sr, uh_seen := sn, uh_tick := tk, uh_looks := lk \<rparr>"
    by (rule exI [of _ "uh_SR (usart_look h)"], rule exI [of _ "uh_SR (usart_look h)"],
        rule exI [of _ "uh_tick (usart_look h)"], rule exI [of _ "uh_looks (usart_look h)"])
      (cases h, simp add: usart_look_def)
  ultimately show ?thesis
    unfolding looked_def
    by (simp add: usart_look_def line_of_def uart_defs bit_and_iff bit_or_iff bit_not_iff)
qed

lemma looked_trans: "looked m h t \<Longrightarrow> looked n t u \<Longrightarrow> looked (m + n) h u"
  by (fastforce simp: looked_def sdrop_add)

text \<open>For the two flags of the transmitter one look decides.\<close>

lemma wait_look:
  assumes "flag = USART_SR_TXE \<or> flag = USART_SR_TC"
  shows "UART_WaitOnFlagUntilTimeout flag False ts timeout h =
    (let h1 = snd (read_SR (usart_look h))
     in if uh_SR h1 AND flag = flag then Some (HAL_OK, h1)
        else if timeout \<noteq> HAL_MAX_DELAY \<and> (timeout < uh_tick h1 - ts \<or> timeout = 0) then Some (HAL_TIMEOUT, h1)
        else UART_WaitOnFlagUntilTimeout flag False ts timeout h1)"
  using assms by (subst UART_WaitOnFlagUntilTimeout.simps) (auto simp: Let_def split_def)

definition wait_result :: "u32 \<Rightarrow> u32 \<Rightarrow> u32 \<Rightarrow> hal_status \<Rightarrow> uart_handle \<Rightarrow> bool" where
  "wait_result flag ts timeout st t \<longleftrightarrow>
     st = HAL_OK \<and> uh_SR t AND flag = flag
     \<or> st = HAL_TIMEOUT \<and> timeout \<noteq> HAL_MAX_DELAY \<and> (timeout < uh_tick t - ts \<or> timeout = 0)"

lemma wait_outcome:
  assumes "flag = USART_SR_TXE \<or> flag = USART_SR_TC"
    and "UART_WaitOnFlagUntilTimeout flag False ts timeout h = Some r"
  shows "(\<exists>n. looked n h (snd r)) \<and> wait_result flag ts timeout (fst r) (snd r)"
proof -
  let ?P = "\<lambda>flag status ts timeout h r. (flag = USART_SR_TXE \<or> flag = USART_SR_TC) \<and> \<not> status
    \<longrightarrow> (\<exists>n. looked n h (snd r)) \<and> wait_result flag ts timeout (fst r) (snd r)"
  have "?P flag False ts timeout h r"
  proof (rule UART_WaitOnFlagUntilTimeout.raw_induct [where P = ?P], goal_cases)
    case (1 rec flag status ts timeout h r)
    let ?h1 = "snd (read_SR (usart_look h))"
    have ih: "rec flag status ts timeout ?h1 = Some r \<Longrightarrow> ?P flag status ts timeout ?h1 r" by (rule 1(1))
    show ?case
    proof (intro impI, elim conjE)
      assume flag: "flag = USART_SR_TXE \<or> flag = USART_SR_TC" and "\<not> status"
      with 1(2) have "r = (HAL_OK, ?h1) \<and> uh_SR ?h1 AND flag = flag
        \<or> r = (HAL_TIMEOUT, ?h1) \<and> timeout \<noteq> HAL_MAX_DELAY \<and> (timeout < uh_tick ?h1 - ts \<or> timeout = 0)
        \<or> rec flag status ts timeout ?h1 = Some r"
        by (auto simp: Let_def split_def split: if_splits)
      then show "(\<exists>n. looked n h (snd r)) \<and> wait_result flag ts timeout (fst r) (snd r)"
        using ih flag \<open>\<not> status\<close> looked_once [of h] looked_trans [OF looked_once [of h]]
        by (auto simp: wait_result_def)
    qed
  qed (rule assms(2))
  then show ?thesis using assms(1) by blast
qed

text \<open>A look past the deadline ends the wait.\<close>

lemma wait_returns:
  assumes "flag = USART_SR_TXE \<or> flag = USART_SR_TC" "timeout \<noteq> HAL_MAX_DELAY"
    and "timeout < snd (uh_looks h !! k) - ts"
  shows "\<exists>st t n. UART_WaitOnFlagUntilTimeout flag False ts timeout h = Some (st, t) \<and> looked n h t \<and> 0 < n \<and> n \<le> Suc k"
  using assms(3)
proof (induction k arbitrary: h)
  case 0
  have "uh_tick (snd (read_SR (usart_look h))) = snd (uh_looks h !! 0)" by (simp add: usart_look_def)
  then show ?case
    using 0 looked_once [of h] assms(2) by (subst wait_look [OF assms(1)]) (auto simp: Let_def)
next
  case (Suc k)
  let ?h1 = "snd (read_SR (usart_look h))"
  have "uh_looks ?h1 !! k = uh_looks h !! Suc k" by (simp add: usart_look_def)
  then obtain st t n where t: "UART_WaitOnFlagUntilTimeout flag False ts timeout ?h1 = Some (st, t)" "looked n ?h1 t"
      "0 < n" "n \<le> Suc k"
    using Suc.IH [of ?h1] Suc.prems by auto
  let ?stop = "uh_SR ?h1 AND flag = flag \<or> timeout < uh_tick ?h1 - ts \<or> timeout = 0"
  show ?case
  proof (cases ?stop)
    case True
    then have "\<exists>st. UART_WaitOnFlagUntilTimeout flag False ts timeout h = Some (st, ?h1)"
      using assms(2) by (subst wait_look [OF assms(1)]) (auto simp: Let_def)
    then show ?thesis using looked_once [of h] by blast
  next
    case False
    then have "UART_WaitOnFlagUntilTimeout flag False ts timeout h = UART_WaitOnFlagUntilTimeout flag False ts timeout ?h1"
      by (subst wait_look [OF assms(1)]) (simp add: Let_def)
    moreover have "looked (Suc n) h t" using looked_trans [OF looked_once t(2)] by simp
    ultimately show ?thesis using t by (intro exI [of _ st] exI [of _ t] exI [of _ "Suc n"]) simp
  qed
qed

subsection \<open>The loop over the bytes\<close>

text \<open>What a transmission may do to a handle: write to DR, and nothing that reception depends on.\<close>

definition tx_rel :: "u16 list \<Rightarrow> uart_handle \<Rightarrow> uart_handle \<Rightarrow> bool" where
  "tx_rel ds h t \<longleftrightarrow> line_of t = line_of h \<and> (listening h \<longrightarrow> listening t) \<and> uh_Init t = uh_Init h
     \<and> uh_sent t = uh_sent h @ ds"

lemma looked_rel: "looked n h t \<Longrightarrow> tx_rel [] h t"
  unfolding looked_def tx_rel_def by (elim conjE exE) (simp add: listening_def byte_armed_def)

lemma tx_rel_trans: "tx_rel xs h t \<Longrightarrow> tx_rel ys t u \<Longrightarrow> tx_rel (xs @ ys) h u"
  by (simp add: tx_rel_def)

lemma tx_part_rel: "tx_rel [] h (tx_begin n h)" "tx_rel [d] h (tx_put d h)" "tx_rel [] h (tx_end h)"
  by (simp_all add: tx_rel_def tx_begin_def tx_put_def tx_end_def write_DR_def line_of_def listening_def byte_armed_def)

definition byte_frames :: "UART_InitTypeDef \<Rightarrow> bool" where
  "byte_frames i \<longleftrightarrow> WordLength i \<noteq> UART_WORDLENGTH_9B \<or> Parity i \<noteq> UART_PARITY_NONE"

lemma byte_widened: "(ucast (b :: u8) :: u16) AND 0xFF = ucast b"
proof -
  have m: "(0xFF :: u16) = mask 8" by (simp add: mask_eq_exp_minus_1)
  show ?thesis
    unfolding m using bit_imp_le_length [of b]
    by (intro bit_word_eqI) (auto simp only: bit_and_iff bit_mask_iff bit_ucast_iff len_num0 len_bit0 len_num1 len_bit1,
        auto)
qed

lemma byte_frames_simps: "byte_frames i \<Longrightarrow> tx_value i m p = ucast (m ! p)" "byte_frames i \<Longrightarrow> tx_step i = 1"
  by (auto simp: byte_frames_def tx_value_def tx_step_def byte_widened)

definition tx_result :: "u32 \<Rightarrow> u32 \<Rightarrow> u8 list \<Rightarrow> nat \<Rightarrow> uart_handle \<Rightarrow> hal_status \<Rightarrow> uart_handle \<Rightarrow> bool" where
  "tx_result ts timeout bytes n h st t \<longleftrightarrow> gState t = HAL_UART_STATE_READY
     \<and> (\<exists>k \<le> n. tx_rel (map ucast (take k bytes)) h t
         \<and> (st = HAL_OK \<and> k = n \<and> bit (uh_SR t) 6
            \<or> st = HAL_TIMEOUT \<and> timeout \<noteq> HAL_MAX_DELAY \<and> (timeout < uh_tick t - ts \<or> timeout = 0)))"

lemma tx_end_result:
  assumes "wait_result flag ts timeout st u" "tx_rel [] h u" "st \<noteq> HAL_OK \<or> flag = USART_SR_TC \<and> n = 0"
  shows "tx_result ts timeout bytes n h (if st \<noteq> HAL_OK then HAL_TIMEOUT else HAL_OK) (tx_end u)"
proof -
  have "tx_rel [] h (tx_end u)" using tx_rel_trans [OF assms(2) tx_part_rel(3)] by simp
  moreover have "uh_SR u AND USART_SR_TC = USART_SR_TC \<Longrightarrow> bit (uh_SR u) 6"
    using flag_bit(7) [of "uh_SR u"] by (auto simp: uart_defs)
  ultimately show ?thesis
    using assms(1,3) by (auto simp: tx_result_def wait_result_def tx_end_def intro!: exI [of _ 0])
qed

lemma loop_outcome:
  assumes "UART_Transmit_loop m p ts timeout h = Some (st, t)"
    and "byte_frames (uh_Init h)" "p + unat (TxXferCount h) \<le> length m"
  shows "tx_result ts timeout (drop p m) (unat (TxXferCount h)) h st t"
  using assms
proof (induction m p ts timeout h rule: UART_Transmit_loop.induct)
  case (1 m p ts timeout h)
  show ?case
  proof (cases "TxXferCount h = 0")
    case True
    with "1.prems"(1) obtain st1 u where u: "UART_WaitOnFlagUntilTimeout USART_SR_TC False ts timeout h = Some (st1, u)"
        "st = (if st1 \<noteq> HAL_OK then HAL_TIMEOUT else HAL_OK)" "t = tx_end u"
      by (subst (asm) UART_Transmit_loop.simps) (auto split: option.splits)
    from wait_outcome [OF _ u(1)] have w: "wait_result USART_SR_TC ts timeout st1 u" "tx_rel [] h u"
      by (auto intro: looked_rel)
    show ?thesis unfolding u(2,3) by (rule tx_end_result [OF w]) (simp add: True)
  next
    case False
    with "1.prems"(1) obtain st1 u where u: "UART_WaitOnFlagUntilTimeout USART_SR_TXE False ts timeout h = Some (st1, u)"
        "if st1 \<noteq> HAL_OK then st = HAL_TIMEOUT \<and> t = tx_end u
         else UART_Transmit_loop m (p + tx_step (uh_Init u)) ts timeout (tx_put (tx_value (uh_Init u) m p) u) = Some (st, t)"
      by (subst (asm) UART_Transmit_loop.simps) (auto split: option.splits if_splits)
    from wait_outcome [OF _ u(1)] have w: "wait_result USART_SR_TXE ts timeout st1 u" "tx_rel [] h u"
      by (auto intro: looked_rel)
    show ?thesis
    proof (cases "st1 = HAL_OK")
      case False
      then show ?thesis using u(2) tx_end_result [OF w, of "unat (TxXferCount h)" "drop p m"] by simp
    next
      case ok: True
      let ?v = "tx_put (ucast (m ! p)) u"
      have frames: "byte_frames (uh_Init u)" using w(2) "1.prems"(2) by (simp add: tx_rel_def)
      have count: "unat (TxXferCount h) = Suc (unat (TxXferCount ?v))" "TxXferCount u = TxXferCount h"
        using wait_keeps_count [OF u(1)] unat_minus_one [OF False] unat_gt_0 [of "TxXferCount h"] False
        by (simp_all add: tx_put_def write_DR_def)
      have rest: "tx_result ts timeout (drop (p + 1) m) (unat (TxXferCount ?v)) ?v st t"
        using "1.IH" [OF False u(1) refl, of] ok u(2) count "1.prems"(3) frames
        by (simp add: byte_frames_simps tx_put_def write_DR_def)
      then obtain k where k: "k \<le> unat (TxXferCount ?v)" "tx_rel (map ucast (take k (drop (p + 1) m))) ?v t"
          "st = HAL_OK \<and> k = unat (TxXferCount ?v) \<and> bit (uh_SR t) 6
           \<or> st = HAL_TIMEOUT \<and> timeout \<noteq> HAL_MAX_DELAY \<and> (timeout < uh_tick t - ts \<or> timeout = 0)"
        unfolding tx_result_def by blast
      have "drop p m = m ! p # drop (p + 1) m"
        using "1.prems"(3) count(1) by (simp add: Cons_nth_drop_Suc)
      then have bytes: "map ucast (take (Suc k) (drop p m)) = [ucast (m ! p)] @ map ucast (take k (drop (p + 1) m))" by simp
      have "tx_rel [ucast (m ! p)] h ?v" using tx_rel_trans [OF w(2) tx_part_rel(2)] by simp
      then have "tx_rel (map ucast (take (Suc k) (drop p m))) h t" unfolding bytes using k(2) by (rule tx_rel_trans)
      then show ?thesis
        using k(1,3) rest count(1) unfolding tx_result_def by (intro conjI exI [of _ "Suc k"]) auto
    qed
  qed
qed

subsection \<open>Returning\<close>

text \<open>\<open>L\<close> is what all looks of the call find; the looks from \<open>N\<close> on, one for each byte and one more, are past
  the deadline.\<close>

lemma wait_within:
  assumes "flag = USART_SR_TXE \<or> flag = USART_SR_TC" "timeout \<noteq> HAL_MAX_DELAY"
    and "\<And>j. N \<le> j \<Longrightarrow> j \<le> N + n \<Longrightarrow> timeout < snd (L !! j) - ts"
    and "uh_looks h = sdrop d L" "d \<le> N + n"
  shows "\<exists>st u e. UART_WaitOnFlagUntilTimeout flag False ts timeout h = Some (st, u)
    \<and> uh_looks u = sdrop e L \<and> e \<le> max N d + 1"
proof -
  have "timeout < snd (uh_looks h !! (max N d - d)) - ts"
    using assms(3) [of "max N d"] assms(4,5) by (simp add: sdrop_snth)
  from wait_returns [OF assms(1,2) this] obtain st u k where
    u: "UART_WaitOnFlagUntilTimeout flag False ts timeout h = Some (st, u)" "looked k h u" "k \<le> Suc (max N d - d)"
    by blast
  have "uh_looks u = sdrop (d + k) L" using u(2) assms(4) by (simp add: looked_def sdrop_add)
  moreover have "d + k \<le> max N d + 1" using u(3) by simp
  ultimately show ?thesis using u(1) by blast
qed

lemma loop_returns:
  assumes "timeout \<noteq> HAL_MAX_DELAY"
    and "\<And>j. N \<le> j \<Longrightarrow> j \<le> N + n \<Longrightarrow> timeout < snd (L !! j) - ts"
    and "uh_looks h = sdrop d L" "d + unat (TxXferCount h) \<le> N + n"
    and "unat (TxXferCount h) \<le> n"
  shows "\<exists>st t e. UART_Transmit_loop m p ts timeout h = Some (st, t) \<and> uh_looks t = sdrop e L \<and> e \<le> N + n + 1"
  using assms
proof (induction m p ts timeout h arbitrary: d rule: UART_Transmit_loop.induct)
  case (1 m p ts timeout h)
  have d: "d \<le> N + n" using "1.prems"(4) by simp
  show ?case
  proof (cases "TxXferCount h = 0")
    case True
    obtain st u e where u: "UART_WaitOnFlagUntilTimeout USART_SR_TC False ts timeout h = Some (st, u)"
        "uh_looks u = sdrop e L" "e \<le> max N d + 1"
      using wait_within [OF _ "1.prems"(1,2,3) d, of USART_SR_TC] by blast
    have "UART_Transmit_loop m p ts timeout h = Some (if st \<noteq> HAL_OK then HAL_TIMEOUT else HAL_OK, tx_end u)"
      by (subst UART_Transmit_loop.simps) (simp add: True u(1))
    then show ?thesis using u(2,3) d by (auto simp: tx_end_def)
  next
    case False
    obtain st u e where u: "UART_WaitOnFlagUntilTimeout USART_SR_TXE False ts timeout h = Some (st, u)"
        "uh_looks u = sdrop e L" "e \<le> max N d + 1"
      using wait_within [OF _ "1.prems"(1,2,3) d, of USART_SR_TXE] by blast
    let ?v = "tx_put (tx_value (uh_Init u) m p) u"
    have loop: "UART_Transmit_loop m p ts timeout h =
        (if st \<noteq> HAL_OK then Some (HAL_TIMEOUT, tx_end u)
         else UART_Transmit_loop m (p + tx_step (uh_Init u)) ts timeout ?v)"
      by (subst UART_Transmit_loop.simps) (simp add: False u(1))
    show ?thesis
    proof (cases "st = HAL_OK")
      case True
      have "unat (TxXferCount h) = Suc (unat (TxXferCount ?v))"
        using wait_keeps_count [OF u(1)] unat_minus_one [OF False] unat_gt_0 [of "TxXferCount h"] False
        by (simp add: tx_put_def write_DR_def)
      then have "e + unat (TxXferCount ?v) \<le> N + n" "unat (TxXferCount ?v) \<le> n" using u(3) "1.prems"(4,5) by simp_all
      moreover have "uh_looks ?v = sdrop e L" using u(2) by (simp add: tx_put_def write_DR_def)
      ultimately show ?thesis
        using "1.IH" [OF False u(1) refl _ "1.prems"(1,2)] True loop by simp
    next
      case False
      then show ?thesis using loop u(2,3) d by (auto simp: tx_end_def)
    qed
  qed
qed

end
