(* ===== verification/Uart_Properties.thy ===== *)
theory Uart_Properties
  imports Uart_Firmware Hal_Transmit Slave_Boot Link_Properties
begin

text \<open>What the UART driver of the vendor library gives the firmware: the interrupts of the models are what the
  driver makes of the line, an overrun between two register reads keeps the interrupt busy, a blocking
  transmission returns, and what it reports is what was sent.\<close>

subsection \<open>Baud rates\<close>

text \<open>The two bus clocks of the boards divided to 115200 baud: within three thousandths of the rate.\<close>

lemma baud_rates_close:
  "uh_BRR (uart_started 84000000 uart_115200_8n1 x looks) = 729"
  "uh_BRR (uart_started 42000000 uart_115200_8n1 x looks) = 364"
  "\<bar>int (pclk2_hz osc_config clk_config) div 729 - 115200\<bar> * 1000 < 3 * 115200"
  "\<bar>int (pclk1_hz osc_config clk_config) div 364 - 115200\<bar> * 1000 < 3 * 115200"
  by (simp_all add: clock_tree uart_started_def rearm_def HAL_UART_Receive_IT_def UART_Start_Receive_IT_def
      HAL_UART_Init_handle_def UART_SetConfig_def uart_reset_def init_bits_def uart_115200_8n1_def Let_def uart_defs
      UART_BRR_SAMPLING16_def UART_DIVFRAQ_SAMPLING16_def UART_DIVMANT_SAMPLING16_def UART_DIV_SAMPLING16_def)

subsection \<open>Reception\<close>

abbreviation idle_port :: uart_handle where
  "idle_port \<equiv> uart_started 84000000 uart_115200_8n1 0 (sconst (0xC0, 0))"

lemma idle_port_simps: "listening idle_port" "line_of idle_port = (None, 0)" "gState idle_port = HAL_UART_STATE_READY"
  using uart_started_listening by blast+

definition armed_slave :: slave where
  "armed_slave = (slave_memory 1 0 \<lparr> plan_calls = [], plan_polls = [], plan_lags = [] \<rparr> board_reset)\<lparr> rx_armed := True \<rparr>"

lemma armed_slave_armed: "rx_armed armed_slave"
  by (simp add: armed_slave_def)

text \<open>C36: Whatever happens on the bus line of a slave and however the pieces of its own transmissions fall
  in between, the driver's interrupt handler with the slave's callbacks does to the slave exactly the receive
  interrupts of the slave model, for the bytes and errors \<open>heard\<close> lists, and the next byte is always armed.\<close>

theorem slave_reception_refined:
  assumes "listening h" and "rx_armed s"
  shows "\<exists>h'. uart_run slave_rx_cplt slave_rx_error is (h, s)
      = (h', fold USART1_IRQHandler (map bus_irq (heard is (line_of h))) s) \<and> listening h'"
  using slave_uart.run_heard [OF assms] by (auto simp: slave_uart_events)

theorem slave_reception_refined_witness:
  "\<exists>h'. uart_run slave_rx_cplt slave_rx_error [Arrive 0x53 0, Serve [(0x31, 0)], Serve [], Arrive 0x0A 2, Serve []]
      (idle_port, armed_slave)
    = (h', fold USART1_IRQHandler [Bus_Byte 0x53, Bus_Error, Bus_Byte 0x0A, Bus_Error] armed_slave) \<and> listening h'"
  using slave_reception_refined [OF idle_port_simps(1) armed_slave_armed,
      of "[Arrive 0x53 0, Serve [(0x31, 0)], Serve [], Arrive 0x0A 2, Serve []]"]
  by (simp add: idle_port_simps(2))

text \<open>On a clean line the slave gets every byte, in order.\<close>

lemma clean_line_heard:
  assumes "listening h" "line_of h = (None, 0)" "rx_armed s"
  shows "snd (uart_run slave_rx_cplt slave_rx_error (one_by_one bs) (h, s)) = fold (\<lambda>b. USART1_IRQHandler (Bus_Byte b)) bs s"
  using slave_uart.run_heard [OF assms(1,3), of "one_by_one bs"]
  by (auto simp: slave_uart_event assms(2) heard_one_by_one fold_map comp_def)

text \<open>C37: The master listens on two ports at once. However the events on both lines and the turns of its
  tasks interleave, its handlers do exactly what the master model does for the stimuli the lines and
  the turns give, in that order, and both ports stay armed.\<close>

theorem master_reception_refined:
  assumes "\<And>p. listening (hs p)"
  shows "\<exists>hs'. fold master_board_step is (hs, s) = (hs', fold run_input (stimuli is (\<lambda>p. line_of (hs p))) s)
    \<and> (\<forall>p. listening (hs' p))"
  using master_board_heard [OF assms] .

theorem master_reception_refined_witness:
  "\<exists>hs'. fold master_board_step
      [Line Server_Port (Arrive 0x7E 0), Line Bus_Port (Arrive 0x41 4), Turn RunCtrl,
       Line Bus_Port (Serve []), Line Server_Port (Serve [])] (\<lambda>_. idle_port, fresh)
    = (hs', fold run_input [RunCtrl, Rs485Byte 0x41, Rs485Error, RpiByte 0x7E] fresh) \<and> (\<forall>p. listening (hs' p))"
  using master_reception_refined [of "\<lambda>_. idle_port" "[Line Server_Port (Arrive 0x7E 0), Line Bus_Port (Arrive 0x41 4),
      Turn RunCtrl, Line Bus_Port (Serve []), Line Server_Port (Serve [])]" fresh]
  by (simp add: idle_port_simps)

text \<open>C38: A byte that arrives on the bus after the handler has read SR and before it reads DR is lost, and its
  overrun flag stays set, since the error callback reads neither register: the interrupt is pending
  again after every service, each of which only resets the line, until the next byte arrives. That byte is
  handled and then followed by one more reset, so that nothing of it is left in the line (a line end
  still delivers what stood in the line when no service came in between).\<close>

theorem overrun_reenters:
  assumes "listening h" and "line_of h = (None, 0)" and "rx_armed s"
  shows "\<exists>h1 s1 h2 s2. uart_run slave_rx_cplt slave_rx_error (overrun_course a b n) (h, s) = (h1, s1)
    \<and> s1 = fold USART1_IRQHandler (Bus_Byte a # replicate n Bus_Error) s \<and> usart_irq h1
    \<and> uart_run slave_rx_cplt slave_rx_error [Arrive (ucast c) 0, Serve []] (h1, s1) = (h2, s2)
    \<and> s2 = USART1_IRQHandler Bus_Error (USART1_IRQHandler (Bus_Byte c) s1)
    \<and> rs485_line_length s2 = 0 \<and> \<not> usart_irq h2"
proof -
  let ?s1 = "fold USART1_IRQHandler (Bus_Byte a # replicate n Bus_Error) s"
  obtain h1 where h1: "uart_run slave_rx_cplt slave_rx_error (overrun_course a b n) (h, s) = (h1, ?s1)"
      "listening h1" "line_of h1 = (None, 8)" "rx_armed ?s1"
    using slave_uart.run_heard [OF assms(1,3), of "overrun_course a b n"]
      slave_uart.events_ready [OF assms(3), of "Rx_Byte a # replicate n Rx_Error"]
    by (auto simp: slave_uart_event assms(2) overrun_course_heard)
  let ?s2 = "USART1_IRQHandler Bus_Error (USART1_IRQHandler (Bus_Byte c) ?s1)"
  obtain h2 where h2: "uart_run slave_rx_cplt slave_rx_error [Arrive (ucast c) 0, Serve []] (h1, ?s1) = (h2, ?s2)"
      "listening h2" "line_of h2 = (None, 0)"
    using slave_uart.run_heard [OF h1(2,4), of "[Arrive (ucast c) 0, Serve []]"]
    by (auto simp: slave_uart_event h1(3) line_after_Cons byte_up_down)
  have "rx_armed (USART1_IRQHandler (Bus_Byte c) ?s1)" using slave_uart.ready_byte [OF h1(4)] .
  then have "rs485_line_length ?s2 = 0"
    by (simp add: USART1_IRQHandler_def [of Bus_Error] HAL_UART_ErrorCallback_slave_def veda_rs485_line_reset_def
        veda_rs485_rx_arm_slave_def)
  moreover have "usart_irq h1" "\<not> usart_irq h2"
    by (simp_all add: listening_pending h1(2,3) h2(2,3))
  ultimately show ?thesis using h1(1) h2(1) by blast
qed

theorem overrun_reenters_witness:
  "\<exists>h1. uart_run slave_rx_cplt slave_rx_error (overrun_course 0x53 0x31 2) (idle_port, armed_slave)
      = (h1, fold USART1_IRQHandler [Bus_Byte 0x53, Bus_Error, Bus_Error] armed_slave) \<and> usart_irq h1"
  using overrun_reenters [OF idle_port_simps(1,2) armed_slave_armed, of "0x53" "0x31" 2]
  by (auto simp: numeral_2_eq_2)

subsection \<open>Transmission\<close>

text \<open>C39: A blocking transmission of bytes with a time limit returns: if the looks from some \<open>N\<close> on, one for
  each byte and one more, find the limit passed, it takes at most that many. It leaves the handle ready
  and reception as it was. It reports success only when every byte was written in order and the transmitter has
  finished, and otherwise a timeout, with the limit really passed and a leading part of the bytes sent.\<close>

theorem transmission_returns:
  assumes "gState h = HAL_UART_STATE_READY" and "0 < n" and "unat n \<le> length m" and "byte_frames (uh_Init h)"
    and "timeout \<noteq> HAL_MAX_DELAY"
    and "\<forall>j \<in> {N..N + unat n}. timeout < snd (uh_looks h !! j) - uh_tick h"
  shows "\<exists>st t e k. HAL_UART_Transmit_handle (Some m) n timeout h = Some (st, t)
    \<and> uh_looks t = sdrop e (uh_looks h) \<and> e \<le> N + unat n + 1
    \<and> gState t = HAL_UART_STATE_READY \<and> line_of t = line_of h \<and> (listening h \<longrightarrow> listening t)
    \<and> k \<le> unat n \<and> uh_sent t = uh_sent h @ map ucast (take k m)
    \<and> (st = HAL_OK \<and> k = unat n \<and> bit (uh_SR t) 6
       \<or> st = HAL_TIMEOUT \<and> (timeout < uh_tick t - uh_tick h \<or> timeout = 0))"
proof -
  let ?h = "tx_begin n h"
  have h: "uh_looks ?h = sdrop 0 (uh_looks h)" "TxXferCount ?h = n" "byte_frames (uh_Init ?h)"
    using assms(4) by (simp_all add: tx_begin_def)
  obtain st t e where t: "UART_Transmit_loop m 0 (uh_tick h) timeout ?h = Some (st, t)"
      "uh_looks t = sdrop e (uh_looks h)" "e \<le> N + unat n + 1"
    using loop_returns [of timeout N "unat n" "uh_looks h" "uh_tick h" ?h 0 m 0] assms(5,6) h(1,2) by auto
  have result: "tx_result (uh_tick h) timeout m (unat n) ?h st t"
    using loop_outcome [OF t(1) h(3)] assms(3) h(2) by simp
  then obtain k where k: "k \<le> unat n" "tx_rel (map ucast (take k m)) ?h t"
      "st = HAL_OK \<and> k = unat n \<and> bit (uh_SR t) 6
       \<or> st = HAL_TIMEOUT \<and> (timeout < uh_tick t - uh_tick h \<or> timeout = 0)" "gState t = HAL_UART_STATE_READY"
    unfolding tx_result_def by blast
  have rel: "tx_rel (map ucast (take k m)) h t" using tx_rel_trans [OF tx_part_rel(1) k(2)] by simp
  have "HAL_UART_Transmit_handle (Some m) n timeout h = Some (st, t)"
    using assms(1,2) t(1) by (auto simp: HAL_UART_Transmit_handle_def)
  then show ?thesis using t(2,3) k rel unfolding tx_rel_def by blast
qed

text \<open>A transmitter that never gets ready while the clock runs on.\<close>

definition stuck_port :: uart_handle where
  "stuck_port = uart_started 84000000 uart_115200_8n1 0 ((0xC0, 3) ## sconst (0, 200))"

theorem transmission_returns_witness:
  "\<exists>st t e k. HAL_UART_Transmit_handle (Some [0x41, 0x42]) 2 100 stuck_port = Some (st, t)
    \<and> uh_looks t = sdrop e (uh_looks stuck_port) \<and> e \<le> 1 + 2 + 1
    \<and> gState t = HAL_UART_STATE_READY \<and> line_of t = line_of stuck_port
    \<and> k \<le> 2 \<and> uh_sent t = uh_sent stuck_port @ map ucast (take k [0x41 :: u8, 0x42])
    \<and> (st = HAL_OK \<and> k = 2 \<and> bit (uh_SR t) 6 \<or> st = HAL_TIMEOUT \<and> (100 < uh_tick t - uh_tick stuck_port))"
proof -
  have p: "gState stuck_port = HAL_UART_STATE_READY"
    unfolding stuck_port_def using uart_started_listening by blast
  have frames: "byte_frames (uh_Init stuck_port)" "uh_tick stuck_port = 0" "uh_looks stuck_port = (0xC0, 3) ## sconst (0, 200)"
    by (simp_all add: stuck_port_def uart_started_def rearm_def HAL_UART_Receive_IT_def UART_Start_Receive_IT_def
        HAL_UART_Init_handle_def UART_SetConfig_def uart_reset_def init_bits_def uart_115200_8n1_def Let_def uart_defs byte_frames_def)
  have late: "\<forall>j \<in> {1..1 + unat (2 :: u16)}. (100 :: u32) < snd (uh_looks stuck_port !! j) - uh_tick stuck_port"
  proof
    fix j assume "j \<in> {1..1 + unat (2 :: u16)}"
    then show "(100 :: u32) < snd (uh_looks stuck_port !! j) - uh_tick stuck_port" by (cases j) (simp_all add: frames)
  qed
  have "(100 :: u32) \<noteq> HAL_MAX_DELAY" "0 < (2 :: u16)" "unat (2 :: u16) \<le> length [0x41 :: u8, 0x42]"
    by (simp_all add: HAL_MAX_DELAY_def)
  note r = transmission_returns [OF p this(2,3) frames(1) this(1) late]
  have two: "unat (2 :: u16) = 2" "(100 :: u32) = 0 \<longleftrightarrow> False" by simp_all
  show ?thesis using r [unfolded two simp_thms] by blast
qed

end
