(* ===== verification/Wire.thy ===== *)
theory Wire
  imports Uart_Properties Closed_Loop
begin

text \<open>From the driver of the master to the driver of a slave: what one hands to its data register arrives at
  the other, byte by byte on a clean line, and the slave obeys.\<close>

subsection \<open>The marks of the receive interrupt\<close>

text \<open>The two fields the interrupt sets beside the receiver play no part in it.\<close>

definition with_marks :: "u32 \<Rightarrow> bool \<Rightarrow> slave \<Rightarrow> slave" where
  "with_marks x y s = s\<lparr> rs485_last_rx_msec := x, rx_armed := y \<rparr>"

lemma with_marks_simps [simp]:
  "slave_line_view (with_marks x y s) = slave_line_view s" "slave_line_wf (with_marks x y s) = slave_line_wf s"
  "my_slave_id (with_marks x y s) = my_slave_id s" "channel_risk (with_marks x y s) = channel_risk s"
  "ack_pending (with_marks x y s) = ack_pending s" "ack_channel_slot (with_marks x y s) = ack_channel_slot s"
  "ack_risk_slot (with_marks x y s) = ack_risk_slot s" "sl_tick (with_marks x y s) = sl_tick s"
  "with_marks x y (with_marks x' y' s) = with_marks x y s"
  by (simp_all add: with_marks_def slave_line_view_def slave_line_wf_def)

lemma with_marks_act: "slave_line_act l (with_marks x y s) = with_marks x y (slave_line_act l s)"
proof -
  have "veda_debug_line_offer l n v (with_marks x y t) = with_marks x y (veda_debug_line_offer l n v t)" for n v t
    by (simp add: veda_debug_line_offer_def with_marks_def)
  moreover have "veda_rs485_ack_offer c r (with_marks x y t) = with_marks x y (veda_rs485_ack_offer c r t)" for c r t
    by (simp add: veda_rs485_ack_offer_def with_marks_def)
  moreover have "apply_channel_state c r (with_marks x y t) = with_marks x y (apply_channel_state c r t)" for c r t
    by (simp add: apply_channel_state_def with_marks_def Let_def write_pin_def on_board_def veda_strip_request_def)
  ultimately show ?thesis by (simp add: slave_line_act_def line_effect_def obey_def)
qed

lemma with_marks_byte:
  assumes "slave_line_wf s"
  shows "process_rs485_byte b (with_marks x y s) = with_marks x y (process_rs485_byte b s)"
proof -
  have "slave_line_wf (with_marks x y s)" using assms by simp
  then show ?thesis
    unfolding process_rs485_byte_cases [OF assms] process_rs485_byte_cases [OF \<open>slave_line_wf (with_marks x y s)\<close>]
      with_marks_simps with_marks_act
    by (simp add: with_marks_def)
qed

lemma interrupt_byte:
  assumes "slave_line_wf s"
  shows "\<exists>x. USART1_IRQHandler (Bus_Byte b) (with_marks m True s) = with_marks x True (process_rs485_byte b s)"
proof -
  have "rx_armed (with_marks m True s)" "(with_marks m True s)\<lparr> rx_armed := False \<rparr> = with_marks m False s"
    by (simp_all add: with_marks_def)
  then show ?thesis
    by (simp add: USART1_IRQHandler_def HAL_UART_RxCpltCallback_slave_def with_marks_byte [OF assms]
        veda_rs485_rx_arm_slave_def veda_rs485_mark_rx_def)
      (auto simp: with_marks_def)
qed

lemma interrupt_bytes:
  "slave_line_wf s \<Longrightarrow>
   \<exists>x. fold (\<lambda>b. USART1_IRQHandler (Bus_Byte b)) bs (with_marks m True s) = with_marks x True (fold process_rs485_byte bs s)"
proof (induction bs arbitrary: s m)
  case (Cons b bs)
  obtain x where "USART1_IRQHandler (Bus_Byte b) (with_marks m True s) = with_marks x True (process_rs485_byte b s)"
    using interrupt_byte [OF Cons.prems] by blast
  then show ?case
    using Cons.IH [OF process_rs485_byte_wf [OF Cons.prems]] by simp
qed auto

lemma armed_marks: "rx_armed s \<Longrightarrow> \<exists>m. s = with_marks m True s"
  by (intro exI [of _ "rs485_last_rx_msec s"]) (cases s, simp add: with_marks_def)

subsection \<open>The bus\<close>

text \<open>The values written to the data register of the sender arrive undamaged, each served before the next.\<close>

definition carried :: "u16 list \<Rightarrow> uart_input list" where
  "carried ds = concat (map (\<lambda>d. [Arrive d 0, Serve []]) ds)"

lemma carried_bytes: "carried (map ucast bs) = one_by_one bs"
  by (simp add: carried_def one_by_one_def comp_def)

lemma transmitted:
  assumes "HAL_UART_Transmit_handle (Some bs) (word_of_nat (length bs)) timeout h = Some (HAL_OK, t)"
    and "length bs < 2 ^ 16" "byte_frames (uh_Init h)" "gState h = HAL_UART_STATE_READY" "bs \<noteq> []"
  shows "uh_sent t = uh_sent h @ map ucast bs" "gState t = HAL_UART_STATE_READY"
proof -
  have n: "unat (word_of_nat (length bs) :: u16) = length bs" "(word_of_nat (length bs) :: u16) \<noteq> 0"
    using assms(2,5) by (simp_all add: unat_of_nat word_of_nat_eq_0_iff nat_dvd_not_less)
  let ?h = "tx_begin (word_of_nat (length bs)) h"
  have loop: "UART_Transmit_loop bs 0 (uh_tick h) timeout ?h = Some (HAL_OK, t)"
    using assms(1,4) n(2) by (simp add: HAL_UART_Transmit_handle_def)
  have "tx_result (uh_tick h) timeout bs (length bs) ?h HAL_OK t"
    using loop_outcome [OF loop] assms(3) n(1) by (simp add: tx_begin_def)
  then show "uh_sent t = uh_sent h @ map ucast bs" "gState t = HAL_UART_STATE_READY"
    by (auto simp: tx_result_def tx_rel_def tx_begin_def)
qed

text \<open>A transmitter that is ready at every look sends everything.\<close>

lemma wait_ready:
  assumes "flag = USART_SR_TXE \<or> flag = USART_SR_TC" "uh_looks h = sconst (0xC0, x)"
  shows "\<exists>u. UART_WaitOnFlagUntilTimeout flag False ts timeout h = Some (HAL_OK, u) \<and> uh_looks u = sconst (0xC0, x)"
proof -
  let ?u = "snd (read_SR (usart_look h))"
  have "uh_SR ?u AND flag = flag"
    using assms by (auto simp: usart_look_def uart_defs bit.conj_disj_distrib2 and.assoc)
  moreover have "uh_looks ?u = sconst (0xC0, x)" using assms(2) by (simp add: usart_look_def)
  ultimately show ?thesis
    by (subst wait_look [OF assms(1)]) (simp add: Let_def)
qed

lemma loop_ready:
  "uh_looks h = sconst (0xC0, x) \<Longrightarrow> \<exists>t. UART_Transmit_loop m p ts timeout h = Some (HAL_OK, t)"
proof (induction m p ts timeout h rule: UART_Transmit_loop.induct)
  case (1 m p ts timeout h)
  show ?case
  proof (cases "TxXferCount h = 0")
    case True
    then show ?thesis
      using wait_ready [OF _ "1.prems", of USART_SR_TC ts timeout] by (subst UART_Transmit_loop.simps) auto
  next
    case False
    obtain u where u: "UART_WaitOnFlagUntilTimeout USART_SR_TXE False ts timeout h = Some (HAL_OK, u)"
        "uh_looks u = sconst (0xC0, x)"
      using wait_ready [OF _ "1.prems", of USART_SR_TXE ts timeout] by blast
    have put: "uh_looks (tx_put v u) = sconst (0xC0, x)" for v using u(2) by (simp add: tx_put_def write_DR_def)
    have "\<exists>t. UART_Transmit_loop m (p + tx_step (uh_Init u)) ts timeout (tx_put (tx_value (uh_Init u) m p) u) = Some (HAL_OK, t)"
      by (rule "1.IH" [OF False u(1) refl _ put]) simp
    then show ?thesis using False u(1) by (subst UART_Transmit_loop.simps) simp
  qed
qed

text \<open>C40: A command goes through both drivers: when the master's transmission of a command frame reports
  success, the values it wrote to the data register, carried over a clean line, make the interrupts of a
  listening slave record the level on the channel and hold the acknowledgement ready, if the channel is its
  own; any other slave changes neither. Both handles are ready for the next exchange.\<close>

theorem command_crosses_drivers:
  assumes "gState hm = HAL_UART_STATE_READY" and "byte_frames (uh_Init hm)"
    and "HAL_UART_Transmit_handle (Some (command_frame ch r)) (word_of_nat (length (command_frame ch r))) timeout hm
      = Some (HAL_OK, hm')"
    and "listening h" and "line_of h = (None, 0)" and "rx_armed s"
    and "slave_wf s" and "slave_line_view s = ([], False)" and "ack_pending s = 0" and "ch < 4" and "r \<le> 2"
  shows "let (h', t) = uart_run slave_rx_cplt slave_rx_error (carried (drop (length (uh_sent hm)) (uh_sent hm'))) (h, s)
    in gState hm' = HAL_UART_STATE_READY \<and> listening h' \<and> rx_armed t
       \<and> (if my_slave_id s = ch div CHANNELS_PER_SLAVE + 1
          then channel_risk t = (channel_risk s)[unat (ch mod CHANNELS_PER_SLAVE) := r]
            \<and> ack_pending t = 1 \<and> ack_channel_slot t = ch + 1 \<and> ack_risk_slot t = r
          else channel_risk t = channel_risk s \<and> ack_pending t = 0)"
proof -
  let ?bs = "command_frame ch r"
  have frame: "length ?bs < 2 ^ 16" "?bs \<noteq> []"
    by (simp_all add: command_frame_line [OF assms(10,11)] command_bytes_def)
  have sent: "uh_sent hm' = uh_sent hm @ map ucast ?bs" and ready: "gState hm' = HAL_UART_STATE_READY"
    using transmitted [OF assms(3) frame(1) assms(2,1) frame(2)] .
  have ids: "my_slave_id s = home_slave ch \<longleftrightarrow> my_slave_id s = ch div CHANNELS_PER_SLAVE + 1"
    by (simp add: home_slave_def)
  have wf: "slave_line_wf s" "buildable (my_slave_id s)" using slave_wf_parts [OF assms(7)] by blast+
  obtain m where m: "s = with_marks m True s" using armed_marks [OF assms(6)] by blast
  obtain x where x: "fold (\<lambda>b. USART1_IRQHandler (Bus_Byte b)) ?bs s = with_marks x True (fold process_rs485_byte ?bs s)"
    using interrupt_bytes [OF wf(1), of ?bs m] m by metis
  obtain h' where run: "uart_run slave_rx_cplt slave_rx_error (one_by_one ?bs) (h, s)
      = (h', fold (\<lambda>b. USART1_IRQHandler (Bus_Byte b)) ?bs s)" "listening h'"
    using slave_uart.run_heard [OF assms(4,6), of "one_by_one ?bs"]
    by (auto simp: slave_uart_event assms(5) heard_one_by_one fold_map comp_def)
  note levels = stream_levels [OF assms(7-9), of ?bs] obeyed_command [OF assms(10,11) wf(2)]
  have "rx_armed (with_marks x True t)" for t by (simp add: with_marks_def)
  then show ?thesis
    using levels run(2) ready
    unfolding sent carried_bytes append_eq_conv_conj run(1) x Let_def
    by (simp add: carried_bytes run(1) x home_slave_def levels_after_def split: if_splits)
qed

lemma idle_port_sends:
  "\<exists>t. HAL_UART_Transmit_handle (Some bs) (word_of_nat (length bs)) 100 idle_port = Some (HAL_OK, t)"
  if "0 < length bs" "length bs < 2 ^ 16"
proof -
  have "uh_looks (tx_begin n idle_port) = sconst (0xC0, 0)" for n
    by (simp add: tx_begin_def uart_started_def rearm_def HAL_UART_Receive_IT_def UART_Start_Receive_IT_def
        HAL_UART_Init_handle_def UART_SetConfig_def uart_reset_def init_bits_def uart_115200_8n1_def Let_def uart_defs)
  moreover have "(word_of_nat (length bs) :: u16) \<noteq> 0"
    using that by (simp add: word_of_nat_eq_0_iff nat_dvd_not_less)
  ultimately show ?thesis
    using loop_ready idle_port_simps(3) by (simp add: HAL_UART_Transmit_handle_def)
qed

theorem command_crosses_drivers_witness:
  "\<exists>hm'. HAL_UART_Transmit_handle (Some (command_frame 1 2)) (word_of_nat (length (command_frame 1 2))) 100 idle_port
      = Some (HAL_OK, hm')
    \<and> channel_risk (snd (uart_run slave_rx_cplt slave_rx_error
        (carried (drop (length (uh_sent idle_port)) (uh_sent hm'))) (idle_port, slave_one\<lparr> rx_armed := True \<rparr>))) = [0, 2]"
proof -
  have "0 < length (command_frame 1 2)" "length (command_frame 1 2) < 2 ^ 16"
    by (simp_all add: command_frame_def)
  from idle_port_sends [OF this] obtain hm' where
    hm': "HAL_UART_Transmit_handle (Some (command_frame 1 2)) (word_of_nat (length (command_frame 1 2))) 100 idle_port
      = Some (HAL_OK, hm')" by blast
  let ?s = "slave_one\<lparr> rx_armed := True \<rparr>"
  have s: "slave_line_view ?s = ([], False)" "ack_pending ?s = 0" "channel_risk ?s = [0, 0]" "my_slave_id ?s = 1" "rx_armed ?s"
    using slave_one_wf(3) by (simp_all add: slave_line_view_def slave_one_def slave_state0_def slave_memory_def)
  have wf: "slave_wf ?s" using slave_one_wf(1) by simp
  have frames: "byte_frames (uh_Init idle_port)"
    by (simp add: uart_started_def rearm_def HAL_UART_Receive_IT_def UART_Start_Receive_IT_def byte_frames_def
        HAL_UART_Init_handle_def UART_SetConfig_def uart_reset_def init_bits_def uart_115200_8n1_def Let_def uart_defs)
  have "1 < (4 :: u8)" "2 \<le> (2 :: u8)" by simp_all
  from command_crosses_drivers [OF idle_port_simps(3) frames hm' idle_port_simps(1,2) s(5) wf s(1,2) this]
  have "channel_risk (snd (uart_run slave_rx_cplt slave_rx_error
        (carried (drop (length (uh_sent idle_port)) (uh_sent hm'))) (idle_port, ?s))) = [0, 2]"
    by (simp add: Let_def split_def s(3,4))
  with hm' show ?thesis by blast
qed

end
