(* ===== verification/Spec2Isabelle.thy ===== *)
theory Spec2Isabelle
  imports Master_Properties Master_Supervisor Closed_Loop Legacy_Properties Uart_Properties Wire
begin

text \<open>Verification development for the STM32F401 firmware of the VEDA parking-safety system (src/driver).

  The program. A control server on a Raspberry Pi sends risk events for four channels to a master board
  over a serial link; the master (Rs485_send_demo) commands two slave boards over a half-duplex RS-485 bus;
  each slave (Rs485_receive_demo is number 1, rs485_receive_2 number 2, the same sources but for MY_SLAVE_ID)
  drives a relay, a buzzer and an LED strip for each of its two channels and acknowledges every
  command it has applied. The master records a level as applied only after the acknowledgement, retries
  otherwise, and reports the status of the channels upwards. The generation of the slave firmware
  before this one, which knows only ON and OFF, is kept in rs485_receive_2/_backup_old_onoff and is modelled too.

  Shared theories. Veda_Prelude names the C integer types (u8, u16, u32 are words, so arithmetic wraps as in
  C), ASCII, the HAL status codes and the lemmas on lists, words and wrapping ticks. Protocol is
  driver_protocol.h: packed structures as records with their little-endian images, the frames and the XOR
  checksum. Rtos_Queue is the FreeRTOS ring buffer (queue.c) under the CMSIS calls (cmsis_os2.c); its
  locale bounded_queue states what the firmware relies on and is interpreted on the ring. Board is what
  the HAL configures at boot: pins, clock tree, UARTs, interrupt priorities. Line_Assembly is the
  contract of a line receiver as a locale; it is interpreted on the acknowledgement receiver of the
  master (Master_Rs485), on the command receiver of the slave (Slave_Line) and on the one of the ON/OFF
  generation (Legacy_Line).

  The master (Rs485_send_demo/Core). The record master of Master_State holds the static variables of all
  modules, its queues and its surroundings. Master_Channel is veda_channel.c, Master_Downlink
  veda_downlink.c, Master_Rs485 veda_rs485.c with ack_parse.inc (the transmission of a command, in which the
  scheduler task blocks, stands in Master_Sched), Master_Uplink veda_uplink.c with veda_time.c, Master_Tasks
  veda_tasks.c and veda_isr.c, Master_Sched veda_sched.c with ack_match.inc, sched_select.inc and
  sched_dispatch.inc, Master_Supervisor veda_supervisor.c with veda_debug.c, Master_Boot main.c,
  stm32f4xx_hal_msp.c and veda_rpi.c. Each task loop body is one function (StartRxTask_iter,
  StartCtrlTask_iter, StartTxTask_iter, StartHeartbeatTask_iter, StartSchedTask_iter, veda_supervisor_iter);
  Master_Run composes them and the interrupts into the step relation master_step and the reachable states.
  Master_Invariant gives the invariant master_wf and that every step keeps it; Sched_Facts what a tick of
  the scheduler may change and which channel it picks; Master_Bus which frames go out on the bus (on_bus:
  every frame handed to USART1, one per exchange, none from anybody but the scheduler); Ack_Arrival what an
  acknowledgement that arrives during the wait does.

  The slaves (Rs485_receive_demo/Core; MY_SLAVE_ID is the field my_slave_id and buildable says which numbers
  the preprocessor accepts). Slave_State is the record slave with the tables of veda_config.h and main.h;
  Slave_Channel is veda_channel.c, Slave_Rs485 the interrupt side of veda_rs485.c with veda_isr.c,
  Slave_Wait the blocking calls, Slave_Neopixel neopixel.c down to the bits of the timer and DMA
  registers, Slave_Task the services, the log and the loop of veda_supervisor.c, Slave_Boot main.c, the
  MSP code and the entry of the supervisor. Slave_Invariant, Strip_Driver, Strip_Show, Strip_Service, Slave_Run,
  Slave_Loop and Slave_Reach prove the invariant from registers up to reachable states;
  Strip_Encoding says what a frame is and how a WS2812 strip reads it (strip_receive, from the
  datasheet windows that the static assertions of neopixel.c check).

  The ON/OFF generation (_backup_old_onoff). Legacy_State is its state, table and receiver, Legacy_Neopixel
  its strip driver (two timers, two streams, timing computed from the clock), Legacy_Task its services,
  StartDefaultTask and main. Legacy_Facts, Legacy_Line, Legacy_Encoding, Legacy_Show and Legacy_Run prove
  its invariant, Legacy_Prompt when it goes on.

  The UART driver (stm32f4xx_hal_uart.c of the vendor library, as far as the firmware enters it). Hal_Uart is the
  handle with the registers of its USART: set-up and baud rate, HAL_UART_Receive_IT, the interrupt handler with
  UART_Receive_IT and the error paths, and the blocking HAL_UART_Transmit with its waiting loop. The registers
  move as the reference manual documents (an arriving byte sets RXNE, or ORE when the one before was not read; reading
  DR clears RXNE and the errors the last read of SR showed). Hal_Reception abstracts a handle to the state of
  its line and says in \<open>heard\<close> which callbacks a course of events causes; Hal_Client states what the driver
  relies on in the callbacks as the locale uart_client and proves the handler correct inside it; Uart_Firmware
  interprets it on the callbacks of the slave, of the ON/OFF generation and of both ports of the master.
  Hal_Transmit is about the blocking transmission; Wire puts a sender and a receiver together. The handles are not part of the records of the
  boards: there, rx_armed, RxArm and the driver's answers stand for them.

  The bus. Closed_Loop puts a command of the master in front of both slaves, carries the acknowledgement
  of the one that obeyed it back to the master and to the other slave, and closes the exchange.

  What is shown. Master_Properties (C1 to C10): nothing counts as applied without the matching
  acknowledgement, reports are honest, no buffer is left, waiting is bounded; of a tick of the scheduler,
  that it sends to a channel with a pending danger first, that channels take turns, that it sends one frame
  or nothing, and that a failed channel gets no frame before its backoff is over. Link_Properties (C11 to
  C19): the downlink parser accepts exactly correct frames and notices any single damaged byte, the
  acknowledgement receiver equals a reference parser of the stream, commands and reports, the queues are
  bounded first-in first-out lists over any course of sends and receives (run_ops, fifo_op in Rtos_Queue),
  the clock is exact, the boot succeeds exactly when it should; also heartbeats and the printing of numbers.
  Slave_Properties and Strip_Properties (C20 to C26): which lines a slave obeys and what it then records,
  shows, sends and draws; when it boots; what becomes of a redraw that succeeds, fails or is overtaken; also
  how it recovers after silence. Driver_Properties (C27 to C29): the strip driver itself. Closed_Loop (C30
  to C32): the exchange between the boards. Legacy_Properties (C33 to C35): the ON/OFF generation, its
  strips, and that it ignores the commands of the present master. Uart_Properties (C36 to C39): the receive
  interrupts of the models are what the UART driver makes of the line, an overrun between two register reads
  keeps the interrupt busy, a blocking transmission returns and reports what was sent. Wire (C40): a command
  goes through the driver of the master, over a clean line and through the driver of a slave.

  Surroundings. Whatever the code cannot know is an input of the state: the results of UART transmissions
  (tx_results, the statuses in sl_calls and lg_calls), the interrupts and task turns that happen while a
  task is blocked or between two of its statements (agenda, sl_calls, lg_calls), what the DMA flags show at
  each look (sl_polls, lg_polls) and how many reads a stream takes to stop (sl_lags, lg_lags). The theorems
  hold for all of them. A list that has run out means that nothing more happens. A frame whose transfer was
  seen to complete is recorded as StripFrame, one that was broken off as StripCut: how much of it went out
  is not known. Interrupts are taken where a task blocks, at the looks of a polling loop and at windows
  between the services of a loop, not between any two instructions; while the scheduler task transmits a
  command, the agenda goes on. In the theories of the UART driver the course of a line is a list of
  arrivals, of chances for the interrupt (each with what arrives between its reads of SR and DR) and of
  pieces of a transmission, and what a waiting loop sees is a stream (uh_looks).

  Termination. No fuel is used. The wait for an acknowledgement ends by the measure of what can still arrive
  and the time left; the polling loops of the strip drivers by the looks listed and then the time left
  before their timeout; the loops over words by their distance to the limit. The ON/OFF driver waits for a
  stream without a limit: en_wait is a partial function to an option whose None is not returning, and a
  turn of that task is an option too. The waiting loop of the UART driver is one as well, since its end depends on the
  clock; C39 says when it returns.

  Not modelled. The kernel of FreeRTOS beyond its queues and delays (scheduling is the interleaving of steps,
  the heap a boot parameter); the HAL drivers beyond the UART paths named above and what the firmware computes with (the
  UART driver's DMA transfers, other modes, aborts and blocking reception are never used); the generated start-up
  code; the self-test of the master, which is compiled out; the electrical side of the bus (collisions and noise
  appear as bytes and error interrupts). The control server, the compute server, the client and the
  shared library (src/control-server, src/compute-server, src/client, src/shared) are C++ and not part of this
  development, except that decode_leds is the control server's reading of a reported status; they meet it at
  driver_protocol.h. The host tests under tools/ test the code modelled here.\<close>

end
